(* ===== verification/Go_Base.thy ===== *)
theory Go_Base
  imports Main "HOL-Library.Word"
begin

text \<open>
  The prelude of the development: the vocabulary every component shares.

  \<^item> Go's error values: the package-level sentinels of the program, \<^verbatim>\<open>fmt.Errorf\<close> values with
    and without a wrapped cause, \<^verbatim>\<open>errors.Join\<close>, and errors handed over by code outside the
    repository. \<open>errors_is\<close> is \<^verbatim>\<open>errors.Is\<close>.
  \<^item> Fallible results, a sum with the error on the left, and the sequencing \<open>rbind\<close> that
    stands for the source's \<^verbatim>\<open>if err != nil { return err }\<close>.
  \<^item> Byte strings. Go's \<^verbatim>\<open>string\<close> and \<^verbatim>\<open>[]byte\<close> are both sequences of bytes, and a HOL
    \<open>char\<close> is exactly one byte, so both are lists of characters here.
  \<^item> The functions of package \<^verbatim>\<open>strings\<close> and the fixed-size arrays the code uses.
  \<^item> The collections \<open>go_simps\<close> (evaluation of library functions) and \<open>result_simps\<close>
    (inversion of successful results), which carry the component proofs.
\<close>

named_theorems go_simps
named_theorems result_simps

subsection \<open>Errors\<close>

text \<open>The error values that the code compares by identity or with \<^verbatim>\<open>errors.Is\<close>.\<close>

datatype sentinel =
    ErrInvalidCaveat | ErrUnknownVersion | ErrNoServices | ErrInvalidService
  | ErrNoToken | ErrNoReplace | ErrPaymentFailedTerminally
  | ErrSecretNotFound | ErrSessionNotFound | ErrNoPrivateKey
  | ErrNoRows | ErrRetriesExceeded
  | IoEOF | IoUnexpectedEOF | ContextCanceled
  | ClientFacing | PaymentHashExists | PaymentFailed

text \<open>
  \<open>Errorf\<close> is an error made on the spot, told apart by its constant text; \<open>Wrap\<close> is
  \<^verbatim>\<open>fmt.Errorf\<close> with a \<^verbatim>\<open>%w\<close> verb; \<open>External\<close> is an error that a service or a
  third-party library returned; \<open>PgError\<close> is a Postgres error with its SQLSTATE code;
  \<open>Panic\<close> ends the request or the process instead of returning.
\<close>

datatype go_error =
    Sentinel sentinel
  | Errorf string
  | Wrap string go_error
  | Join go_error go_error
  | External string
  | PgError string
  | Panic string
  | SerializationError go_error
  | UniqueViolation go_error

fun errors_is :: "go_error \<Rightarrow> sentinel \<Rightarrow> bool" where
  "errors_is (Sentinel s) t = (s = t)"
| "errors_is (Wrap m e) t = errors_is e t"
| "errors_is (Join a b) t = (errors_is a t \<or> errors_is b t)"
| "errors_is (SerializationError e) t = errors_is e t"
| "errors_is e t = False"

subsection \<open>Results\<close>

type_synonym 'a result = "go_error + 'a"

definition rbind :: "'a result \<Rightarrow> ('a \<Rightarrow> 'b result) \<Rightarrow> 'b result" where
  "rbind r f = (case r of Inl e \<Rightarrow> Inl e | Inr x \<Rightarrow> f x)"

lemma rbind_Inl [simp]: "rbind (Inl e) f = Inl e"
  by (simp add: rbind_def)

lemma rbind_Inr [simp]: "rbind (Inr x) f = f x"
  by (simp add: rbind_def)

lemma rbind_eq_Inr [result_simps]:
  "rbind r f = Inr y \<longleftrightarrow> (\<exists>x. r = Inr x \<and> f x = Inr y)"
  by (cases r) auto

lemma rbind_eq_Inl [result_simps]:
  "rbind r f = Inl e \<longleftrightarrow> r = Inl e \<or> (\<exists>x. r = Inr x \<and> f x = Inl e)"
  by (cases r) auto

lemma rbind_cong [cong]:
  "r = r' \<Longrightarrow> (\<And>x. r' = Inr x \<Longrightarrow> f x = g x) \<Longrightarrow> rbind r f = rbind r' g"
  by (cases r') auto

lemma rbind_assoc: "rbind (rbind r f) g = rbind r (\<lambda>x. rbind (f x) g)"
  by (cases r) auto

definition is_ok :: "'a result \<Rightarrow> bool" where
  "is_ok r = (case r of Inl e \<Rightarrow> False | Inr x \<Rightarrow> True)"

lemma is_ok_simps [simp]: "is_ok (Inr x)" "\<not> is_ok (Inl e)"
  by (simp_all add: is_ok_def)

lemma is_ok_iff: "is_ok r \<longleftrightarrow> (\<exists>x. r = Inr x)"
  by (cases r) auto

lemma is_ok_unit [result_simps]: "is_ok (r :: unit result) \<longleftrightarrow> r = Inr ()"
  by (cases r) auto

text \<open>A guard: \<^verbatim>\<open>if !b { return err }\<close>.\<close>

definition ensure :: "bool \<Rightarrow> go_error \<Rightarrow> unit result" where
  "ensure b e = (if b then Inr () else Inl e)"

lemma ensure_eq_Inr [result_simps]: "ensure b e = Inr u \<longleftrightarrow> b"
  by (simp add: ensure_def)

lemma ensure_eq_Inl [result_simps]: "ensure b e = Inl e' \<longleftrightarrow> \<not> b \<and> e' = e"
  by (auto simp: ensure_def)

lemma ensure_simps [simp]: "ensure True e = Inr ()" "ensure False e = Inl e"
  by (simp_all add: ensure_def)

text \<open>Map a fallible function over a list, stopping at the first error.\<close>

fun rmap :: "('a \<Rightarrow> 'b result) \<Rightarrow> 'a list \<Rightarrow> 'b list result" where
  "rmap f [] = Inr []"
| "rmap f (x # xs) = rbind (f x) (\<lambda>y. rbind (rmap f xs) (\<lambda>ys. Inr (y # ys)))"

lemma rmap_Inr_iff: "rmap f xs = Inr ys \<longleftrightarrow> list_all2 (\<lambda>x y. f x = Inr y) xs ys"
proof (induction xs arbitrary: ys)
  case Nil
  then show ?case by auto
next
  case (Cons x xs)
  then show ?case by (cases ys) (auto simp: rbind_eq_Inr)
qed

lemma rmap_all_ok: "(\<And>x. x \<in> set xs \<Longrightarrow> f x = Inr (g x)) \<Longrightarrow> rmap f xs = Inr (map g xs)"
  by (induction xs) auto

text \<open>Run a check over a list, returning the first error.\<close>

fun rcheck :: "('a \<Rightarrow> unit result) \<Rightarrow> 'a list \<Rightarrow> unit result" where
  "rcheck f [] = Inr ()"
| "rcheck f (x # xs) = rbind (f x) (\<lambda>_. rcheck f xs)"

lemma rcheck_ok_iff [result_simps]: "rcheck f xs = Inr u \<longleftrightarrow> (\<forall>x \<in> set xs. f x = Inr ())"
  by (induction xs) (auto simp: rbind_eq_Inr)

subsection \<open>Byte strings and fixed-size arrays\<close>

type_synonym bytes = "char list"

abbreviation NUL :: char where "NUL \<equiv> CHR 0x00"

text \<open>\<^verbatim>\<open>var a [n]byte; copy(a[:], bs)\<close>: the array holds a prefix of \<open>bs\<close>, zeros after it.\<close>

definition to_array :: "nat \<Rightarrow> bytes \<Rightarrow> bytes" where
  "to_array n bs = take n bs @ replicate (n - length bs) NUL"

lemma length_to_array [simp]: "length (to_array n bs) = n"
  by (simp add: to_array_def)

lemma to_array_id [simp]: "length bs = n \<Longrightarrow> to_array n bs = bs"
  by (simp add: to_array_def)

lemma to_array_idem [simp]: "to_array n (to_array n bs) = to_array n bs"
  by simp

definition byte_val :: "char \<Rightarrow> nat" where
  "byte_val c = of_char c"

definition byte_of :: "nat \<Rightarrow> char" where
  "byte_of n = char_of n"

lemma byte_val_less [simp]: "byte_val c < 256"
  by (simp add: byte_val_def)

lemma byte_of_val [simp]: "byte_of (byte_val c) = c"
  by (simp add: byte_val_def byte_of_def)

lemma byte_val_of [simp]: "byte_val (byte_of n) = n mod 256"
  by (simp add: byte_val_def byte_of_def)

lemma byte_val_inj: "byte_val a = byte_val b \<longleftrightarrow> a = b"
  by (simp add: byte_val_def)

subsection \<open>Package strings\<close>

text \<open>\<^verbatim>\<open>strings.Split(s, sep)\<close> for a separator of one byte.\<close>

fun split_on :: "char \<Rightarrow> string \<Rightarrow> string list" where
  "split_on c [] = [[]]"
| "split_on c (x # xs) =
     (if x = c then [] # split_on c xs
      else (case split_on c xs of [] \<Rightarrow> [[x]] | p # ps \<Rightarrow> (x # p) # ps))"

text \<open>\<^verbatim>\<open>strings.Join(parts, sep)\<close>.\<close>

fun join_with :: "char \<Rightarrow> string list \<Rightarrow> string" where
  "join_with c [] = []"
| "join_with c [p] = p"
| "join_with c (p # ps) = p @ [c] @ join_with c ps"

lemma split_on_nonempty [simp]: "split_on c s \<noteq> []"
  by (induction s) (auto split: list.splits)

lemma split_on_parts_clean: "p \<in> set (split_on c s) \<Longrightarrow> c \<notin> set p"
proof (induction s arbitrary: p)
  case (Cons x xs)
  then show ?case by (fastforce split: if_splits list.splits)
qed simp

lemma split_on_clean: "c \<notin> set s \<Longrightarrow> split_on c s = [s]"
  by (induction s) auto

lemma split_on_append: "c \<notin> set p \<Longrightarrow> split_on c (p @ c # s) = p # split_on c s"
  by (induction p) auto

lemma split_on_join:
  "ps \<noteq> [] \<Longrightarrow> (\<And>p. p \<in> set ps \<Longrightarrow> c \<notin> set p) \<Longrightarrow> split_on c (join_with c ps) = ps"
proof (induction c ps rule: join_with.induct)
  case (3 c p q ps)
  then show ?case by (simp add: split_on_append)
qed (auto simp: split_on_clean)

lemma join_split_on: "join_with c (split_on c s) = s"
proof (induction s)
  case (Cons x xs)
  then show ?case
    by (cases "split_on c xs"; cases "tl (split_on c xs)") auto
qed simp

lemma length_split_on: "length (split_on c s) = Suc (count_list s c)"
  by (induction s) (auto split: list.splits)

text \<open>\<^verbatim>\<open>strings.SplitN(s, sep, 2)\<close>: at most one cut, at the first separator.\<close>

fun split_n2 :: "char \<Rightarrow> string \<Rightarrow> string list" where
  "split_n2 c [] = [[]]"
| "split_n2 c (x # xs) =
     (if x = c then [[], xs]
      else (case split_n2 c xs of [] \<Rightarrow> [[x]] | p # ps \<Rightarrow> (x # p) # ps))"

lemma split_n2_nonempty [simp]: "split_n2 c s \<noteq> []"
  by (cases s) (auto split: list.splits)

lemma split_n2_cut: "c \<notin> set p \<Longrightarrow> split_n2 c (p @ c # s) = [p, s]"
  by (induction p) auto

lemma split_n2_clean: "c \<notin> set s \<Longrightarrow> split_n2 c s = [s]"
  by (induction s) auto

lemma split_n2_length_2:
  "length (split_n2 c s) = 2 \<longleftrightarrow> c \<in> set s"
proof (cases "c \<in> set s")
  case True
  then obtain p q where "s = p @ c # q" "c \<notin> set p" by (meson split_list_first)
  then show ?thesis by (simp add: split_n2_cut)
qed (simp add: split_n2_clean)

lemma split_n2_eq_pair: "split_n2 c s = [a, b] \<longleftrightarrow> s = a @ c # b \<and> c \<notin> set a"
proof
  assume l: "split_n2 c s = [a, b]"
  then have "c \<in> set s" using split_n2_length_2 [of c s] by simp
  then obtain p q where "s = p @ c # q" "c \<notin> set p" by (meson split_list_first)
  with l show "s = a @ c # b \<and> c \<notin> set a" by (simp add: split_n2_cut)
qed (simp add: split_n2_cut)

text \<open>\<^verbatim>\<open>strings.HasPrefix\<close>, \<^verbatim>\<open>strings.Contains\<close>, \<^verbatim>\<open>strings.ToLower\<close> (on ASCII), \<^verbatim>\<open>strings.TrimLeft\<close>.\<close>

definition has_prefix :: "string \<Rightarrow> string \<Rightarrow> bool" where
  "has_prefix s p = (take (length p) s = p)"

lemma has_prefix_append [simp]: "has_prefix (p @ s) p"
  by (simp add: has_prefix_def)

lemma has_prefix_iff: "has_prefix s p \<longleftrightarrow> (\<exists>r. s = p @ r)"
  unfolding has_prefix_def by (metis append_eq_conv_conj)

fun contains :: "string \<Rightarrow> string \<Rightarrow> bool" where
  "contains [] p = (p = [])"
| "contains (x # xs) p = (has_prefix (x # xs) p \<or> contains xs p)"

lemma contains_iff: "contains s p \<longleftrightarrow> (\<exists>a b. s = a @ p @ b)"
proof (induction s)
  case (Cons x xs)
  show ?case
  proof
    assume "contains (x # xs) p"
    then consider "has_prefix (x # xs) p" | "contains xs p" by auto
    then show "\<exists>a b. x # xs = a @ p @ b"
    proof cases
      case 1
      then show ?thesis by (metis append_Nil has_prefix_iff)
    next
      case 2
      then obtain a b where "xs = a @ p @ b" using Cons.IH by blast
      then have "x # xs = (x # a) @ p @ b" by simp
      then show ?thesis by blast
    qed
  next
    assume "\<exists>a b. x # xs = a @ p @ b"
    then obtain a b where ab: "x # xs = a @ p @ b" by blast
    show "contains (x # xs) p"
    proof (cases a)
      case Nil
      with ab have "has_prefix (x # xs) p" by (auto simp: has_prefix_iff)
      then show ?thesis by simp
    next
      case (Cons y ys)
      with ab have "xs = ys @ p @ b" by simp
      then show ?thesis using Cons.IH by auto
    qed
  qed
qed auto

text \<open>\<^verbatim>\<open>strings.Split(s, sep)\<close> for a separator of several bytes (the empty one is not used).\<close>

fun split_seq :: "string \<Rightarrow> string \<Rightarrow> string list" where
  "split_seq sep [] = [[]]"
| "split_seq sep (c # cs) =
     (if sep \<noteq> [] \<and> has_prefix (c # cs) sep then [] # split_seq sep (drop (length sep) (c # cs))
      else (case split_seq sep cs of [] \<Rightarrow> [[c]] | p # ps \<Rightarrow> (c # p) # ps))"

declare split_seq.simps(2) [simp del]

lemma split_seq_two:
  assumes "hd sep \<notin> set a" and "hd sep \<notin> set b" and "sep \<noteq> []"
  shows "split_seq sep (a @ sep @ b) = [a, b]"
proof -
  have tail: "split_seq sep b = [b]" if "hd sep \<notin> set b" for b
    using that
  proof (induction b)
    case (Cons c b)
    then have "\<not> has_prefix (c # b) sep" using assms(3) by (cases sep) (auto simp: has_prefix_def)
    with Cons show ?case by (simp add: split_seq.simps(2))
  qed simp
  show ?thesis
    using assms(1)
  proof (induction a)
    case Nil
    obtain x xs where "sep = x # xs" using assms(3) by (cases sep) auto
    then show ?case using tail [OF assms(2)] by (simp add: split_seq.simps(2) has_prefix_def)
  next
    case (Cons c a)
    then have "\<not> has_prefix ((c # a) @ sep @ b) sep" using assms(3) by (cases sep) (auto simp: has_prefix_def)
    with Cons show ?case by (simp add: split_seq.simps(2))
  qed
qed

definition lower_char :: "char \<Rightarrow> char" where
  "lower_char c = (let n = byte_val c in if 65 \<le> n \<and> n \<le> 90 then byte_of (n + 32) else c)"

definition to_lower :: "string \<Rightarrow> string" where
  "to_lower s = map lower_char s"

text \<open>
  \<^verbatim>\<open>strings.TrimLeft(s, cutset)\<close> removes every leading byte that occurs \<^emph>\<open>in\<close> the cutset;
  it is not \<^verbatim>\<open>strings.TrimPrefix\<close>.
\<close>

definition trim_left :: "string \<Rightarrow> string \<Rightarrow> string" where
  "trim_left s cutset = dropWhile (\<lambda>c. c \<in> set cutset) s"

text \<open>\<^verbatim>\<open>strings.TrimSpace\<close> (on ASCII).\<close>

definition is_space :: "char \<Rightarrow> bool" where
  "is_space c = (byte_val c = 32 \<or> (9 \<le> byte_val c \<and> byte_val c \<le> 13))"

definition trim_space :: "string \<Rightarrow> string" where
  "trim_space s = rev (dropWhile is_space (rev (dropWhile is_space s)))"

subsection \<open>Maps and indices\<close>

lemma all_nat_0_Suc: "(\<forall>i. P i) \<longleftrightarrow> P 0 \<and> (\<forall>i. P (Suc i))"
  by (metis not0_implies_Suc)

text \<open>
  A Go map built by a loop of assignments over a list: the last assignment to a key wins,
  so the loop is \<open>map_of\<close> of the reversed list.
\<close>

lemma foldl_map_upd: "foldl (\<lambda>m x. m(f x \<mapsto> g x)) m xs k
    = (case map_of (map (\<lambda>x. (f x, g x)) (rev xs)) k of None \<Rightarrow> m k | Some v \<Rightarrow> Some v)"
  by (induction xs arbitrary: m) (auto simp: map_add_def split: option.splits)

text \<open>The first row of a table that matches, after the changes a query makes.\<close>

lemma find_append: "List.find P (xs @ ys) = (case List.find P xs of None \<Rightarrow> List.find P ys | Some x \<Rightarrow> Some x)"
  by (induction xs) auto

lemma find_SomeD: "List.find P xs = Some x \<Longrightarrow> P x \<and> x \<in> set xs"
  by (induction xs) (auto split: if_splits)

lemma find_filter_other: "(\<And>x. P x \<Longrightarrow> Q x) \<Longrightarrow> List.find P (filter Q xs) = List.find P xs"
  by (induction xs) auto

lemma find_filter_none: "(\<And>x. P x \<Longrightarrow> \<not> Q x) \<Longrightarrow> List.find P (filter Q xs) = None"
  by (induction xs) auto

lemma find_map_same:
  "(\<And>x. P (f x) = P x) \<Longrightarrow> List.find P (map f xs) = map_option f (List.find P xs)"
  by (induction xs) auto

end
