(* ===== verification/Go_Encoding.thy ===== *)
theory Go_Encoding
  imports Go_Base
begin

text \<open>
  The encodings of Go's standard library that the program stores and sends: 64-bit integers
  (\<open>wrap64\<close>), decimal text (\<^verbatim>\<open>strconv\<close>), hexadecimal (\<^verbatim>\<open>encoding/hex\<close>), base64
  (\<^verbatim>\<open>encoding/base64.StdEncoding\<close>), big-endian integers and readers (\<^verbatim>\<open>encoding/binary\<close>,
  \<^verbatim>\<open>io\<close>) and instants (\<^verbatim>\<open>time\<close>). Each codec comes with its round trip and with the
  alphabet its output uses, since the formats of the program rely on separators not
  occurring in encoded text.
\<close>

subsection \<open>Signed 64-bit integers\<close>

definition wrap64 :: "int \<Rightarrow> int" where
  "wrap64 x = (x + 2 ^ 63) mod 2 ^ 64 - 2 ^ 63"

definition in_int64 :: "int \<Rightarrow> bool" where
  "in_int64 x \<longleftrightarrow> - (2 ^ 63) \<le> x \<and> x \<le> 2 ^ 63 - 1"

lemma wrap64_id [go_simps]: "in_int64 x \<Longrightarrow> wrap64 x = x"
  by (simp add: wrap64_def in_int64_def)

lemma wrap64_range: "in_int64 (wrap64 x)"
proof -
  have "0 \<le> (x + 2 ^ 63) mod 2 ^ 64" and "(x + 2 ^ 63) mod 2 ^ 64 < (2::int) ^ 64"
    by simp_all
  then show ?thesis by (simp add: wrap64_def in_int64_def)
qed

lemma wrap64_sint: "wrap64 x = sint (word_of_int x :: 64 word)"
  by (simp add: wrap64_def sint_sbintrunc' signed_take_bit_eq_take_bit_shift take_bit_eq_mod)

subsection \<open>Decimal text\<close>

definition digit_char :: "nat \<Rightarrow> char" where
  "digit_char n = byte_of (48 + n)"

definition digit_val :: "char \<Rightarrow> nat option" where
  "digit_val c = (let n = byte_val c in if 48 \<le> n \<and> n \<le> 57 then Some (n - 48) else None)"

lemma digit_val_char [simp]: "n < 10 \<Longrightarrow> digit_val (digit_char n) = Some n"
  by (simp add: digit_val_def digit_char_def)

definition is_digit :: "char \<Rightarrow> bool" where
  "is_digit c \<longleftrightarrow> digit_val c \<noteq> None"

fun dec_nat :: "nat \<Rightarrow> string" where
  "dec_nat n = (if n < 10 then [digit_char n] else dec_nat (n div 10) @ [digit_char (n mod 10)])"

declare dec_nat.simps [simp del]

lemma dec_nat_nonempty [simp]: "dec_nat n \<noteq> []"
  by (subst dec_nat.simps) simp

lemma dec_nat_digits: "c \<in> set (dec_nat n) \<Longrightarrow> is_digit c"
proof (induction n rule: dec_nat.induct)
  case (1 n)
  show ?case
  proof (cases "n < 10")
    case True
    with 1 show ?thesis by (simp add: dec_nat.simps [of n] is_digit_def)
  next
    case False
    with 1 show ?thesis by (auto simp: dec_nat.simps [of n] is_digit_def)
  qed
qed

text \<open>\<^verbatim>\<open>strconv.FormatInt(i, 10)\<close>, \<^verbatim>\<open>strconv.Itoa\<close> and the verb \<^verbatim>\<open>%d\<close>.\<close>

definition format_int :: "int \<Rightarrow> string" where
  "format_int i = (if i < 0 then CHR ''-'' # dec_nat (nat (- i)) else dec_nat (nat i))"

fun dec_acc :: "nat \<Rightarrow> string \<Rightarrow> nat option" where
  "dec_acc a [] = Some a"
| "dec_acc a (c # cs) = (case digit_val c of None \<Rightarrow> None | Some d \<Rightarrow> dec_acc (10 * a + d) cs)"

lemma dec_acc_snoc:
  "dec_acc a (cs @ [c]) =
     (case dec_acc a cs of None \<Rightarrow> None
      | Some n \<Rightarrow> (case digit_val c of None \<Rightarrow> None | Some d \<Rightarrow> Some (10 * n + d)))"
  by (induction cs arbitrary: a) (auto split: option.splits)

lemma dec_acc_dec_nat: "dec_acc 0 (dec_nat n) = Some n"
proof (induction n rule: dec_nat.induct)
  case (1 n)
  show ?case
  proof (cases "n < 10")
    case True
    then show ?thesis by (simp add: dec_nat.simps [of n])
  next
    case False
    with 1 show ?thesis by (simp add: dec_nat.simps [of n] dec_acc_snoc)
  qed
qed

text \<open>
  \<^verbatim>\<open>strconv.ParseInt(s, 10, 64)\<close>, and \<^verbatim>\<open>strconv.Atoi\<close> where \<^verbatim>\<open>int\<close> has 64 bits: an optional
  sign, at least one digit, only digits, and a value that fits.
\<close>

definition parse_int :: "string \<Rightarrow> int result" where
  "parse_int s =
     (let (neg, ds) = (case s of [] \<Rightarrow> (False, [])
                       | c # cs \<Rightarrow> if c = CHR ''-'' then (True, cs)
                                    else if c = CHR ''+'' then (False, cs) else (False, s))
      in if ds = [] then Inl (Errorf ''invalid syntax'')
         else (case dec_acc 0 ds of
                 None \<Rightarrow> Inl (Errorf ''invalid syntax'')
               | Some n \<Rightarrow> (let v = (if neg then - int n else int n)
                            in if in_int64 v then Inr v else Inl (Errorf ''value out of range''))))"

lemma not_digit_sign [simp]: "\<not> is_digit (CHR ''-'')" "\<not> is_digit (CHR ''+'')"
  by (simp_all add: is_digit_def digit_val_def byte_val_def)

lemma not_digit_seps [simp]: "\<not> is_digit (CHR '','')" "\<not> is_digit (CHR '':'')" "\<not> is_digit (CHR ''='')"
  by (simp_all add: is_digit_def digit_val_def byte_val_def)

lemma parse_format_int: "in_int64 i \<Longrightarrow> parse_int (format_int i) = Inr i"
proof -
  assume i: "in_int64 i"
  show ?thesis
  proof (cases "i < 0")
    case True
    with i show ?thesis
      by (simp add: format_int_def parse_int_def dec_acc_dec_nat)
  next
    case False
    obtain c cs where cs: "dec_nat (nat i) = c # cs"
      by (cases "dec_nat (nat i)") auto
    then have "is_digit c" using dec_nat_digits [of c "nat i"] by simp
    then have "c \<noteq> CHR ''-''" "c \<noteq> CHR ''+''" by auto
    with False i cs dec_acc_dec_nat [of "nat i"] show ?thesis
      by (simp add: format_int_def parse_int_def del: dec_acc.simps)
  qed
qed

lemma parse_int_in_range: "parse_int s = Inr v \<Longrightarrow> in_int64 v"
  by (auto simp: parse_int_def Let_def split: if_splits option.splits prod.splits list.splits)

subsection \<open>Hexadecimal\<close>

definition hex_char :: "nat \<Rightarrow> char" where
  "hex_char n = (if n < 10 then byte_of (48 + n) else byte_of (87 + n))"

definition hex_val :: "char \<Rightarrow> nat option" where
  "hex_val c = (let n = byte_val c in
     if 48 \<le> n \<and> n \<le> 57 then Some (n - 48)
     else if 97 \<le> n \<and> n \<le> 102 then Some (n - 87)
     else if 65 \<le> n \<and> n \<le> 70 then Some (n - 55) else None)"

lemma hex_val_char [simp]: "n < 16 \<Longrightarrow> hex_val (hex_char n) = Some n"
  by (auto simp: hex_val_def hex_char_def)

lemma hex_val_less: "hex_val c = Some n \<Longrightarrow> n < 16"
  by (auto simp: hex_val_def Let_def split: if_splits)

fun hex_encode :: "bytes \<Rightarrow> string" where
  "hex_encode [] = []"
| "hex_encode (b # bs) = hex_char (byte_val b div 16) # hex_char (byte_val b mod 16) # hex_encode bs"

fun hex_decode :: "string \<Rightarrow> bytes result" where
  "hex_decode [] = Inr []"
| "hex_decode [c] = (case hex_val c of None \<Rightarrow> Inl (Errorf ''encoding/hex: invalid byte'')
                     | Some _ \<Rightarrow> Inl (Errorf ''encoding/hex: odd length hex string''))"
| "hex_decode (a # b # cs) =
     (case hex_val a of None \<Rightarrow> Inl (Errorf ''encoding/hex: invalid byte'')
      | Some x \<Rightarrow> (case hex_val b of None \<Rightarrow> Inl (Errorf ''encoding/hex: invalid byte'')
        | Some y \<Rightarrow> rbind (hex_decode cs) (\<lambda>bs. Inr (byte_of (16 * x + y) # bs))))"

lemma hex_decode_encode [simp]: "hex_decode (hex_encode bs) = Inr bs"
proof (induction bs)
  case (Cons b bs)
  have "byte_val b div 16 < 16" using byte_val_less [of b] by linarith
  moreover have "16 * (byte_val b div 16) + byte_val b mod 16 = byte_val b" by simp
  ultimately show ?case using Cons.IH by simp
qed simp

lemma length_hex_encode [simp]: "length (hex_encode bs) = 2 * length bs"
  by (induction bs) auto

lemma hex_decode_length: "hex_decode s = Inr bs \<Longrightarrow> length s = 2 * length bs"
  by (induction s arbitrary: bs rule: hex_decode.induct)
    (auto simp: rbind_eq_Inr split: option.splits)

definition is_lower_hex :: "char \<Rightarrow> bool" where
  "is_lower_hex c \<longleftrightarrow> (let n = byte_val c in (48 \<le> n \<and> n \<le> 57) \<or> (97 \<le> n \<and> n \<le> 102))"

lemma is_lower_hex_char [simp]: "n < 16 \<Longrightarrow> is_lower_hex (hex_char n)"
  by (auto simp: is_lower_hex_def hex_char_def)

lemma hex_encode_alphabet: "c \<in> set (hex_encode bs) \<Longrightarrow> is_lower_hex c"
proof (induction bs)
  case (Cons b bs)
  have "byte_val b div 16 < 16" using byte_val_less [of b] by linarith
  with Cons show ?case by auto
qed simp

subsection \<open>Base64 (standard alphabet, padding)\<close>

definition b64_char :: "nat \<Rightarrow> char" where
  "b64_char n = (if n < 26 then byte_of (65 + n) else if n < 52 then byte_of (71 + n)
     else if n < 62 then byte_of (n - 4) else if n = 62 then CHR ''+'' else CHR ''/'')"

definition b64_val :: "char \<Rightarrow> nat option" where
  "b64_val c = (let n = byte_val c in
     if 65 \<le> n \<and> n \<le> 90 then Some (n - 65)
     else if 97 \<le> n \<and> n \<le> 122 then Some (n - 71)
     else if 48 \<le> n \<and> n \<le> 57 then Some (n + 4)
     else if c = CHR ''+'' then Some 62 else if c = CHR ''/'' then Some 63 else None)"

abbreviation PAD :: char where "PAD \<equiv> CHR ''=''"

lemma b64_val_char [simp]: "n < 64 \<Longrightarrow> b64_val (b64_char n) = Some n"
  by (auto simp: b64_val_def b64_char_def byte_val_def byte_of_def Let_def)

lemma b64_char_neq [simp]:
  "n < 64 \<Longrightarrow> b64_char n \<noteq> CHR ''=''" "n < 64 \<Longrightarrow> b64_char n \<noteq> CHR '':''"
  "n < 64 \<Longrightarrow> b64_char n \<noteq> CHR 0x0A" "n < 64 \<Longrightarrow> b64_char n \<noteq> CHR 0x0D"
  "n < 64 \<Longrightarrow> b64_char n \<noteq> CHR 0x22"
  using b64_val_char [of n] by (auto simp: b64_val_def byte_val_def simp del: b64_val_char)

fun b64_encode :: "bytes \<Rightarrow> string" where
  "b64_encode [] = []"
| "b64_encode [a] =
     (let x = byte_val a in [b64_char (x div 4), b64_char (x mod 4 * 16), PAD, PAD])"
| "b64_encode [a, b] =
     (let x = byte_val a; y = byte_val b
      in [b64_char (x div 4), b64_char (x mod 4 * 16 + y div 16), b64_char (y mod 16 * 4), PAD])"
| "b64_encode (a # b # c # bs) =
     (let x = byte_val a; y = byte_val b; z = byte_val c
      in b64_char (x div 4) # b64_char (x mod 4 * 16 + y div 16)
         # b64_char (y mod 16 * 4 + z div 64) # b64_char (z mod 64) # b64_encode bs)"

text \<open>
  The decoder first drops line breaks, as \<^verbatim>\<open>Encoding.Decode\<close> does wherever they stand, then
  reads groups of four. Padding is allowed in the last group only; unused low bits are
  ignored (the encoding is not \<^verbatim>\<open>Strict\<close>).
\<close>

abbreviation b64_corrupt :: "bytes result" where
  "b64_corrupt \<equiv> Inl (Errorf ''illegal base64 data'')"

fun b64_groups :: "string \<Rightarrow> bytes result" where
  "b64_groups [] = Inr []"
| "b64_groups (p # q # r # s # cs) =
     (case (b64_val p, b64_val q) of
        (Some x, Some y) \<Rightarrow>
          (if r = PAD then
             (if s = PAD \<and> cs = [] then Inr [byte_of (x * 4 + y div 16)] else b64_corrupt)
           else (case b64_val r of
                   None \<Rightarrow> b64_corrupt
                 | Some z \<Rightarrow>
                     (if s = PAD then
                        (if cs = [] then Inr [byte_of (x * 4 + y div 16), byte_of (y mod 16 * 16 + z div 4)]
                         else b64_corrupt)
                      else (case b64_val s of
                              None \<Rightarrow> b64_corrupt
                            | Some w \<Rightarrow> rbind (b64_groups cs) (\<lambda>bs. Inr
                                (byte_of (x * 4 + y div 16) # byte_of (y mod 16 * 16 + z div 4)
                                 # byte_of (z mod 4 * 64 + w) # bs))))))
      | _ \<Rightarrow> b64_corrupt)"
| "b64_groups _ = b64_corrupt"

definition b64_decode :: "string \<Rightarrow> bytes result" where
  "b64_decode s = b64_groups (filter (\<lambda>c. c \<noteq> CHR 0x0A \<and> c \<noteq> CHR 0x0D) s)"

lemma b64_encode_alphabet:
  "c \<in> set (b64_encode bs) \<Longrightarrow> c \<noteq> CHR '':'' \<and> c \<noteq> CHR 0x0A \<and> c \<noteq> CHR 0x0D \<and> c \<noteq> CHR 0x22"
proof (induction bs rule: b64_encode.induct)
  case (2 a)
  have "byte_val a div 4 < 64" "byte_val a mod 4 * 16 < 64"
    using byte_val_less [of a] by linarith+
  with 2 show ?case by (auto simp: Let_def)
next
  case (3 a b)
  have "byte_val a div 4 < 64" "byte_val a mod 4 * 16 + byte_val b div 16 < 64"
    "byte_val b mod 16 * 4 < 64"
    using byte_val_less [of a] byte_val_less [of b] by linarith+
  with 3 show ?case by (auto simp: Let_def)
next
  case (4 a b c bs)
  have "byte_val a div 4 < 64" "byte_val a mod 4 * 16 + byte_val b div 16 < 64"
    "byte_val b mod 16 * 4 + byte_val c div 64 < 64" "byte_val c mod 64 < 64"
    using byte_val_less [of a] byte_val_less [of b] byte_val_less [of c] by linarith+
  with 4 show ?case by (auto simp: Let_def)
qed simp

lemma b64_group_bytes:
  fixes x y z :: nat
  assumes "x < 256" "y < 256" "z < 256"
  shows "x div 4 * 4 + (x mod 4 * 16 + y div 16) div 16 = x"
    and "(x mod 4 * 16 + y div 16) mod 16 * 16 + (y mod 16 * 4 + z div 64) div 4 = y"
    and "(y mod 16 * 4 + z div 64) mod 4 * 64 + z mod 64 = z"
proof -
  have q: "y div 16 < 16" "z div 64 < 4" using assms by linarith+
  have a: "(x mod 4 * 16 + y div 16) div 16 = x mod 4"
    "(x mod 4 * 16 + y div 16) mod 16 = y div 16"
    "(y mod 16 * 4 + z div 64) div 4 = y mod 16"
    "(y mod 16 * 4 + z div 64) mod 4 = z div 64"
    using q by simp_all
  show "x div 4 * 4 + (x mod 4 * 16 + y div 16) div 16 = x"
    by (simp only: a div_mult_mod_eq)
  show "(x mod 4 * 16 + y div 16) mod 16 * 16 + (y mod 16 * 4 + z div 64) div 4 = y"
    by (simp only: a div_mult_mod_eq)
  show "(y mod 16 * 4 + z div 64) mod 4 * 64 + z mod 64 = z"
    by (simp only: a div_mult_mod_eq)
qed

lemma b64_groups_encode: "b64_groups (b64_encode bs) = Inr bs"
proof (induction bs rule: b64_encode.induct)
  case (2 a)
  have b: "byte_val a div 4 < 64" "byte_val a mod 4 * 16 < 64"
    using byte_val_less [of a] by linarith+
  have "byte_of (byte_val a div 4 * 4 + byte_val a mod 4 * 16 div 16) = a"
    using b64_group_bytes(1) [of "byte_val a" 0 0] by simp
  with b show ?case by (simp add: Let_def)
next
  case (3 a b)
  have bd: "byte_val a div 4 < 64" "byte_val a mod 4 * 16 + byte_val b div 16 < 64"
    "byte_val b mod 16 * 4 < 64"
    using byte_val_less [of a] byte_val_less [of b] by linarith+
  have "byte_of (byte_val a div 4 * 4 + (byte_val a mod 4 * 16 + byte_val b div 16) div 16) = a"
    "byte_of ((byte_val a mod 4 * 16 + byte_val b div 16) mod 16 * 16 + byte_val b mod 16 * 4 div 4) = b"
    using b64_group_bytes(1,2) [of "byte_val a" "byte_val b" 0] by simp_all
  with bd show ?case by (simp add: Let_def)
next
  case (4 a b c bs)
  have bd: "byte_val a div 4 < 64" "byte_val a mod 4 * 16 + byte_val b div 16 < 64"
    "byte_val b mod 16 * 4 + byte_val c div 64 < 64" "byte_val c mod 64 < 64"
    using byte_val_less [of a] byte_val_less [of b] byte_val_less [of c] by linarith+
  have "byte_of (byte_val a div 4 * 4 + (byte_val a mod 4 * 16 + byte_val b div 16) div 16) = a"
    "byte_of ((byte_val a mod 4 * 16 + byte_val b div 16) mod 16 * 16
       + (byte_val b mod 16 * 4 + byte_val c div 64) div 4) = b"
    "byte_of ((byte_val b mod 16 * 4 + byte_val c div 64) mod 4 * 64 + byte_val c mod 64) = c"
    using b64_group_bytes [of "byte_val a" "byte_val b" "byte_val c"] by simp_all
  with bd 4 show ?case by (simp add: Let_def)
qed simp

lemma b64_decode_encode [simp]: "b64_decode (b64_encode bs) = Inr bs"
proof -
  have "filter (\<lambda>c. c \<noteq> CHR 0x0A \<and> c \<noteq> CHR 0x0D) (b64_encode bs) = b64_encode bs"
    using b64_encode_alphabet [of _ bs] by (auto simp: filter_id_conv)
  then show ?thesis by (simp add: b64_decode_def b64_groups_encode)
qed

subsection \<open>Big-endian integers and readers\<close>

fun be_bytes :: "nat \<Rightarrow> nat \<Rightarrow> bytes" where
  "be_bytes 0 n = []"
| "be_bytes (Suc k) n = be_bytes k (n div 256) @ [byte_of (n mod 256)]"

definition be_val :: "bytes \<Rightarrow> nat" where
  "be_val bs = foldl (\<lambda>a b. a * 256 + byte_val b) 0 bs"

lemma length_be_bytes [simp]: "length (be_bytes k n) = k"
  by (induction k n rule: be_bytes.induct) auto

lemma be_val_be_bytes [simp]: "be_val (be_bytes k n) = n mod 256 ^ k"
proof (induction k n rule: be_bytes.induct)
  case (2 k n)
  have "n mod (256 * 256 ^ k) = 256 * (n div 256 mod 256 ^ k) + n mod 256"
    by (rule mod_mult2_eq)
  with 2 show ?case by (simp add: be_val_def mult.commute)
qed (simp add: be_val_def)

lemma be_val_less: "be_val bs < 256 ^ length bs"
proof (induction bs rule: rev_induct)
  case (snoc b bs)
  have "be_val (bs @ [b]) = be_val bs * 256 + byte_val b" by (simp add: be_val_def)
  also have "\<dots> < (be_val bs + 1) * 256" using byte_val_less [of b] by simp
  also have "\<dots> \<le> 256 ^ length bs * 256" using snoc by (intro mult_right_mono) auto
  finally show ?case by simp
qed (simp add: be_val_def)

text \<open>
  A \<^verbatim>\<open>bytes.Reader\<close> is the bytes it has left. \<^verbatim>\<open>binary.Read\<close> fills its argument completely or
  fails (\<open>read_full\<close>, \<^verbatim>\<open>io.ReadFull\<close>); a bare \<^verbatim>\<open>Read\<close> into a zeroed array of \<open>n\<close> bytes
  (\<open>read_array\<close>) succeeds as soon as one byte is left and leaves the rest of the array zero.
\<close>

definition read_full :: "nat \<Rightarrow> bytes \<Rightarrow> (bytes \<times> bytes) result" where
  "read_full n rs =
     (if n = 0 then Inr ([], rs)
      else if rs = [] then Inl (Sentinel IoEOF)
      else if length rs < n then Inl (Sentinel IoUnexpectedEOF)
      else Inr (take n rs, drop n rs))"

definition read_array :: "nat \<Rightarrow> bytes \<Rightarrow> (bytes \<times> bytes) result" where
  "read_array n rs = (if rs = [] then Inl (Sentinel IoEOF) else Inr (to_array n rs, drop n rs))"

lemma read_full_append [go_simps]: "length a = n \<Longrightarrow> read_full n (a @ b) = Inr (a, b)"
  by (auto simp: read_full_def)

lemma read_full_exact [go_simps]: "length a = n \<Longrightarrow> read_full n a = Inr (a, [])"
  using read_full_append [of a n "[]"] by simp

lemma read_full_ok_iff:
  "read_full n rs = Inr (a, b) \<longleftrightarrow> n \<le> length rs \<and> a = take n rs \<and> b = drop n rs"
  by (auto simp: read_full_def)

lemma read_array_append [go_simps]: "length a = n \<Longrightarrow> 0 < n \<Longrightarrow> read_array n (a @ b) = Inr (a, b)"
  by (auto simp: read_array_def to_array_def)

lemma read_array_exact [go_simps]: "length a = n \<Longrightarrow> 0 < n \<Longrightarrow> read_array n a = Inr (a, [])"
  using read_array_append [of a n "[]"] by simp

subsection \<open>Instants and durations\<close>

text \<open>
  A \<^verbatim>\<open>time.Time\<close> is a count of seconds since year 1 (an \<^verbatim>\<open>int64\<close>) and nanoseconds; a
  \<^verbatim>\<open>time.Duration\<close> is an \<^verbatim>\<open>int64\<close> of nanoseconds. \<^verbatim>\<open>time.Unix\<close> adds the offset of 1970 with
  wrap-around, \<^verbatim>\<open>Add\<close> saturates.
\<close>

type_synonym time = "int \<times> int"

definition unix_to_internal :: int where
  "unix_to_internal = 62135596800"

definition time_Unix :: "int \<Rightarrow> int \<Rightarrow> time" where
  "time_Unix s n = (wrap64 (wrap64 (s + n div 1000000000) + unix_to_internal), n mod 1000000000)"

definition time_unix :: "time \<Rightarrow> int" where
  "time_unix t = wrap64 (fst t - unix_to_internal)"

definition time_before :: "time \<Rightarrow> time \<Rightarrow> bool" where
  "time_before t u \<longleftrightarrow> fst t < fst u \<or> (fst t = fst u \<and> snd t < snd u)"

definition sat_add :: "int \<Rightarrow> int \<Rightarrow> int" where
  "sat_add a d = (let s = wrap64 (a + d) in
     if (a < s) = (0 < d) then s else if 0 < d then 2 ^ 63 - 1 else - (2 ^ 63 - 1))"

definition time_add :: "time \<Rightarrow> int \<Rightarrow> time" where
  "time_add t d = (sat_add (fst t) ((snd t + d) div 1000000000), (snd t + d) mod 1000000000)"

definition seconds :: "int \<Rightarrow> int" where
  "seconds n = wrap64 (n * 1000000000)"

definition unix_nano :: "time \<Rightarrow> int" where
  "unix_nano t = wrap64 (wrap64 (fst t - unix_to_internal) * 1000000000 + snd t)"

text \<open>Seconds that can be shifted between the two epochs without wrapping.\<close>

definition unix_range :: "int \<Rightarrow> bool" where
  "unix_range s \<longleftrightarrow> - (2 ^ 63) \<le> s \<and> s \<le> 2 ^ 63 - 1 - unix_to_internal"

lemma time_Unix_range [go_simps]: "unix_range s \<Longrightarrow> time_Unix s 0 = (s + unix_to_internal, 0)"
  by (simp add: time_Unix_def unix_range_def wrap64_id in_int64_def unix_to_internal_def)

lemma time_unix_Unix [go_simps]: "unix_range s \<Longrightarrow> time_unix (time_Unix s 0) = s"
  by (simp add: time_Unix_range time_unix_def wrap64_id in_int64_def unix_range_def unix_to_internal_def)

lemma time_before_irrefl [simp]: "\<not> time_before t t"
  by (simp add: time_before_def)

lemma time_before_trans: "time_before a b \<Longrightarrow> time_before b c \<Longrightarrow> time_before a c"
  by (auto simp: time_before_def)

lemma time_before_le_trans: "time_before a b \<Longrightarrow> \<not> time_before c b \<Longrightarrow> time_before a c"
  by (auto simp: time_before_def)

lemma time_not_before_trans: "\<not> time_before a b \<Longrightarrow> \<not> time_before b c \<Longrightarrow> \<not> time_before a c"
  by (auto simp: time_before_def)

lemma time_before_linear: "time_before a b \<or> a = b \<or> time_before b a"
  by (cases a; cases b) (auto simp: time_before_def)

end
