(* ===== verification/Http_Model.thy ===== *)
theory Http_Model
  imports Go_Encoding
begin

text \<open>
  The part of package \<^verbatim>\<open>net/http\<close> the program uses: header maps with canonical keys
  (\<^verbatim>\<open>Header.Get\<close>, \<^verbatim>\<open>Set\<close>, \<^verbatim>\<open>Add\<close>), requests, and responses as what a handler writes.
\<close>

type_synonym http_header = "string \<rightharpoonup> string list"

text \<open>\<^verbatim>\<open>textproto.CanonicalMIMEHeaderKey\<close>: upper case after a hyphen, lower case elsewhere; a key
  with a byte that is not a token byte is left alone.\<close>

definition upper_char :: "char \<Rightarrow> char" where
  "upper_char c = (let n = byte_val c in if 97 \<le> n \<and> n \<le> 122 then byte_of (n - 32) else c)"

definition is_token_char :: "char \<Rightarrow> bool" where
  "is_token_char c = (let n = byte_val c in
     (48 \<le> n \<and> n \<le> 57) \<or> (65 \<le> n \<and> n \<le> 90) \<or> (97 \<le> n \<and> n \<le> 122) \<or>
     c \<in> set ''!#$%&*+-.^_|~'' \<or> n = 39 \<or> n = 96)"

fun canon :: "bool \<Rightarrow> string \<Rightarrow> string" where
  "canon up [] = []"
| "canon up (c # cs) = (if up then upper_char c else lower_char c) # canon (c = CHR ''-'') cs"

definition canonical_key :: "string \<Rightarrow> string" where
  "canonical_key k = (if list_all is_token_char k then canon True k else k)"

definition header_Get :: "http_header \<Rightarrow> string \<Rightarrow> string" where
  "header_Get h k = (case h (canonical_key k) of Some (v # vs) \<Rightarrow> v | _ \<Rightarrow> [])"

definition header_Set :: "http_header \<Rightarrow> string \<Rightarrow> string \<Rightarrow> http_header" where
  "header_Set h k v = h(canonical_key k \<mapsto> [v])"

definition header_Add :: "http_header \<Rightarrow> string \<Rightarrow> string \<Rightarrow> http_header" where
  "header_Add h k v =
     h(canonical_key k \<mapsto> (case h (canonical_key k) of None \<Rightarrow> [] | Some vs \<Rightarrow> vs) @ [v])"

lemma header_Get_Set [simp]: "header_Get (header_Set h k v) k = v"
  by (simp add: header_Get_def header_Set_def)

lemma header_Get_Set_other:
  "canonical_key j \<noteq> canonical_key k \<Longrightarrow> header_Get (header_Set h k v) j = header_Get h j"
  by (simp add: header_Get_def header_Set_def)

lemma header_Get_Add:
  "header_Get (header_Add h k v) k = (if h (canonical_key k) \<in> {None, Some []} then v else header_Get h k)"
  by (auto simp: header_Get_def header_Add_def split: option.splits list.splits)

lemma header_Get_Add_other:
  "canonical_key j \<noteq> canonical_key k \<Longrightarrow> header_Get (header_Add h k v) j = header_Get h j"
  by (simp add: header_Get_def header_Add_def)

subsection \<open>Requests and responses\<close>

record http_request =
  req_Method :: string
  req_Host :: string
  req_Path :: string
  req_Scheme :: string
  req_URLHost :: string
  req_RemoteAddr :: string
  req_Header :: http_header

text \<open>What a handler has written: the status, the header map and the body.\<close>

record http_response =
  resp_Status :: nat
  resp_Header :: http_header
  resp_Body :: string

end
