(* ===== verification/Macaroon_Lib.thy ===== *)
theory Macaroon_Lib
  imports Go_Encoding
begin

text \<open>
  The macaroon library \<^verbatim>\<open>gopkg.in/macaroon.v2\<close> is not part of the repository, so it is a
  parameter: a record of the functions the code calls. The definitions of the components take
  this record as an argument. \<open>macaroon_lib\<close> collects what the library documents:
  \<^item> \<^verbatim>\<open>New\<close> makes a macaroon with the given identifier and no caveats;
  \<^item> \<^verbatim>\<open>AddFirstPartyCaveat\<close> appends one caveat and keeps the identifier;
  \<^item> \<^verbatim>\<open>VerifySignature\<close> with the root key a macaroon was made with succeeds and returns its
    caveats in order;
  \<^item> \<^verbatim>\<open>UnmarshalBinary\<close> reads back what \<^verbatim>\<open>MarshalBinary\<close> wrote.
  \<open>sample_macaroon_ops\<close> is an instance on which all of it holds, so the hypothesis is
  satisfiable; no theorem of a component is about that instance except as a witness.
\<close>

record 'm macaroon_ops =
  mac_New :: "bytes \<Rightarrow> bytes \<Rightarrow> string \<Rightarrow> 'm result"
  mac_Id :: "'m \<Rightarrow> bytes"
  mac_Caveats :: "'m \<Rightarrow> bytes list"
  mac_AddFirstPartyCaveat :: "'m \<Rightarrow> bytes \<Rightarrow> 'm result"
  mac_VerifySignature :: "'m \<Rightarrow> bytes \<Rightarrow> string list result"
  mac_MarshalBinary :: "'m \<Rightarrow> bytes result"
  mac_UnmarshalBinary :: "bytes \<Rightarrow> 'm result"

text \<open>The macaroons made with root key \<open>k\<close>: by \<^verbatim>\<open>New\<close>, then any number of caveats.\<close>

inductive baked :: "'m macaroon_ops \<Rightarrow> bytes \<Rightarrow> 'm \<Rightarrow> bool" for ops k where
  baked_new: "mac_New ops k i l = Inr m \<Longrightarrow> baked ops k m"
| baked_add: "baked ops k m \<Longrightarrow> mac_AddFirstPartyCaveat ops m c = Inr m' \<Longrightarrow> baked ops k m'"

definition macaroon_lib :: "'m macaroon_ops \<Rightarrow> bool" where
  "macaroon_lib ops \<longleftrightarrow>
     (\<forall>k i l m. mac_New ops k i l = Inr m \<longrightarrow> mac_Id ops m = i \<and> mac_Caveats ops m = []) \<and>
     (\<forall>m c m'. mac_AddFirstPartyCaveat ops m c = Inr m' \<longrightarrow>
        mac_Id ops m' = mac_Id ops m \<and> mac_Caveats ops m' = mac_Caveats ops m @ [c]) \<and>
     (\<forall>k m. baked ops k m \<longrightarrow> mac_VerifySignature ops m k = Inr (mac_Caveats ops m)) \<and>
     (\<forall>m b. mac_MarshalBinary ops m = Inr b \<longrightarrow> mac_UnmarshalBinary ops b = Inr m)"

lemma macaroon_lib_New:
  "macaroon_lib ops \<Longrightarrow> mac_New ops k i l = Inr m \<Longrightarrow> mac_Id ops m = i \<and> mac_Caveats ops m = []"
  by (simp add: macaroon_lib_def)

lemma macaroon_lib_Add:
  "macaroon_lib ops \<Longrightarrow> mac_AddFirstPartyCaveat ops m c = Inr m' \<Longrightarrow>
     mac_Id ops m' = mac_Id ops m \<and> mac_Caveats ops m' = mac_Caveats ops m @ [c]"
  by (simp add: macaroon_lib_def)

lemma macaroon_lib_Verify:
  "macaroon_lib ops \<Longrightarrow> baked ops k m \<Longrightarrow> mac_VerifySignature ops m k = Inr (mac_Caveats ops m)"
  by (simp add: macaroon_lib_def)

lemma macaroon_lib_Marshal:
  "macaroon_lib ops \<Longrightarrow> mac_MarshalBinary ops m = Inr b \<Longrightarrow> mac_UnmarshalBinary ops b = Inr m"
  by (simp add: macaroon_lib_def)

subsection \<open>The hypothesis is satisfiable\<close>

text \<open>A macaroon as the list of its root key, identifier and caveats, written as hex fields.\<close>

definition sample_macaroon_ops :: "bytes list macaroon_ops" where
  "sample_macaroon_ops = \<lparr>
     mac_New = (\<lambda>k i l. Inr [k, i]),
     mac_Id = (\<lambda>m. if length m < 2 then [] else m ! 1),
     mac_Caveats = drop 2,
     mac_AddFirstPartyCaveat = (\<lambda>m c. if length m < 2 then Inl (External ''add'') else Inr (m @ [c])),
     mac_VerifySignature = (\<lambda>m k. if 2 \<le> length m \<and> hd m = k then Inr (drop 2 m)
                                  else Inl (External ''verification failed'')),
     mac_MarshalBinary = (\<lambda>m. if m = [] then Inl (External ''marshal'')
                              else Inr (join_with (CHR '','') (map hex_encode m))),
     mac_UnmarshalBinary = (\<lambda>b. rmap hex_decode (split_on (CHR '','') b)) \<rparr>"

lemma comma_not_hex [simp]: "CHR '','' \<notin> set (hex_encode bs)"
  using hex_encode_alphabet [of "CHR '',''" bs] by (auto simp: is_lower_hex_def byte_val_def)

lemma sample_marshal_roundtrip:
  "m \<noteq> [] \<Longrightarrow> rmap hex_decode (split_on (CHR '','') (join_with (CHR '','') (map hex_encode m))) = Inr m"
  by (subst split_on_join) (auto simp: rmap_all_ok [where g = "\<lambda>x. x"] rmap_Inr_iff list_all2_conv_all_nth)

lemma sample_baked: "baked sample_macaroon_ops k m \<Longrightarrow> 2 \<le> length m \<and> hd m = k"
  by (induction rule: baked.induct) (auto simp: sample_macaroon_ops_def hd_append split: if_splits)

lemma sample_macaroon_lib: "macaroon_lib sample_macaroon_ops"
  unfolding macaroon_lib_def
proof (intro conjI allI impI)
  fix m c m' assume "mac_AddFirstPartyCaveat sample_macaroon_ops m c = Inr m'"
  then have m': "m' = m @ [c]" and l: "2 \<le> length m"
    by (simp_all add: sample_macaroon_ops_def split: if_splits)
  from m' l show "mac_Id sample_macaroon_ops m' = mac_Id sample_macaroon_ops m"
    by (auto simp: sample_macaroon_ops_def nth_append)
  from m' l show "mac_Caveats sample_macaroon_ops m' = mac_Caveats sample_macaroon_ops m @ [c]"
    by (simp add: sample_macaroon_ops_def)
next
  fix k m assume "baked sample_macaroon_ops k m"
  from sample_baked [OF this]
  show "mac_VerifySignature sample_macaroon_ops m k = Inr (mac_Caveats sample_macaroon_ops m)"
    by (simp add: sample_macaroon_ops_def)
next
  fix m b assume "mac_MarshalBinary sample_macaroon_ops m = Inr b"
  then have "m \<noteq> []" "b = join_with (CHR '','') (map hex_encode m)"
    by (simp_all add: sample_macaroon_ops_def split: if_splits)
  with sample_marshal_roundtrip [of m] show "mac_UnmarshalBinary sample_macaroon_ops b = Inr m"
    by (simp add: sample_macaroon_ops_def)
qed (auto simp: sample_macaroon_ops_def)

end
