(* ===== verification/Lsat_Caveat.thy ===== *)
theory Lsat_Caveat
  imports Macaroon_Lib
begin

text \<open>
  \<^verbatim>\<open>aperture/lsat/caveat.go\<close>: caveats, their text form, the caveats of a macaroon, and the
  evaluation of a list of caveats against a list of satisfiers. The main results are the
  round trip of the text form, that \<^verbatim>\<open>HasCaveat\<close> reads the most recent value, and an exact
  description of when \<^verbatim>\<open>VerifyCaveats\<close> succeeds that does not depend on the order in which
  Go iterates over its map.
\<close>

record Caveat =
  Condition :: string
  Value :: string

record Satisfier =
  SatCondition :: string
  SatisfyPrevious :: "Caveat \<Rightarrow> Caveat \<Rightarrow> unit result"
  SatisfyFinal :: "Caveat \<Rightarrow> unit result"

definition PreimageKey :: string where
  "PreimageKey = ''preimage''"

definition NewCaveat :: "string \<Rightarrow> string \<Rightarrow> Caveat" where
  "NewCaveat condition v = \<lparr>Condition = condition, Value = v\<rparr>"

definition EncodeCaveat :: "Caveat \<Rightarrow> string" where
  "EncodeCaveat c = Condition c @ [CHR ''=''] @ Value c"

definition DecodeCaveat :: "string \<Rightarrow> Caveat result" where
  "DecodeCaveat s =
     (case split_n2 (CHR ''='') s of
        [p, q] \<Rightarrow> Inr \<lparr>Condition = p, Value = q\<rparr>
      | _ \<Rightarrow> Inl (Sentinel ErrInvalidCaveat))"

fun AddFirstPartyCaveats :: "'m macaroon_ops \<Rightarrow> 'm \<Rightarrow> Caveat list \<Rightarrow> 'm result" where
  "AddFirstPartyCaveats ops m [] = Inr m"
| "AddFirstPartyCaveats ops m (c # cs) =
     rbind (mac_AddFirstPartyCaveat ops m (EncodeCaveat c)) (\<lambda>m'. AddFirstPartyCaveats ops m' cs)"

text \<open>The loop of \<^verbatim>\<open>HasCaveat\<close>: the variable \<^verbatim>\<open>value\<close> is overwritten by every match.\<close>

fun hasCaveat_loop :: "string \<Rightarrow> string option \<Rightarrow> bytes list \<Rightarrow> string option" where
  "hasCaveat_loop cond v [] = v"
| "hasCaveat_loop cond v (raw # raws) =
     (case DecodeCaveat raw of
        Inl _ \<Rightarrow> hasCaveat_loop cond v raws
      | Inr c \<Rightarrow> hasCaveat_loop cond (if Condition c = cond then Some (Value c) else v) raws)"

definition HasCaveat :: "'m macaroon_ops \<Rightarrow> 'm \<Rightarrow> string \<Rightarrow> string option" where
  "HasCaveat ops m cond = hasCaveat_loop cond None (mac_Caveats ops m)"

subsection \<open>VerifyCaveats\<close>

definition caveatSatisfiers :: "Satisfier list \<Rightarrow> (string \<rightharpoonup> Satisfier)" where
  "caveatSatisfiers sats = foldl (\<lambda>m s. m(SatCondition s \<mapsto> s)) Map.empty sats"

definition relevantCaveats :: "(string \<rightharpoonup> Satisfier) \<Rightarrow> Caveat list \<Rightarrow> (string \<rightharpoonup> Caveat list)" where
  "relevantCaveats sats cs =
     foldl (\<lambda>m c. case sats (Condition c) of
                    None \<Rightarrow> m
                  | Some _ \<Rightarrow> m(Condition c \<mapsto>
                      (case m (Condition c) of None \<Rightarrow> [] | Some l \<Rightarrow> l) @ [c])) Map.empty cs"

text \<open>The keys of that map, in the order of their first insertion.\<close>

definition relevantConds :: "(string \<rightharpoonup> Satisfier) \<Rightarrow> Caveat list \<Rightarrow> string list" where
  "relevantConds sats cs = remdups (filter (\<lambda>k. sats k \<noteq> None) (map Condition cs))"

fun satisfyChain :: "Satisfier \<Rightarrow> Caveat list \<Rightarrow> unit result" where
  "satisfyChain s (p # c # cs) = rbind (SatisfyPrevious s p c) (\<lambda>_. satisfyChain s (c # cs))"
| "satisfyChain s _ = Inr ()"

text \<open>
  Go iterates over a map in no particular order: \<open>range_order\<close> is the order of this run,
  applied to the keys. The branch for a missing key is never taken.
\<close>

definition VerifyCaveats ::
    "(string list \<Rightarrow> string list) \<Rightarrow> Caveat list \<Rightarrow> Satisfier list \<Rightarrow> unit result" where
  "VerifyCaveats range_order cs sats =
     (let satmap = caveatSatisfiers sats; rel = relevantCaveats satmap cs
      in rcheck (\<lambda>cond. case (satmap cond, rel cond) of
                   (Some s, Some l) \<Rightarrow> rbind (satisfyChain s l) (\<lambda>_. SatisfyFinal s (last l))
                 | _ \<Rightarrow> Inr ())
           (range_order (relevantConds satmap cs)))"

subsection \<open>Properties\<close>

lemma DecodeCaveat_ok_iff [result_simps]:
  "DecodeCaveat s = Inr c \<longleftrightarrow> s = Condition c @ CHR ''='' # Value c \<and> CHR ''='' \<notin> set (Condition c)"
proof -
  have "DecodeCaveat s = Inr c \<longleftrightarrow> split_n2 (CHR ''='') s = [Condition c, Value c]"
    by (cases c) (auto simp: DecodeCaveat_def split: list.splits)
  then show ?thesis by (simp add: split_n2_eq_pair)
qed

lemma Decode_EncodeCaveat:
  "CHR ''='' \<notin> set (Condition c) \<Longrightarrow> DecodeCaveat (EncodeCaveat c) = Inr c"
  by (simp add: DecodeCaveat_ok_iff EncodeCaveat_def)

lemma DecodeCaveat_error: "DecodeCaveat s = Inl e \<longleftrightarrow> CHR ''='' \<notin> set s \<and> e = Sentinel ErrInvalidCaveat"
proof (cases "CHR ''='' \<in> set s")
  case True
  then obtain a b where "s = a @ CHR ''='' # b" "CHR ''='' \<notin> set a" by (meson split_list_first)
  then have "DecodeCaveat s = Inr \<lparr>Condition = a, Value = b\<rparr>" by (simp add: DecodeCaveat_ok_iff)
  with True show ?thesis by simp
next
  case False
  then show ?thesis by (auto simp: DecodeCaveat_def split_n2_clean)
qed

lemma hasCaveat_loop_append:
  "hasCaveat_loop cond v (xs @ ys) = hasCaveat_loop cond (hasCaveat_loop cond v xs) ys"
  by (induction xs arbitrary: v) (auto split: sum.splits)

lemma AddFirstPartyCaveats_effect:
  assumes "macaroon_lib ops" and "AddFirstPartyCaveats ops m cs = Inr m'"
  shows "mac_Id ops m' = mac_Id ops m \<and> mac_Caveats ops m' = mac_Caveats ops m @ map EncodeCaveat cs"
  using assms(2)
proof (induction cs arbitrary: m)
  case (Cons c cs)
  then obtain n where "mac_AddFirstPartyCaveat ops m (EncodeCaveat c) = Inr n"
    and "AddFirstPartyCaveats ops n cs = Inr m'"
    by (auto simp: rbind_eq_Inr)
  with Cons.IH [of n] macaroon_lib_Add [OF assms(1)] show ?case by auto
qed simp

lemma AddFirstPartyCaveats_baked:
  "baked ops k m \<Longrightarrow> AddFirstPartyCaveats ops m cs = Inr m' \<Longrightarrow> baked ops k m'"
proof (induction cs arbitrary: m)
  case (Cons c cs)
  then show ?case by (auto simp: rbind_eq_Inr intro: baked_add)
qed simp

lemma HasCaveat_added:
  assumes "macaroon_lib ops" and "AddFirstPartyCaveats ops m [c] = Inr m'"
    and "CHR ''='' \<notin> set (Condition c)"
  shows "HasCaveat ops m' (Condition c) = Some (Value c)"
    and "cond \<noteq> Condition c \<Longrightarrow> HasCaveat ops m' cond = HasCaveat ops m cond"
  using AddFirstPartyCaveats_effect [OF assms(1,2)]
  by (simp_all add: HasCaveat_def hasCaveat_loop_append Decode_EncodeCaveat [OF assms(3)])

lemma relevantCaveats_snoc:
  "relevantCaveats sats (cs @ [c]) =
     (case sats (Condition c) of None \<Rightarrow> relevantCaveats sats cs
      | Some _ \<Rightarrow> (relevantCaveats sats cs)(Condition c \<mapsto>
          (case relevantCaveats sats cs (Condition c) of None \<Rightarrow> [] | Some l \<Rightarrow> l) @ [c]))"
  by (cases "sats (Condition c)") (simp_all add: relevantCaveats_def)

lemma relevantCaveats_filter:
  "relevantCaveats sats cs cond =
     (let l = filter (\<lambda>c. Condition c = cond) cs in if sats cond = None \<or> l = [] then None else Some l)"
proof (induction cs rule: rev_induct)
  case Nil
  then show ?case by (simp add: relevantCaveats_def)
next
  case (snoc c cs)
  then show ?case
    by (cases "sats (Condition c)"; cases "cond = Condition c")
      (auto simp: relevantCaveats_snoc Let_def split: option.splits if_splits)
qed

lemma satisfyChain_ok_iff:
  "satisfyChain s l = Inr u \<longleftrightarrow>
     (\<forall>i. Suc i < length l \<longrightarrow> SatisfyPrevious s (l ! i) (l ! Suc i) = Inr ())"
proof (induction s l rule: satisfyChain.induct)
  case (1 s p c cs)
  have "(\<forall>i. Suc i < length (p # c # cs) \<longrightarrow>
            SatisfyPrevious s ((p # c # cs) ! i) ((p # c # cs) ! Suc i) = Inr ()) \<longleftrightarrow>
        SatisfyPrevious s p c = Inr () \<and>
        (\<forall>i. Suc i < length (c # cs) \<longrightarrow>
            SatisfyPrevious s ((c # cs) ! i) ((c # cs) ! Suc i) = Inr ())"
    by (subst all_nat_0_Suc) simp
  with 1 show ?case by (auto simp: rbind_eq_Inr)
qed auto

text \<open>What \<^verbatim>\<open>VerifyCaveats\<close> promises of one condition.\<close>

definition condition_holds :: "Satisfier \<Rightarrow> Caveat list \<Rightarrow> bool" where
  "condition_holds s l \<longleftrightarrow>
     (\<forall>i. Suc i < length l \<longrightarrow> SatisfyPrevious s (l ! i) (l ! Suc i) = Inr ()) \<and>
     SatisfyFinal s (last l) = Inr ()"

lemma VerifyCaveats_ok:
  assumes "\<And>ks. set (range_order ks) = set ks"
  shows "VerifyCaveats range_order cs sats = Inr () \<longleftrightarrow>
     (\<forall>cond s. caveatSatisfiers sats cond = Some s \<longrightarrow>
        (let l = filter (\<lambda>c. Condition c = cond) cs in l \<noteq> [] \<longrightarrow> condition_holds s l))"
proof -
  let ?sm = "caveatSatisfiers sats"
  have keys: "set (relevantConds ?sm cs) = {k. ?sm k \<noteq> None \<and> filter (\<lambda>c. Condition c = k) cs \<noteq> []}"
    by (auto simp: relevantConds_def filter_empty_conv)
  show ?thesis
    by (auto simp: VerifyCaveats_def Let_def rcheck_ok_iff assms keys relevantCaveats_filter
        rbind_eq_Inr satisfyChain_ok_iff condition_holds_def split: option.splits)
qed

end
