(* ===== verification/Lsat_Header.thy ===== *)
theory Lsat_Header
  imports Http_Model Lsat_Caveat
begin

text \<open>
  \<^verbatim>\<open>aperture/lsat/header.go\<close>: reading an L402 (macaroon and preimage) from the three header
  fields, and writing it in the standard one.

  lnd's package \<^verbatim>\<open>lntypes\<close> is a parameter: the hexadecimal form of preimages, their hash, and
  the check of a hash's length. \<open>lntypes_lib\<close> is what it documents.
\<close>

record lntypes_ops =
  lnt_MakePreimageFromStr :: "string \<Rightarrow> bytes result"
  lnt_PreimageString :: "bytes \<Rightarrow> string"
  lnt_PreimageHash :: "bytes \<Rightarrow> bytes"
  lnt_MakeHash :: "bytes \<Rightarrow> bytes result"

definition lntypes_lib :: "lntypes_ops \<Rightarrow> bool" where
  "lntypes_lib lt \<longleftrightarrow>
     (\<forall>p. lnt_PreimageString lt p = hex_encode p) \<and>
     (\<forall>p. length p = 32 \<longrightarrow> lnt_MakePreimageFromStr lt (hex_encode p) = Inr p) \<and>
     (\<forall>s p. lnt_MakePreimageFromStr lt s = Inr p \<longrightarrow> length p = 32) \<and>
     (\<forall>h. length h = 32 \<longrightarrow> lnt_MakeHash lt h = Inr h) \<and>
     (\<forall>b h. lnt_MakeHash lt b = Inr h \<longrightarrow> h = b \<and> length h = 32)"

definition HeaderAuthorization :: string where "HeaderAuthorization = ''Authorization''"
definition HeaderMacaroonMD :: string where "HeaderMacaroonMD = ''Grpc-Metadata-Macaroon''"
definition HeaderMacaroon :: string where "HeaderMacaroon = ''Macaroon''"

text \<open>
  The regular expression \<^verbatim>\<open>L402 (.*?):([a-f0-9]{64})\<close>, searched anywhere in the text: the
  leftmost start with a match, and there the shortest first group. The dot matches every byte
  but a line feed. Compared byte by byte, since the bytes of a multi-byte rune are never
  ASCII.
\<close>

fun authTail :: "string \<Rightarrow> (string \<times> string) option" where
  "authTail [] = None"
| "authTail (c # cs) =
     (if c = CHR '':'' \<and> 64 \<le> length cs \<and> list_all is_lower_hex (take 64 cs)
      then Some ([], take 64 cs)
      else if c = CHR 0x0A then None
      else map_option (\<lambda>(g, h). (c # g, h)) (authTail cs))"

fun authRegex :: "string \<Rightarrow> (string \<times> string) option" where
  "authRegex [] = None"
| "authRegex (c # cs) =
     (case (if has_prefix (c # cs) ''L402 '' then authTail (drop 5 (c # cs)) else None) of
        Some m \<Rightarrow> Some m
      | None \<Rightarrow> authRegex cs)"

definition FromHeader ::
    "'m macaroon_ops \<Rightarrow> lntypes_ops \<Rightarrow> http_header \<Rightarrow> ('m \<times> bytes) result" where
  "FromHeader mo lt header =
     (if header_Get header HeaderAuthorization \<noteq> [] then
        (case authRegex (header_Get header HeaderAuthorization) of
           None \<Rightarrow> Inl (Errorf ''invalid auth header format'')
         | Some (macBase64, preimageHex) \<Rightarrow>
             (case b64_decode macBase64 of
                Inl e \<Rightarrow> Inl (Errorf ''base64 decode of macaroon failed'')
              | Inr macBytes \<Rightarrow>
                  (case mac_UnmarshalBinary mo macBytes of
                     Inl e \<Rightarrow> Inl (Errorf ''unable to unmarshal macaroon'')
                   | Inr mac \<Rightarrow>
                       (case lnt_MakePreimageFromStr lt preimageHex of
                          Inl e \<Rightarrow> Inl (Errorf ''hex decode of preimage failed'')
                        | Inr preimage \<Rightarrow> Inr (mac, preimage)))))
      else
        (let authHeader = (if header_Get header HeaderMacaroonMD \<noteq> [] then header_Get header HeaderMacaroonMD
                           else header_Get header HeaderMacaroon)
         in if authHeader = [] then Inl (Errorf ''no auth header provided'')
            else (case hex_decode authHeader of
                    Inl e \<Rightarrow> Inl (Errorf ''hex decode of macaroon failed'')
                  | Inr macBytes \<Rightarrow>
                      (case mac_UnmarshalBinary mo macBytes of
                         Inl e \<Rightarrow> Inl (Errorf ''unable to unmarshal macaroon'')
                       | Inr mac \<Rightarrow>
                           (case HasCaveat mo mac PreimageKey of
                              None \<Rightarrow> Inl (Errorf ''preimage caveat not found'')
                            | Some preimageHex \<Rightarrow>
                                (case lnt_MakePreimageFromStr lt preimageHex of
                                   Inl e \<Rightarrow> Inl (Errorf ''hex decode of preimage failed'')
                                 | Inr preimage \<Rightarrow> Inr (mac, preimage)))))))"

text \<open>\<^verbatim>\<open>preimage\<close> is any \<^verbatim>\<open>fmt.Stringer\<close>; the argument is its text.\<close>

definition SetHeader :: "'m macaroon_ops \<Rightarrow> http_header \<Rightarrow> 'm \<Rightarrow> string \<Rightarrow> http_header result" where
  "SetHeader mo header mac preimageStr =
     rbind (mac_MarshalBinary mo mac) (\<lambda>macBytes.
       Inr (header_Set header HeaderAuthorization
              (''L402 '' @ b64_encode macBytes @ '':'' @ preimageStr)))"

subsection \<open>Properties\<close>

lemma lntypes_lib_simps:
  assumes "lntypes_lib lt"
  shows "lnt_PreimageString lt p = hex_encode p"
    and "length p = 32 \<Longrightarrow> lnt_MakePreimageFromStr lt (hex_encode p) = Inr p"
    and "length h = 32 \<Longrightarrow> lnt_MakeHash lt h = Inr h"
  using assms by (simp_all add: lntypes_lib_def)

lemma authTail_clean:
  assumes "\<And>c. c \<in> set g \<Longrightarrow> c \<noteq> CHR '':'' \<and> c \<noteq> CHR 0x0A"
    and "length h = 64" and "list_all is_lower_hex h"
  shows "authTail (g @ CHR '':'' # h @ r) = Some (g, h)"
  using assms(1)
proof (induction g)
  case Nil
  then show ?case using assms(2,3) by simp
next
  case (Cons c g)
  then show ?case by auto
qed

lemma authRegex_clean:
  assumes "\<And>c. c \<in> set g \<Longrightarrow> c \<noteq> CHR '':'' \<and> c \<noteq> CHR 0x0A"
    and "length h = 64" and "list_all is_lower_hex h"
  shows "authRegex (''L402 '' @ g @ '':'' @ h) = Some (g, h)"
proof -
  have "authTail (g @ CHR '':'' # h) = Some (g, h)"
    using authTail_clean [of g h "[]"] assms by simp
  then show ?thesis by (simp add: has_prefix_def)
qed

lemma authTail_groups:
  "authTail s = Some (g, h) \<Longrightarrow> length h = 64 \<and> list_all is_lower_hex h \<and> (\<exists>r. s = g @ CHR '':'' # h @ r)"
proof (induction s arbitrary: g)
  case (Cons c cs)
  show ?case
  proof (cases "c = CHR '':'' \<and> 64 \<le> length cs \<and> list_all is_lower_hex (take 64 cs)")
    case True
    with Cons.prems have "g = []" "h = take 64 cs" by auto
    with True have "c # cs = g @ CHR '':'' # h @ drop 64 cs" by simp
    with True \<open>h = take 64 cs\<close> show ?thesis by (auto intro: exI [of _ "drop 64 cs"])
  next
    case False
    with Cons.prems obtain g' where "authTail cs = Some (g', h)" "g = c # g'"
      by (auto split: if_splits)
    with Cons.IH [of g'] show ?thesis by auto
  qed
qed simp

lemma hex_encode_list_all: "list_all is_lower_hex (hex_encode p)"
  using hex_encode_alphabet [of _ p] by (auto simp: list_all_iff)

lemma FromHeader_SetHeader:
  assumes "macaroon_lib mo" and "lntypes_lib lt" and "length p = 32"
    and "SetHeader mo h m (lnt_PreimageString lt p) = Inr h'"
  shows "FromHeader mo lt h' = Inr (m, p)"
proof -
  from assms(4) obtain b where b: "mac_MarshalBinary mo m = Inr b"
    and h': "h' = header_Set h HeaderAuthorization (''L402 '' @ b64_encode b @ '':'' @ hex_encode p)"
    by (auto simp: SetHeader_def rbind_eq_Inr lntypes_lib_simps [OF assms(2)])
  have "authRegex (''L402 '' @ b64_encode b @ '':'' @ hex_encode p) = Some (b64_encode b, hex_encode p)"
    using b64_encode_alphabet [of _ b] assms(3) hex_encode_list_all by (intro authRegex_clean) auto
  then show ?thesis
    by (simp add: FromHeader_def h' macaroon_lib_Marshal [OF assms(1) b] lntypes_lib_simps [OF assms(2)] assms(3))
qed

text \<open>\<^verbatim>\<open>FromHeader\<close> succeeds only with a macaroon of the request and a preimage of 32 bytes.\<close>

lemma FromHeader_preimage_length:
  "lntypes_lib lt \<Longrightarrow> FromHeader mo lt h = Inr (m, p) \<Longrightarrow> length p = 32"
  by (auto simp: FromHeader_def lntypes_lib_def Let_def
      split: if_splits option.splits sum.splits prod.splits)

subsection \<open>An instance of the hypotheses\<close>

definition sample_lntypes_ops :: "(bytes \<Rightarrow> bytes) \<Rightarrow> lntypes_ops" where
  "sample_lntypes_ops hash = \<lparr>
     lnt_MakePreimageFromStr = (\<lambda>s. rbind (hex_decode s) (\<lambda>b.
        if length b = 32 then Inr b else Inl (External ''invalid preimage length''))),
     lnt_PreimageString = hex_encode,
     lnt_PreimageHash = hash,
     lnt_MakeHash = (\<lambda>b. if length b = 32 then Inr b else Inl (External ''invalid hash length'')) \<rparr>"

lemma sample_lntypes_lib: "lntypes_lib (sample_lntypes_ops hash)"
  by (auto simp: lntypes_lib_def sample_lntypes_ops_def rbind_eq_Inr split: if_splits)

end
