(* ===== verification/Lsat_Identifier.thy ===== *)
theory Lsat_Identifier
  imports Go_Encoding
begin

text \<open>
  \<^verbatim>\<open>aperture/lsat/identifier.go\<close>: the identifier of an L402 macaroon and its binary form,
  version 0 (two bytes of version, the payment hash, the token id), and the hexadecimal form of
  token ids. \<^verbatim>\<open>EncodeIdentifier\<close> appends to a writer, here the bytes written so far, and
  returns an error beside them.
\<close>

definition LatestVersion :: "16 word" where "LatestVersion = 0"
definition SecretSize :: nat where "SecretSize = 32"
definition TokenIDSize :: nat where "TokenIDSize = 32"
definition HashSize :: nat where "HashSize = 32"

lemmas size_defs [simp] = SecretSize_def TokenIDSize_def HashSize_def

record Identifier =
  Version :: "16 word"
  PaymentHash :: bytes
  TokenID :: bytes

text \<open>The Go types are arrays of fixed size.\<close>

definition wf_Identifier :: "Identifier \<Rightarrow> bool" where
  "wf_Identifier i \<longleftrightarrow> length (PaymentHash i) = HashSize \<and> length (TokenID i) = TokenIDSize"

definition TokenID_String :: "bytes \<Rightarrow> string" where
  "TokenID_String t = hex_encode t"

definition MakeIDFromString :: "string \<Rightarrow> bytes result" where
  "MakeIDFromString newID =
     (if length newID \<noteq> 2 * TokenIDSize then Inl (Errorf ''invalid id string length'')
      else rbind (hex_decode newID) (\<lambda>idBytes. Inr (to_array TokenIDSize idBytes)))"

definition EncodeIdentifier :: "bytes \<Rightarrow> Identifier \<Rightarrow> bytes \<times> unit result" where
  "EncodeIdentifier w i =
     (let w1 = w @ be_bytes 2 (unat (Version i))
      in if Version i = 0 then (w1 @ PaymentHash i @ TokenID i, Inr ())
         else (w1, Inl (Wrap ''unknown version'' (Sentinel ErrUnknownVersion))))"

definition DecodeIdentifier :: "bytes \<Rightarrow> Identifier result" where
  "DecodeIdentifier r =
     rbind (read_full 2 r) (\<lambda>(v, r1).
       let version = word_of_nat (be_val v)
       in if version = 0 then
            rbind (read_array HashSize r1) (\<lambda>(paymentHash, r2).
            rbind (read_array TokenIDSize r2) (\<lambda>(tokenID, r3).
              Inr \<lparr>Version = version, PaymentHash = paymentHash, TokenID = tokenID\<rparr>))
          else Inl (Wrap ''unknown version'' (Sentinel ErrUnknownVersion)))"

subsection \<open>Properties\<close>

lemma MakeIDFromString_String:
  "length t = TokenIDSize \<Longrightarrow> MakeIDFromString (TokenID_String t) = Inr t"
  by (simp add: MakeIDFromString_def TokenID_String_def)

lemma MakeIDFromString_length: "MakeIDFromString s = Inr t \<Longrightarrow> length t = TokenIDSize"
  by (auto simp: MakeIDFromString_def result_simps split: if_splits)

lemma be_bytes_2_0: "be_bytes 2 0 = [NUL, NUL]"
  by (simp add: numeral_2_eq_2 byte_of_def char_of_eq_iff)

lemma be_val_two: "be_val [a, b] = byte_val a * 256 + byte_val b"
  by (simp add: be_val_def)

lemma word16_of_two_eq_0:
  "(word_of_nat (be_val [a, b]) :: 16 word) = 0 \<longleftrightarrow> a = NUL \<and> b = NUL"
proof -
  have lt: "byte_val a * 256 + byte_val b < 65536"
    using byte_val_less [of a] byte_val_less [of b] by linarith
  have nul: "byte_val c = 0 \<longleftrightarrow> c = NUL" for c
    using byte_val_inj [of c NUL] by (simp add: byte_val_def)
  have "(word_of_nat (be_val [a, b]) :: 16 word) = 0 \<longleftrightarrow> byte_val a * 256 + byte_val b = 0"
    using lt by (simp add: be_val_two word_of_nat_eq_0_iff dvd_eq_mod_eq_0 del: of_nat_add of_nat_mult)
  then show ?thesis by (simp add: nul)
qed

text \<open>Exactly which byte strings decode, and to what.\<close>

lemma DecodeIdentifier_ok_iff:
  "DecodeIdentifier r = Inr i \<longleftrightarrow>
     34 < length r \<and> take 2 r = [NUL, NUL] \<and>
     i = \<lparr>Version = 0, PaymentHash = to_array 32 (drop 2 r), TokenID = to_array 32 (drop 34 r)\<rparr>"
proof (cases "length r < 2")
  case True
  then show ?thesis by (auto simp: DecodeIdentifier_def read_full_def)
next
  case False
  then obtain a b r1 where r: "r = a # b # r1"
    by (metis One_nat_def Suc_1 Suc_lessI length_Cons length_0_conv lessI less_2_cases_iff list.exhaust zero_less_Suc)
  have rf: "read_full 2 r = Inr ([a, b], r1)"
    using r by (simp add: read_full_def)
  show ?thesis
  proof (cases "a = NUL \<and> b = NUL")
    case True
    then have "(word_of_nat (be_val [a, b]) :: 16 word) = 0" by (simp add: word16_of_two_eq_0)
    with True r rf show ?thesis
      by (auto simp: DecodeIdentifier_def read_array_def Let_def rbind_eq_Inr)
  next
    case False
    then have "(word_of_nat (be_val [a, b]) :: 16 word) \<noteq> 0" by (simp add: word16_of_two_eq_0)
    with False r rf show ?thesis by (auto simp: DecodeIdentifier_def Let_def)
  qed
qed

lemma DecodeIdentifier_wf: "DecodeIdentifier r = Inr i \<Longrightarrow> wf_Identifier i \<and> Version i = 0"
  by (simp add: DecodeIdentifier_ok_iff wf_Identifier_def)

lemma EncodeIdentifier_ok_iff:
  "EncodeIdentifier w i = (b, Inr ()) \<longleftrightarrow> Version i = 0 \<and> b = w @ [NUL, NUL] @ PaymentHash i @ TokenID i"
  by (auto simp: EncodeIdentifier_def Let_def be_bytes_2_0)

lemma DecodeIdentifier_Encode:
  assumes "wf_Identifier i" and "EncodeIdentifier [] i = (b, Inr ())"
  shows "DecodeIdentifier (b @ rest) = Inr i"
  using assms
  by (cases i) (auto simp: EncodeIdentifier_ok_iff DecodeIdentifier_ok_iff wf_Identifier_def to_array_def)

end
