(* ===== verification/Server_Interceptor.thy ===== *)
theory Server_Interceptor
  imports Lsat_Header Lsat_Identifier
begin

text \<open>
  \<^verbatim>\<open>aperture/lsat/server_interceptor.go\<close> and \<^verbatim>\<open>context.go\<close>: the gRPC server interceptor that
  reads the token id of a request's L402 into the request context. A context is its incoming
  metadata (if it has any) and the values attached to it; a handler is a function of the
  context.
\<close>

datatype ContextKey = ContextKey string

definition KeyTokenID :: ContextKey where
  "KeyTokenID = ContextKey ''tokenid''"

record grpc_context =
  ctx_Metadata :: "(string \<rightharpoonup> string list) option"
  ctx_Values :: "ContextKey \<rightharpoonup> bytes"

definition FromContext :: "grpc_context \<Rightarrow> ContextKey \<Rightarrow> bytes option" where
  "FromContext ctx key = ctx_Values ctx key"

definition AddToContext :: "grpc_context \<Rightarrow> ContextKey \<Rightarrow> bytes \<Rightarrow> grpc_context" where
  "AddToContext ctx key v = ctx\<lparr>ctx_Values := (ctx_Values ctx)(key \<mapsto> v)\<rparr>"

text \<open>\<^verbatim>\<open>metadata.MD.Get\<close> looks a key up in lower case and returns no value as an empty slice.\<close>

definition md_Get :: "(string \<rightharpoonup> string list) \<Rightarrow> string \<Rightarrow> string list" where
  "md_Get md k = (case md (to_lower k) of None \<Rightarrow> [] | Some vs \<Rightarrow> vs)"

definition tokenFromContext :: "'m macaroon_ops \<Rightarrow> lntypes_ops \<Rightarrow> grpc_context \<Rightarrow> bytes result" where
  "tokenFromContext mo lt ctx =
     (case ctx_Metadata ctx of
        None \<Rightarrow> Inl (Errorf ''context contains no metadata'')
      | Some md \<Rightarrow>
          (case FromHeader mo lt [HeaderAuthorization \<mapsto> md_Get md HeaderAuthorization] of
             Inl e \<Rightarrow> Inl (Errorf ''auth header extraction failed'')
           | Inr (mac, _) \<Rightarrow>
               (case DecodeIdentifier (mac_Id mo mac) of
                  Inl e \<Rightarrow> Inl (Errorf ''token ID decoding failed'')
                | Inr i \<Rightarrow> Inr (to_array TokenIDSize (TokenID i)))))"

definition ServerUnaryInterceptor ::
    "'m macaroon_ops \<Rightarrow> lntypes_ops \<Rightarrow> grpc_context \<Rightarrow> (grpc_context \<Rightarrow> 'r) \<Rightarrow> 'r" where
  "ServerUnaryInterceptor mo lt ctx handler =
     (case tokenFromContext mo lt ctx of
        Inl e \<Rightarrow> handler ctx
      | Inr token \<Rightarrow> handler (AddToContext ctx KeyTokenID token))"

text \<open>A stream is known by its context; \<^verbatim>\<open>wrappedStream\<close> replaces it.\<close>

definition ServerStreamInterceptor ::
    "'m macaroon_ops \<Rightarrow> lntypes_ops \<Rightarrow> ('x \<times> grpc_context) \<Rightarrow> ('x \<times> grpc_context \<Rightarrow> 'r) \<Rightarrow> 'r" where
  "ServerStreamInterceptor mo lt ss handler =
     (case tokenFromContext mo lt (snd ss) of
        Inl e \<Rightarrow> handler ss
      | Inr token \<Rightarrow> handler (fst ss, AddToContext (snd ss) KeyTokenID token))"

subsection \<open>Properties\<close>

lemma FromContext_AddToContext:
  "FromContext (AddToContext ctx k v) k' = (if k' = k then Some v else FromContext ctx k')"
  by (simp add: FromContext_def AddToContext_def)

lemma header_literal: "header_Get [HeaderAuthorization \<mapsto> vs] HeaderAuthorization = (case vs of [] \<Rightarrow> [] | v # _ \<Rightarrow> v)"
proof -
  have "canonical_key HeaderAuthorization = HeaderAuthorization"
    by (simp add: canonical_key_def HeaderAuthorization_def is_token_char_def byte_val_def upper_char_def
        lower_char_def byte_of_def)
  then show ?thesis by (simp add: header_Get_def)
qed

text \<open>Only the one header field matters, so a request that carries what \<^verbatim>\<open>SetHeader\<close> wrote
  is identified by the token id of that macaroon.\<close>

lemma FromHeader_authorization:
  assumes "header_Get h HeaderAuthorization = v" and "v \<noteq> []"
  shows "FromHeader mo lt [HeaderAuthorization \<mapsto> [v]] = FromHeader mo lt h"
  using assms by (simp add: FromHeader_def header_literal)

lemma tokenFromContext_length:
  "tokenFromContext mo lt ctx = Inr t \<Longrightarrow> length t = TokenIDSize"
  by (auto simp: tokenFromContext_def split: option.splits sum.splits)

end
