(* ===== verification/Aperture_DB.thy ===== *)
theory Aperture_DB
  imports Go_Encoding
begin

text \<open>
  \<^verbatim>\<open>aperture/aperturedb/interface.go\<close> and \<^verbatim>\<open>sqlerrors.go\<close>: the classification of Postgres
  errors and the transaction executor with its retry loop.

  A transaction body is a function of the database that returns a new database and a value, or
  an error. Everything outside the program is in \<open>tx_env\<close>, by the number of the attempt: what
  other transactions committed before it, whether it could begin, whether a statement failed,
  and whether the commit reported an error (which it may do although it took effect).
\<close>

text \<open>The SQLSTATE codes of package \<^verbatim>\<open>pgerrcode\<close>.\<close>

definition pg_UniqueViolation :: string where "pg_UniqueViolation = ''23505''"
definition pg_SerializationFailure :: string where "pg_SerializationFailure = ''40001''"

text \<open>\<^verbatim>\<open>errors.As(err, &pqErr)\<close>: the first Postgres error in the chain of wrapped errors.\<close>

fun as_pg :: "go_error \<Rightarrow> string option" where
  "as_pg (PgError code) = Some code"
| "as_pg (Wrap m e) = as_pg e"
| "as_pg (Join a b) = (case as_pg a of None \<Rightarrow> as_pg b | Some c \<Rightarrow> Some c)"
| "as_pg (SerializationError e) = as_pg e"
| "as_pg _ = None"

fun is_serialization :: "go_error \<Rightarrow> bool" where
  "is_serialization (SerializationError e) = True"
| "is_serialization (Wrap m e) = is_serialization e"
| "is_serialization (Join a b) = (is_serialization a \<or> is_serialization b)"
| "is_serialization _ = False"

definition parsePostgresError :: "string \<Rightarrow> go_error" where
  "parsePostgresError code =
     (if code = pg_UniqueViolation then UniqueViolation (PgError code)
      else if code = pg_SerializationFailure then SerializationError (PgError code)
      else Wrap ''unknown postgres error'' (PgError code))"

definition MapSQLError :: "go_error \<Rightarrow> go_error" where
  "MapSQLError err = (case as_pg err of Some code \<Rightarrow> parsePostgresError code | None \<Rightarrow> err)"

subsection \<open>The executor\<close>

definition DefaultNumTxRetries :: int where "DefaultNumTxRetries = 10"
definition DefaultRetryDelay :: int where "DefaultRetryDelay = 50000000"

record txExecutorOptions =
  numRetries :: int
  retryDelay :: int

definition defaultTxExecutorOptions :: txExecutorOptions where
  "defaultTxExecutorOptions = \<lparr>numRetries = DefaultNumTxRetries, retryDelay = DefaultRetryDelay\<rparr>"

type_synonym TxExecutorOption = "txExecutorOptions \<Rightarrow> txExecutorOptions"

definition WithTxRetries :: "int \<Rightarrow> TxExecutorOption" where
  "WithTxRetries n = (\<lambda>opts. opts\<lparr>numRetries := n\<rparr>)"

definition WithTxRetryDelay :: "int \<Rightarrow> TxExecutorOption" where
  "WithTxRetryDelay delay = (\<lambda>opts. opts\<lparr>retryDelay := delay\<rparr>)"

definition NewTransactionExecutor :: "TxExecutorOption list \<Rightarrow> txExecutorOptions" where
  "NewTransactionExecutor opts = foldl (\<lambda>t f. f t) defaultTxExecutorOptions opts"

datatype isolation = LevelSerializable

record sqlTxOptions =
  txReadOnly :: bool
  txIsolation :: isolation

definition BeginTx :: "bool \<Rightarrow> sqlTxOptions" where
  "BeginTx readOnly = \<lparr>txReadOnly = readOnly, txIsolation = LevelSerializable\<rparr>"

record 'd tx_env =
  te_Concurrent :: "nat \<Rightarrow> 'd \<Rightarrow> 'd"
  te_Begin :: "nat \<Rightarrow> sqlTxOptions \<Rightarrow> go_error option"
  te_Statement :: "nat \<Rightarrow> go_error option"
  te_Commit :: "nat \<Rightarrow> (bool \<times> go_error) option"
  te_Rand :: "nat \<Rightarrow> int"

text \<open>The body of attempt \<open>i\<close>: every body of the program returns the error of a failed statement
  as it is.\<close>

definition run_body :: "'d tx_env \<Rightarrow> nat \<Rightarrow> ('d \<Rightarrow> ('d \<times> 'a) result) \<Rightarrow> 'd \<Rightarrow> ('d \<times> 'a) result" where
  "run_body env i body d = (case te_Statement env i of Some e \<Rightarrow> Inl e | None \<Rightarrow> body d)"

text \<open>\<^verbatim>\<open>rand.Int63n\<close> panics unless its argument is positive; the delay itself only takes time.\<close>

definition randRetryDelay :: "txExecutorOptions \<Rightarrow> int \<Rightarrow> int result" where
  "randRetryDelay opts r =
     (if retryDelay opts \<le> 0 then Inl (Panic ''invalid argument to Int63n'') else Inr (r mod retryDelay opts))"

text \<open>The loop, with the number of attempts left: a transaction that is not committed leaves the
  database as it found it.\<close>

fun execTx_loop ::
    "txExecutorOptions \<Rightarrow> nat \<Rightarrow> nat \<Rightarrow> bool \<Rightarrow> 'd tx_env \<Rightarrow> ('d \<Rightarrow> ('d \<times> 'a) result) \<Rightarrow> 'd \<Rightarrow> 'd \<times> 'a result" where
  "execTx_loop opts 0 i ro env body d = (d, Inl (Sentinel ErrRetriesExceeded))"
| "execTx_loop opts (Suc n) i ro env body d =
     (let d0 = te_Concurrent env i d in
      case te_Begin env i (BeginTx ro) of
        Some e \<Rightarrow> (d0, Inl e)
      | None \<Rightarrow>
          (case run_body env i body d0 of
             Inl err \<Rightarrow>
               (let dbErr = MapSQLError err in
                if is_serialization dbErr then
                  (case randRetryDelay opts (te_Rand env i) of
                     Inl e \<Rightarrow> (d0, Inl e)
                   | Inr delay \<Rightarrow> execTx_loop opts n (Suc i) ro env body d0)
                else (d0, Inl dbErr))
           | Inr (d1, x) \<Rightarrow>
               (case te_Commit env i of
                  Some (applied, e) \<Rightarrow> (if applied then d1 else d0, Inl (MapSQLError e))
                | None \<Rightarrow> (d1, Inr x))))"

definition ExecTx ::
    "txExecutorOptions \<Rightarrow> bool \<Rightarrow> 'd tx_env \<Rightarrow> ('d \<Rightarrow> ('d \<times> 'a) result) \<Rightarrow> 'd \<Rightarrow> 'd \<times> 'a result" where
  "ExecTx opts ro env body d = execTx_loop opts (nat (numRetries opts)) 0 ro env body d"

subsection \<open>Properties\<close>

lemma MapSQLError_serialization_iff:
  "is_serialization (MapSQLError e) \<longleftrightarrow>
     as_pg e = Some pg_SerializationFailure \<or> (as_pg e = None \<and> is_serialization e)"
  by (auto simp: MapSQLError_def parsePostgresError_def pg_SerializationFailure_def pg_UniqueViolation_def
      split: option.splits)

lemma MapSQLError_sentinel [simp]: "MapSQLError (Sentinel s) = Sentinel s"
  by (simp add: MapSQLError_def)

text \<open>The database as attempt \<open>i\<close> finds it when no earlier attempt committed.\<close>

fun seen :: "'d tx_env \<Rightarrow> nat \<Rightarrow> nat \<Rightarrow> 'd \<Rightarrow> 'd" where
  "seen env i 0 d = te_Concurrent env i d"
| "seen env i (Suc k) d = seen env (Suc i) k (te_Concurrent env i d)"

text \<open>An attempt that asks for a retry.\<close>

definition conflicts :: "'d tx_env \<Rightarrow> bool \<Rightarrow> ('d \<Rightarrow> ('d \<times> 'a) result) \<Rightarrow> nat \<Rightarrow> 'd \<Rightarrow> bool" where
  "conflicts env ro body i d0 \<longleftrightarrow> te_Begin env i (BeginTx ro) = None \<and>
     (case run_body env i body d0 of Inl err \<Rightarrow> is_serialization (MapSQLError err) | Inr _ \<Rightarrow> False)"

text \<open>What an attempt that does not ask for one does.\<close>

definition attempt :: "'d tx_env \<Rightarrow> bool \<Rightarrow> ('d \<Rightarrow> ('d \<times> 'a) result) \<Rightarrow> nat \<Rightarrow> 'd \<Rightarrow> 'd \<times> 'a result" where
  "attempt env ro body i d0 =
     (case te_Begin env i (BeginTx ro) of
        Some e \<Rightarrow> (d0, Inl e)
      | None \<Rightarrow>
          (case run_body env i body d0 of
             Inl err \<Rightarrow> (d0, Inl (MapSQLError err))
           | Inr (d1, x) \<Rightarrow>
               (case te_Commit env i of
                  Some (applied, e) \<Rightarrow> (if applied then d1 else d0, Inl (MapSQLError e))
                | None \<Rightarrow> (d1, Inr x))))"

lemma execTx_step:
  "execTx_loop opts (Suc n) i ro env body d =
     (let d0 = te_Concurrent env i d
      in if conflicts env ro body i d0
         then (if 0 < retryDelay opts then execTx_loop opts n (Suc i) ro env body d0
               else (d0, Inl (Panic ''invalid argument to Int63n'')))
         else attempt env ro body i d0)"
  by (auto simp: Let_def conflicts_def attempt_def randRetryDelay_def split: option.splits sum.splits)

lemma execTx_conflicts:
  "0 < retryDelay opts \<Longrightarrow> \<forall>j < k. conflicts env ro body (i + j) (seen env i j d) \<Longrightarrow>
     execTx_loop opts (k + n) i ro env body d =
       execTx_loop opts n (i + k) ro env body (case k of 0 \<Rightarrow> d | Suc k' \<Rightarrow> seen env i k' d)"
proof (induction k arbitrary: i d)
  case (Suc k)
  have c0: "conflicts env ro body i (te_Concurrent env i d)" using Suc.prems(2) by force
  have "\<forall>j < k. conflicts env ro body (Suc i + j) (seen env (Suc i) j (te_Concurrent env i d))"
    using Suc.prems(2) by force
  from Suc.IH [OF Suc.prems(1) this] c0 Suc.prems(1) show ?case
    by (cases k) (simp_all add: execTx_step Let_def del: execTx_loop.simps(2))
qed simp

text \<open>Either every attempt conflicts, or there is a first one that does not.\<close>

lemma first_settled:
  fixes P :: "nat \<Rightarrow> bool"
  obtains (all) "\<forall>j < n. P j" | (first) k where "k < n" and "\<not> P k" and "\<forall>j < k. P j"
proof (cases "\<forall>j < n. P j")
  case False
  define k where "k = (LEAST j. j < n \<and> \<not> P j)"
  from False have "\<exists>j. j < n \<and> \<not> P j" by blast
  then have k: "k < n \<and> \<not> P k" unfolding k_def by (rule LeastI_ex)
  have "P j" if "j < k" for j using not_less_Least [of j "\<lambda>j. j < n \<and> \<not> P j"] that k by (auto simp: k_def)
  with k show ?thesis using first [of k] by blast
qed (use all in blast)

definition conflict_at :: "'d tx_env \<Rightarrow> bool \<Rightarrow> ('d \<Rightarrow> ('d \<times> 'a) result) \<Rightarrow> 'd \<Rightarrow> nat \<Rightarrow> bool" where
  "conflict_at env ro body d k = conflicts env ro body k (seen env 0 k d)"

lemma seen_next: "te_Concurrent env (i + Suc k) (seen env i k d) = seen env i (Suc k) d"
proof (induction k arbitrary: i d)
  case (Suc k)
  then show ?case using Suc.IH [of "Suc i" "te_Concurrent env i d"] by simp
qed simp

lemma ExecTx_first:
  assumes "int k < numRetries opts" and "\<not> conflict_at env ro body d k"
    and "\<forall>j < k. conflict_at env ro body d j" and "k = 0 \<or> 0 < retryDelay opts"
  shows "ExecTx opts ro env body d = attempt env ro body k (seen env 0 k d)"
proof -
  from assms(1) obtain n where n: "nat (numRetries opts) = k + Suc n"
    by (metis add_Suc_right less_iff_Suc_add zless_nat_conj zless_nat_eq_int_zless nat_int)
  have "ExecTx opts ro env body d =
      execTx_loop opts (Suc n) k ro env body (case k of 0 \<Rightarrow> d | Suc k' \<Rightarrow> seen env 0 k' d)"
    using execTx_conflicts [of opts k env ro body 0 d "Suc n"] assms(3,4)
    by (cases "k = 0") (simp_all add: ExecTx_def n conflict_at_def del: execTx_loop.simps)
  moreover have "te_Concurrent env k (case k of 0 \<Rightarrow> d | Suc k' \<Rightarrow> seen env 0 k' d) = seen env 0 k d"
    using seen_next [of env 0] by (cases k) auto
  ultimately show ?thesis using assms(2)
    by (simp add: execTx_step Let_def conflict_at_def del: execTx_loop.simps)
qed

lemma ExecTx_exhausted:
  assumes "0 < retryDelay opts" and "\<forall>j < nat (numRetries opts). conflict_at env ro body d j"
  shows "snd (ExecTx opts ro env body d) = Inl (Sentinel ErrRetriesExceeded)"
  using execTx_conflicts [of opts "nat (numRetries opts)" env ro body 0 d 0] assms
  by (simp add: ExecTx_def conflict_at_def)

subsection \<open>An environment without faults\<close>

definition healthy_tx :: "'d tx_env \<Rightarrow> bool" where
  "healthy_tx env \<longleftrightarrow> (\<forall>i d. te_Concurrent env i d = d) \<and> (\<forall>i o'. te_Begin env i o' = None) \<and>
     (\<forall>i. te_Statement env i = None) \<and> (\<forall>i. te_Commit env i = None)"

lemma ExecTx_healthy:
  assumes "healthy_tx env" and "0 < numRetries opts"
    and "\<And>e. body d = Inl e \<Longrightarrow> \<not> is_serialization (MapSQLError e)"
  shows "ExecTx opts ro env body d =
     (case body d of Inl e \<Rightarrow> (d, Inl (MapSQLError e)) | Inr (d', x) \<Rightarrow> (d', Inr x))"
proof -
  have "\<not> conflict_at env ro body d 0"
    using assms by (auto simp: conflict_at_def conflicts_def run_body_def healthy_tx_def split: sum.splits)
  then have "ExecTx opts ro env body d = attempt env ro body 0 d"
    using ExecTx_first [of 0 opts env ro body d] assms(1,2) by (simp add: healthy_tx_def)
  then show ?thesis using assms(1) by (simp add: attempt_def run_body_def healthy_tx_def split: sum.splits)
qed

lemma ExecTx_write:
  assumes "healthy_tx env" and "0 < numRetries opts"
  shows "ExecTx opts ro env (\<lambda>t. Inr (f t, x)) d = (f d, Inr x)"
  using ExecTx_healthy [OF assms, of "\<lambda>t. Inr (f t, x)" d ro] by simp

definition sample_tx_env :: "'d tx_env" where
  "sample_tx_env = \<lparr>te_Concurrent = (\<lambda>i d. d), te_Begin = (\<lambda>i op. None), te_Statement = (\<lambda>i. None),
     te_Commit = (\<lambda>i. None), te_Rand = (\<lambda>i. 0)\<rparr>"

lemma sample_tx_env_healthy: "healthy_tx sample_tx_env"
  by (simp add: healthy_tx_def sample_tx_env_def)

subsection \<open>Atomicity and retries\<close>

lemma attempt_effect:
  assumes "attempt env ro body k d0 = (d', r)"
  shows "(d' = d0 \<and> \<not> is_ok r) \<or>
     (\<exists>x. run_body env k body d0 = Inr (d', x) \<and> (r = Inr x \<or> (\<exists>e. te_Commit env k = Some (True, e))))"
  using assms by (auto simp: attempt_def split: option.splits sum.splits prod.splits if_splits)

lemma ExecTx_exhausted_db:
  assumes "0 < retryDelay opts" and "\<forall>j < nat (numRetries opts). conflict_at env ro body d j"
  shows "fst (ExecTx opts ro env body d) = d \<or> (\<exists>k < nat (numRetries opts). fst (ExecTx opts ro env body d) = seen env 0 k d)"
  using execTx_conflicts [of opts "nat (numRetries opts)" env ro body 0 d 0] assms
  by (cases "nat (numRetries opts)") (auto simp: ExecTx_def conflict_at_def simp del: execTx_loop.simps(2))

text \<open>Without a positive delay the first attempt that asks for a retry ends in a panic.\<close>

lemma ExecTx_no_delay:
  assumes "0 < nat (numRetries opts)" and "\<not> 0 < retryDelay opts" and "conflict_at env ro body d 0"
  shows "ExecTx opts ro env body d = (seen env 0 0 d, Inl (Panic ''invalid argument to Int63n''))"
proof -
  obtain n where "nat (numRetries opts) = Suc n" using assms(1) gr0_implies_Suc by blast
  then show ?thesis using assms(2,3) by (simp add: ExecTx_def execTx_step conflict_at_def Let_def del: execTx_loop.simps)
qed

text \<open>
  C11: a transaction is atomic. Either the database is as some attempt found it and the caller
  gets an error, or the body ran to its end in exactly one attempt, on the database that attempt
  found, and its result is the database left behind; the caller then has the body's value,
  unless the commit reported an error although it took effect. All attempts before that one
  failed with a serialization error, and there are at most as many as configured.
\<close>

theorem ExecTx_atomic:
  assumes "ExecTx opts ro env body d = (d', r)"
  shows "(\<not> is_ok r \<and> (d' = d \<or> (\<exists>k < nat (numRetries opts). d' = seen env 0 k d))) \<or>
     (\<exists>k x. k < nat (numRetries opts) \<and> (\<forall>j < k. conflict_at env ro body d j) \<and>
        run_body env k body (seen env 0 k d) = Inr (d', x) \<and>
        (r = Inr x \<or> (\<exists>e. te_Commit env k = Some (True, e))))"
proof (cases "0 < nat (numRetries opts) \<and> \<not> 0 < retryDelay opts \<and> conflict_at env ro body d 0")
  case True
  with ExecTx_no_delay [of opts env ro body d] assms have "d' = seen env 0 0 d \<and> \<not> is_ok r" by auto
  with True show ?thesis by blast
next
  case False
  show ?thesis
  proof (cases rule: first_settled [of "nat (numRetries opts)" "conflict_at env ro body d"])
    case all
    with False have "nat (numRetries opts) = 0 \<or> 0 < retryDelay opts" by auto
    with ExecTx_exhausted [OF _ all] ExecTx_exhausted_db [OF _ all] assms show ?thesis by (auto simp: ExecTx_def)
  next
    case (first k)
    then have "int k < numRetries opts" "k = 0 \<or> 0 < retryDelay opts" using False by auto
    with first ExecTx_first [of k opts env ro body d] assms
    have "attempt env ro body k (seen env 0 k d) = (d', r)" by simp
    from attempt_effect [OF this] first show ?thesis by blast
  qed
qed

text \<open>A database that no one else writes: whatever fails, it is as before or has the effect of the body.\<close>

definition sole_writer :: "'d tx_env \<Rightarrow> bool" where
  "sole_writer env \<longleftrightarrow> (\<forall>i d. te_Concurrent env i d = d)"

lemma healthy_sole: "healthy_tx env \<Longrightarrow> sole_writer env"
  by (simp add: healthy_tx_def sole_writer_def)

lemma execTx_loop_sole:
  assumes "sole_writer env" and "execTx_loop opts n i ro env body d = (d', r)"
  shows "(\<exists>x. body d = Inr (d', x) \<and> (is_ok r \<longrightarrow> r = Inr x)) \<or> d' = d \<and> \<not> is_ok r"
  using assms(2)
proof (induction n arbitrary: i)
  case (Suc n)
  have same: "te_Concurrent env i d = d" using assms(1) by (simp add: sole_writer_def)
  show ?case
  proof (cases "conflicts env ro body i d")
    case True
    with Suc show ?thesis by (auto simp: execTx_step same Let_def simp del: execTx_loop.simps split: if_splits)
  next
    case False
    with Suc.prems have "attempt env ro body i d = (d', r)" by (simp add: execTx_step same Let_def del: execTx_loop.simps)
    then show ?thesis
      by (auto simp: attempt_def run_body_def split: option.splits sum.splits prod.splits if_splits)
  qed
qed auto

lemma ExecTx_sole:
  assumes "sole_writer env" and "ExecTx opts ro env body d = (d', r)"
  obtains (effect) x where "body d = Inr (d', x)" and "is_ok r \<Longrightarrow> r = Inr x" | (none) "d' = d" and "\<not> is_ok r"
  using execTx_loop_sole [OF assms [unfolded ExecTx_def]] by blast

definition sample_opts :: txExecutorOptions where
  "sample_opts = NewTransactionExecutor [WithTxRetries 3]"

definition sample_busy_env :: "nat tx_env" where
  "sample_busy_env = sample_tx_env\<lparr>te_Statement := (\<lambda>i. if i = 0 then Some (PgError pg_SerializationFailure) else None),
     te_Concurrent := (\<lambda>i d. d + 1)\<rparr>"

lemma sample_busy_run: "ExecTx sample_opts False sample_busy_env (\<lambda>d. Inr (10 * d, d)) 5 = (70, Inr 7)"
  by (simp add: ExecTx_def sample_opts_def NewTransactionExecutor_def WithTxRetries_def defaultTxExecutorOptions_def
      randRetryDelay_def DefaultRetryDelay_def eval_nat_numeral sample_busy_env_def sample_tx_env_def run_body_def MapSQLError_def parsePostgresError_def
      pg_UniqueViolation_def pg_SerializationFailure_def)

theorem ExecTx_atomic_witness:
  "\<exists>k < 3. run_body sample_busy_env k (\<lambda>d. Inr (10 * d, d)) (seen sample_busy_env 0 k 5) = Inr (70, 7)"
  using ExecTx_atomic [OF sample_busy_run]
  by (auto simp: sample_opts_def NewTransactionExecutor_def WithTxRetries_def sample_busy_env_def sample_tx_env_def)

text \<open>
  C27: the retry loop does retry: when fewer attempts than configured end in serialization
  errors, the delay is positive and the next one meets no fault, the transaction succeeds with the value of the body on
  the database of that attempt.
\<close>

theorem ExecTx_retries:
  assumes "int k < numRetries opts" and "\<forall>j < k. conflict_at env ro body d j" and "0 < retryDelay opts"
    and "te_Begin env k (BeginTx ro) = None" and "te_Statement env k = None" and "te_Commit env k = None"
    and "body (seen env 0 k d) = Inr (d', x)"
  shows "ExecTx opts ro env body d = (d', Inr x)"
proof -
  have "\<not> conflict_at env ro body d k"
    using assms(5,7) by (simp add: conflict_at_def conflicts_def run_body_def)
  from ExecTx_first [OF assms(1) this assms(2)] assms(3-7)
  show ?thesis by (simp add: attempt_def run_body_def)
qed

theorem ExecTx_retries_witness:
  "ExecTx sample_opts True sample_busy_env (\<lambda>d. Inr (10 * d, d)) 5 = (70, Inr 7)"
  using ExecTx_retries [of 1 sample_opts sample_busy_env True "\<lambda>d. Inr (10 * d, d)" 5 70 7]
  by (simp add: sample_opts_def NewTransactionExecutor_def WithTxRetries_def sample_busy_env_def sample_tx_env_def
      defaultTxExecutorOptions_def DefaultRetryDelay_def conflict_at_def conflicts_def run_body_def MapSQLError_def parsePostgresError_def pg_UniqueViolation_def
      pg_SerializationFailure_def)

text \<open>
  A serialization failure that Postgres reports at commit is returned to the caller at
  once, however many retries are configured, although it is the error the loop exists for.
\<close>

lemma ExecTx_commit_not_retried:
  assumes "0 < numRetries opts" and "te_Begin env 0 (BeginTx ro) = None" and "te_Statement env 0 = None"
    and "body (te_Concurrent env 0 d) = Inr (d', x)"
    and "te_Commit env 0 = Some (False, PgError pg_SerializationFailure)"
  shows "ExecTx opts ro env body d = (te_Concurrent env 0 d, Inl (SerializationError (PgError pg_SerializationFailure)))"
proof -
  have "\<not> conflict_at env ro body d 0"
    using assms(3,4) by (simp add: conflict_at_def conflicts_def run_body_def)
  from ExecTx_first [of 0 opts, OF _ this] assms show ?thesis
    by (simp add: attempt_def run_body_def MapSQLError_def parsePostgresError_def pg_UniqueViolation_def
        pg_SerializationFailure_def)
qed

lemma ExecTx_commit_not_retried_example:
  "snd (ExecTx defaultTxExecutorOptions False
      (sample_tx_env\<lparr>te_Commit := (\<lambda>i. if i = 0 then Some (False, PgError pg_SerializationFailure) else None)\<rparr>)
      (\<lambda>d. Inr (d + 1, d)) (4 :: nat)) = Inl (SerializationError (PgError pg_SerializationFailure))"
  using ExecTx_commit_not_retried [of defaultTxExecutorOptions
      "sample_tx_env\<lparr>te_Commit := (\<lambda>i. if i = 0 then Some (False, PgError pg_SerializationFailure) else None)\<rparr>"
      False "\<lambda>d. Inr (d + 1, d)" "4 :: nat" 5 4]
  by (simp add: defaultTxExecutorOptions_def DefaultNumTxRetries_def sample_tx_env_def)

end
