(* ===== verification/Onion_Store.thy ===== *)
theory Onion_Store
  imports Aperture_DB
begin

text \<open>
  The two stores of the Tor private key: \<^verbatim>\<open>aperture/aperturedb/onion.go\<close> over the queries of
  \<^verbatim>\<open>sqlc/onion.sql.go\<close>, and \<^verbatim>\<open>aperture/onion_store.go\<close> over etcd, whose client is a parameter.
  Both implement \<^verbatim>\<open>tor.OnionStore\<close>, the locale \<open>onion_keys\<close>.
\<close>

subsection \<open>The database store\<close>

type_synonym onion_table = "(bytes \<times> time) list"

definition UpsertOnion :: "bytes \<Rightarrow> time \<Rightarrow> onion_table \<Rightarrow> onion_table" where
  "UpsertOnion privateKey createdAt tbl =
     (if list_ex (\<lambda>r. fst r = privateKey) tbl then tbl else tbl @ [(privateKey, createdAt)])"

definition SelectOnionPrivateKey :: "onion_table \<Rightarrow> bytes result" where
  "SelectOnionPrivateKey tbl = (case tbl of [] \<Rightarrow> Inl (Sentinel ErrNoRows) | r # _ \<Rightarrow> Inr (fst r))"

definition DeleteOnionPrivateKey :: "onion_table \<Rightarrow> onion_table" where
  "DeleteOnionPrivateKey tbl = []"

definition store_key_body :: "bytes \<Rightarrow> time \<Rightarrow> onion_table \<Rightarrow> (onion_table \<times> unit) result" where
  "store_key_body privateKey now tx =
     (case SelectOnionPrivateKey tx of
        Inr dbPK \<Rightarrow>
          if dbPK \<noteq> privateKey then Inl (Errorf ''private key already exists'')
          else Inr (UpsertOnion privateKey now tx, ())
      | Inl e \<Rightarrow>
          if e \<noteq> Sentinel ErrNoRows then Inl e
          else Inr (UpsertOnion privateKey now tx, ()))"

definition StorePrivateKey ::
    "txExecutorOptions \<Rightarrow> onion_table tx_env \<Rightarrow> time \<Rightarrow> bytes \<Rightarrow> onion_table \<Rightarrow> onion_table \<times> unit result" where
  "StorePrivateKey opts env now privateKey tbl =
     (case ExecTx opts False env (store_key_body privateKey now) tbl of
        (tbl', Inl e) \<Rightarrow> (tbl', Inl (Errorf ''failed to store private key''))
      | (tbl', Inr _) \<Rightarrow> (tbl', Inr ()))"

definition private_key_body :: "onion_table \<Rightarrow> (onion_table \<times> bytes) result" where
  "private_key_body t =
     (case SelectOnionPrivateKey t of
        Inl e \<Rightarrow> if e = Sentinel ErrNoRows then Inl (Sentinel ErrNoPrivateKey) else Inl e
      | Inr row \<Rightarrow> Inr (t, row))"

text \<open>The transaction is opened with the write options, as in the source.\<close>

definition PrivateKey ::
    "txExecutorOptions \<Rightarrow> onion_table tx_env \<Rightarrow> onion_table \<Rightarrow> onion_table \<times> bytes result" where
  "PrivateKey opts env tbl =
     (case ExecTx opts False env private_key_body tbl of
        (tbl', Inl e) \<Rightarrow> (tbl', Inl (Wrap ''failed to retrieve private key'' e))
      | (tbl', Inr pk) \<Rightarrow> (tbl', Inr pk))"

definition DeletePrivateKey ::
    "txExecutorOptions \<Rightarrow> onion_table tx_env \<Rightarrow> onion_table \<Rightarrow> onion_table \<times> unit result" where
  "DeletePrivateKey opts env tbl =
     (case ExecTx opts False env (\<lambda>t. Inr (DeleteOnionPrivateKey t, ())) tbl of
        (tbl', Inl e) \<Rightarrow> (tbl', Inl (Errorf ''failed to delete private key''))
      | (tbl', Inr _) \<Rightarrow> (tbl', Inr ()))"

subsection \<open>The etcd store\<close>

text \<open>The etcd client: its operations on the state of the cluster.\<close>

record 'e etcd_ops =
  etcd_Put :: "string \<Rightarrow> bytes \<Rightarrow> 'e \<Rightarrow> 'e \<times> unit result"
  etcd_Get :: "string \<Rightarrow> 'e \<Rightarrow> bytes list result"
  etcd_Delete :: "string \<Rightarrow> 'e \<Rightarrow> 'e \<times> unit result"

definition topLevelKey :: string where "topLevelKey = ''lsat/proxy''"
definition onionDir :: string where "onionDir = ''onion''"
definition onionV3Dir :: string where "onionV3Dir = ''v3''"

definition onionPath :: string where
  "onionPath = join_with (CHR ''/'') [topLevelKey, onionDir, onionV3Dir]"

definition etcd_StorePrivateKey :: "'e etcd_ops \<Rightarrow> bytes \<Rightarrow> 'e \<Rightarrow> 'e \<times> unit result" where
  "etcd_StorePrivateKey c privateKey s = etcd_Put c onionPath privateKey s"

definition etcd_PrivateKey :: "'e etcd_ops \<Rightarrow> 'e \<Rightarrow> 'e \<times> bytes result" where
  "etcd_PrivateKey c s =
     (s, rbind (etcd_Get c onionPath s) (\<lambda>kvs.
        case kvs of [] \<Rightarrow> Inl (Sentinel ErrNoPrivateKey) | v # _ \<Rightarrow> Inr v))"

definition etcd_DeletePrivateKey :: "'e etcd_ops \<Rightarrow> 'e \<Rightarrow> 'e \<times> unit result" where
  "etcd_DeletePrivateKey c s = etcd_Delete c onionPath s"

text \<open>What etcd documents of the three calls, on the states a predicate describes: a key that was
  put is read back, a deleted one is absent.\<close>

definition etcd_lib :: "'e etcd_ops \<Rightarrow> ('e \<Rightarrow> bool) \<Rightarrow> bool" where
  "etcd_lib c up \<longleftrightarrow>
     (\<forall>k v s s'. up s \<and> etcd_Put c k v s = (s', Inr ()) \<longrightarrow> up s' \<and> etcd_Get c k s' = Inr [v]) \<and>
     (\<forall>k s s'. up s \<and> etcd_Delete c k s = (s', Inr ()) \<longrightarrow> up s' \<and> etcd_Get c k s' = Inr [])"

subsection \<open>The contract of a Tor key store\<close>

locale onion_keys =
  fixes store :: "bytes \<Rightarrow> 's \<Rightarrow> 's \<times> unit result"
    and key :: "'s \<Rightarrow> 's \<times> bytes result"
    and del :: "'s \<Rightarrow> 's \<times> unit result"
    and ok :: "'s \<Rightarrow> bool"
  assumes key_store: "ok s \<Longrightarrow> store k s = (s', Inr ()) \<Longrightarrow> ok s' \<and> key s' = (s', Inr k)"
    and key_del: "ok s \<Longrightarrow> del s = (s', Inr ()) \<Longrightarrow> ok s' \<and> (\<exists>e. key s' = (s', Inl e) \<and> errors_is e ErrNoPrivateKey)"
begin

lemma rotate:
  assumes "ok s" and "del s = (s1, Inr ())" and "store k s1 = (s2, Inr ())"
  shows "key s2 = (s2, Inr k)"
  using key_del [OF assms(1,2)] key_store [of s1 k s2] assms(3) by simp

end

definition onion_ok :: "txExecutorOptions \<Rightarrow> onion_table tx_env \<Rightarrow> onion_table \<Rightarrow> bool" where
  "onion_ok opts env tbl \<longleftrightarrow> healthy_tx env \<and> 0 < numRetries opts"

lemma StorePrivateKey_healthy:
  assumes "onion_ok opts env tbl"
  shows "StorePrivateKey opts env now k tbl =
     (case tbl of [] \<Rightarrow> ([(k, now)], Inr ())
      | r # rs \<Rightarrow> (tbl, if fst r = k then Inr () else Inl (Errorf ''failed to store private key'')))"
proof -
  have "ExecTx opts False env (store_key_body k now) tbl =
      (case store_key_body k now tbl of Inl e \<Rightarrow> (tbl, Inl (MapSQLError e)) | Inr (d', x) \<Rightarrow> (d', Inr x))"
    using assms by (intro ExecTx_healthy)
      (auto simp: onion_ok_def store_key_body_def SelectOnionPrivateKey_def MapSQLError_def split: list.splits if_splits)
  then show ?thesis
    by (cases tbl) (auto simp: StorePrivateKey_def store_key_body_def SelectOnionPrivateKey_def UpsertOnion_def)
qed

lemma PrivateKey_healthy:
  assumes "onion_ok opts env tbl"
  shows "PrivateKey opts env tbl =
     (tbl, case tbl of [] \<Rightarrow> Inl (Wrap ''failed to retrieve private key'' (Sentinel ErrNoPrivateKey)) | r # _ \<Rightarrow> Inr (fst r))"
proof -
  have "ExecTx opts False env private_key_body tbl =
      (case private_key_body tbl of Inl e \<Rightarrow> (tbl, Inl (MapSQLError e)) | Inr (d', x) \<Rightarrow> (d', Inr x))"
    using assms by (intro ExecTx_healthy)
      (auto simp: onion_ok_def private_key_body_def SelectOnionPrivateKey_def split: list.splits)
  then show ?thesis by (cases tbl) (simp_all add: PrivateKey_def private_key_body_def SelectOnionPrivateKey_def)
qed

interpretation db_onion: onion_keys "StorePrivateKey opts env now" "PrivateKey opts env" "DeletePrivateKey opts env" "onion_ok opts env"
proof
  fix s k s' assume ok: "onion_ok opts env s" and st: "StorePrivateKey opts env now k s = (s', Inr ())"
  then have "onion_ok opts env s'" by (simp add: onion_ok_def)
  with st show "onion_ok opts env s' \<and> PrivateKey opts env s' = (s', Inr k)"
    by (auto simp: StorePrivateKey_healthy [OF ok] PrivateKey_healthy split: list.splits if_splits)
next
  fix s s' assume ok: "onion_ok opts env s" and d: "DeletePrivateKey opts env s = (s', Inr ())"
  then have "s' = []" "onion_ok opts env s'"
    using ExecTx_write [of env opts False DeleteOnionPrivateKey "()" s]
    by (simp_all add: onion_ok_def DeletePrivateKey_def DeleteOnionPrivateKey_def)
  then show "onion_ok opts env s' \<and> (\<exists>e. PrivateKey opts env s' = (s', Inl e) \<and> errors_is e ErrNoPrivateKey)"
    by (simp add: PrivateKey_healthy)
qed

definition etcd_ok :: "'e etcd_ops \<Rightarrow> ('e \<Rightarrow> bool) \<Rightarrow> 'e \<Rightarrow> bool" where
  "etcd_ok c up s \<longleftrightarrow> etcd_lib c up \<and> up s"

interpretation etcd_onion: onion_keys "etcd_StorePrivateKey c" "etcd_PrivateKey c" "etcd_DeletePrivateKey c" "etcd_ok c up"
proof
  fix s k s' assume "etcd_ok c up s" "etcd_StorePrivateKey c k s = (s', Inr ())"
  then have "up s' \<and> etcd_Get c onionPath s' = Inr [k]"
    unfolding etcd_ok_def etcd_lib_def etcd_StorePrivateKey_def by blast
  with \<open>etcd_ok c up s\<close> show "etcd_ok c up s' \<and> etcd_PrivateKey c s' = (s', Inr k)"
    by (simp add: etcd_ok_def etcd_PrivateKey_def)
next
  fix s s' assume "etcd_ok c up s" "etcd_DeletePrivateKey c s = (s', Inr ())"
  then have "up s' \<and> etcd_Get c onionPath s' = Inr []"
    unfolding etcd_ok_def etcd_lib_def etcd_DeletePrivateKey_def by blast
  with \<open>etcd_ok c up s\<close> show "etcd_ok c up s' \<and>
      (\<exists>e. etcd_PrivateKey c s' = (s', Inl e) \<and> errors_is e ErrNoPrivateKey)"
    by (simp add: etcd_ok_def etcd_PrivateKey_def)
qed

text \<open>
  The database keeps one Tor key: storing a key succeeds exactly when the table is empty or
  already begins with that key, never changes a stored key, and afterwards the key read is the
  key stored.
\<close>

lemma onion_key_kept:
  assumes "healthy_tx env" and "0 < numRetries opts" and "PrivateKey opts env tbl = (tbl, Inr k)"
  shows "StorePrivateKey opts env now k' tbl =
     (tbl, if k' = k then Inr () else Inl (Errorf ''failed to store private key''))"
proof -
  have ok: "onion_ok opts env tbl" using assms by (simp add: onion_ok_def)
  from assms(3) obtain r rs where "tbl = r # rs" "fst r = k"
    by (auto simp: PrivateKey_healthy [OF ok] split: list.splits)
  with StorePrivateKey_healthy [OF ok, of now k'] show ?thesis by auto
qed

lemma onion_key_kept_example:
  "StorePrivateKey defaultTxExecutorOptions sample_tx_env (0, 0) ''new'' [(''old'', (0, 0))]
     = ([(''old'', (0, 0))], Inl (Errorf ''failed to store private key''))"
  using onion_key_kept [OF sample_tx_env_healthy, of defaultTxExecutorOptions "[(''old'', (0, 0))]" "''old''" "(0, 0)" "''new''"]
  by (simp add: PrivateKey_healthy onion_ok_def sample_tx_env_healthy defaultTxExecutorOptions_def DefaultNumTxRetries_def)

end
