(* ===== verification/Lnc_Store.thy ===== *)
theory Lnc_Store
  imports Aperture_DB
begin

text \<open>
  The Lightning Node Connect sessions: \<^verbatim>\<open>aperture/lnc/session.go\<close>, their table in
  \<^verbatim>\<open>aperture/aperturedb/lnc_sessions.go\<close> over \<^verbatim>\<open>sqlc/lnc_sessions.sql.go\<close>, and the
  contract of \<^verbatim>\<open>aperture/lnc/store.go\<close> that the table implements. Keys (\<^verbatim>\<open>btcec\<close>) and
  the words of a passphrase (\<^verbatim>\<open>mailbox\<close>) are parameters.
\<close>

record ('k, 'p) btcec_ops =
  bt_PrivKeyFromBytes :: "bytes \<Rightarrow> 'k"
  bt_Serialize :: "'k \<Rightarrow> bytes"
  bt_ParsePubKey :: "bytes \<Rightarrow> 'p result"
  bt_SerializeCompressed :: "'p \<Rightarrow> bytes"

definition btcec_lib :: "('k, 'p) btcec_ops \<Rightarrow> bool" where
  "btcec_lib bt \<longleftrightarrow> (\<forall>k. bt_PrivKeyFromBytes bt (bt_Serialize bt k) = k) \<and>
     (\<forall>p. bt_ParsePubKey bt (bt_SerializeCompressed bt p) = Inr p)"

record ('k, 'p) Session =
  PassphraseWords :: string
  PassphraseEntropy :: bytes
  RemoteStaticPubKey :: "'p option"
  LocalStaticPrivKey :: "'k option"
  MailboxAddr :: string
  CreatedAt :: time
  Expiry :: "time option"
  DevServer :: bool

text \<open>The zero value of \<^verbatim>\<open>time.Time\<close>.\<close>

definition zero_time :: time where "zero_time = (0, 0)"

definition NewSession ::
    "nat \<Rightarrow> (string list \<Rightarrow> bytes) \<Rightarrow> string \<Rightarrow> string \<Rightarrow> bool \<Rightarrow> ('k, 'p) Session result" where
  "NewSession numWords toEntropy passphrase mailboxAddr devServer =
     (if passphrase = [] then Inl (Errorf ''passphrase cannot be empty'')
      else if mailboxAddr = [] then Inl (Errorf ''mailbox address cannot be empty'')
      else let words = split_on (CHR '' '') passphrase in
        if length words \<noteq> numWords then Inl (Errorf ''invalid passphrase'')
        else Inr \<lparr>PassphraseWords = passphrase, PassphraseEntropy = toEntropy words,
                  RemoteStaticPubKey = None, LocalStaticPrivKey = None, MailboxAddr = mailboxAddr,
                  CreatedAt = zero_time, Expiry = None, DevServer = devServer\<rparr>)"

subsection \<open>The table\<close>

record lnc_row =
  lr_words :: string
  lr_entropy :: bytes
  lr_remote_key :: "bytes option"
  lr_local_key :: bytes
  lr_mailbox :: string
  lr_created_at :: time
  lr_expiry :: "time option"
  lr_dev_server :: bool

type_synonym lnc_table = "lnc_row list"

definition InsertSession :: "lnc_row \<Rightarrow> lnc_table \<Rightarrow> (lnc_table \<times> unit) result" where
  "InsertSession row tbl =
     (if list_ex (\<lambda>r. lr_words r = lr_words row \<or> lr_entropy r = lr_entropy row) tbl
      then Inl (PgError pg_UniqueViolation) else Inr (tbl @ [row], ()))"

definition GetSession_q :: "bytes \<Rightarrow> lnc_table \<Rightarrow> lnc_row result" where
  "GetSession_q entropy tbl =
     (case List.find (\<lambda>r. lr_entropy r = entropy) tbl of
        None \<Rightarrow> Inl (Sentinel ErrNoRows) | Some r \<Rightarrow> Inr r)"

text \<open>\<^verbatim>\<open>remote_static_pub_key\<close> is unique among the rows that have one.\<close>

definition SetRemotePubKey_q :: "bytes \<Rightarrow> bytes \<Rightarrow> lnc_table \<Rightarrow> (lnc_table \<times> unit) result" where
  "SetRemotePubKey_q entropy key tbl =
     (if list_ex (\<lambda>r. lr_entropy r = entropy) tbl \<and>
         list_ex (\<lambda>r. lr_entropy r \<noteq> entropy \<and> lr_remote_key r = Some key) tbl
      then Inl (PgError pg_UniqueViolation)
      else Inr (map (\<lambda>r. if lr_entropy r = entropy then r\<lparr>lr_remote_key := Some key\<rparr> else r) tbl, ()))"

definition SetExpiry_q :: "bytes \<Rightarrow> time \<Rightarrow> lnc_table \<Rightarrow> lnc_table" where
  "SetExpiry_q entropy expiry tbl =
     map (\<lambda>r. if lr_entropy r = entropy then r\<lparr>lr_expiry := Some expiry\<rparr> else r) tbl"

subsection \<open>The session store\<close>

text \<open>\<^verbatim>\<open>Truncate(time.Microsecond)\<close>.\<close>

definition truncate_micro :: "time \<Rightarrow> time" where
  "truncate_micro t = (fst t, snd t - snd t mod 1000)"

definition AddSession ::
    "('k, 'p) btcec_ops \<Rightarrow> txExecutorOptions \<Rightarrow> lnc_table tx_env \<Rightarrow> time \<Rightarrow> ('k, 'p) Session \<Rightarrow> lnc_table
       \<Rightarrow> lnc_table \<times> ('k, 'p) Session result" where
  "AddSession bt opts env now session tbl =
     (case LocalStaticPrivKey session of
        None \<Rightarrow> (tbl, Inl (Errorf ''local static private key is required''))
      | Some k \<Rightarrow>
          let createdAt = truncate_micro now in
          (case ExecTx opts False env
                  (InsertSession \<lparr>lr_words = PassphraseWords session, lr_entropy = PassphraseEntropy session,
                     lr_remote_key = None, lr_local_key = bt_Serialize bt k, lr_mailbox = MailboxAddr session,
                     lr_created_at = createdAt, lr_expiry = None, lr_dev_server = DevServer session\<rparr>) tbl of
             (tbl', Inl e) \<Rightarrow> (tbl', Inl (Errorf ''failed to insert new session''))
           | (tbl', Inr _) \<Rightarrow> (tbl', Inr (session\<lparr>CreatedAt := createdAt\<rparr>))))"

definition session_of_row :: "('k, 'p) btcec_ops \<Rightarrow> lnc_row \<Rightarrow> ('k, 'p) Session result" where
  "session_of_row bt r =
     (let session = \<lparr>PassphraseWords = lr_words r, PassphraseEntropy = lr_entropy r, RemoteStaticPubKey = None,
            LocalStaticPrivKey = Some (bt_PrivKeyFromBytes bt (lr_local_key r)), MailboxAddr = lr_mailbox r,
            CreatedAt = lr_created_at r, Expiry = lr_expiry r, DevServer = lr_dev_server r\<rparr>
      in case lr_remote_key r of
           None \<Rightarrow> Inr session
         | Some b \<Rightarrow>
             (case bt_ParsePubKey bt b of
                Inl e \<Rightarrow> Inl (Wrap ''failed to parse remote public key'' e)
              | Inr pubKey \<Rightarrow> Inr (session\<lparr>RemoteStaticPubKey := Some pubKey\<rparr>)))"

definition get_session_body ::
    "('k, 'p) btcec_ops \<Rightarrow> bytes \<Rightarrow> lnc_table \<Rightarrow> (lnc_table \<times> ('k, 'p) Session) result" where
  "get_session_body bt entropy t =
     (case GetSession_q entropy t of
        Inl e \<Rightarrow> if e = Sentinel ErrNoRows then Inl (Sentinel ErrSessionNotFound) else Inl e
      | Inr r \<Rightarrow> rbind (session_of_row bt r) (\<lambda>s. Inr (t, s)))"

definition GetSession ::
    "('k, 'p) btcec_ops \<Rightarrow> txExecutorOptions \<Rightarrow> lnc_table tx_env \<Rightarrow> bytes \<Rightarrow> lnc_table
       \<Rightarrow> lnc_table \<times> ('k, 'p) Session result" where
  "GetSession bt opts env entropy tbl =
     (case ExecTx opts True env (get_session_body bt entropy) tbl of
        (tbl', Inl e) \<Rightarrow> (tbl', Inl (Wrap ''failed to get session'' e))
      | (tbl', Inr s) \<Rightarrow> (tbl', Inr s))"

definition SetRemotePubKey ::
    "txExecutorOptions \<Rightarrow> lnc_table tx_env \<Rightarrow> bytes \<Rightarrow> bytes \<Rightarrow> lnc_table \<Rightarrow> lnc_table \<times> unit result" where
  "SetRemotePubKey opts env entropy key tbl =
     (case ExecTx opts False env (SetRemotePubKey_q entropy key) tbl of
        (tbl', Inl e) \<Rightarrow> (tbl', Inl (Wrap ''failed to set remote pub key'' e))
      | (tbl', Inr _) \<Rightarrow> (tbl', Inr ()))"

definition SetExpiry ::
    "txExecutorOptions \<Rightarrow> lnc_table tx_env \<Rightarrow> bytes \<Rightarrow> time \<Rightarrow> lnc_table \<Rightarrow> lnc_table \<times> unit result" where
  "SetExpiry opts env entropy expiry tbl =
     (case ExecTx opts False env (\<lambda>t. Inr (SetExpiry_q entropy expiry t, ())) tbl of
        (tbl', Inl e) \<Rightarrow> (tbl', Inl (Wrap ''failed to set expiry time'' e))
      | (tbl', Inr _) \<Rightarrow> (tbl', Inr ()))"

subsection \<open>The store the node connection is given\<close>

record ('s, 'k, 'p) session_ops =
  so_AddSession :: "('k, 'p) Session \<Rightarrow> 's \<Rightarrow> 's \<times> ('k, 'p) Session result"
  so_GetSession :: "bytes \<Rightarrow> 's \<Rightarrow> 's \<times> ('k, 'p) Session result"
  so_SetRemotePubKey :: "bytes \<Rightarrow> bytes \<Rightarrow> 's \<Rightarrow> 's \<times> unit result"
  so_SetExpiry :: "bytes \<Rightarrow> time \<Rightarrow> 's \<Rightarrow> 's \<times> unit result"

definition lnc_store_ops ::
    "('k, 'p) btcec_ops \<Rightarrow> txExecutorOptions \<Rightarrow> lnc_table tx_env \<Rightarrow> time \<Rightarrow> (lnc_table, 'k, 'p) session_ops" where
  "lnc_store_ops bt opts env now = \<lparr>
     so_AddSession = AddSession bt opts env now,
     so_GetSession = GetSession bt opts env,
     so_SetRemotePubKey = SetRemotePubKey opts env,
     so_SetExpiry = SetExpiry opts env \<rparr>"

subsection \<open>The contract of a session store\<close>

text \<open>A session as \<^verbatim>\<open>NewSession\<close> makes it: the peer's key and the expiry are not known yet.\<close>

definition fresh_session :: "('k, 'p) Session \<Rightarrow> bool" where
  "fresh_session x \<longleftrightarrow> RemoteStaticPubKey x = None \<and> Expiry x = None"

locale session_store =
  fixes so :: "('s, 'k, 'p) session_ops"
    and enc :: "'p \<Rightarrow> bytes"
    and ok :: "'s \<Rightarrow> bool"
    and view :: "'s \<Rightarrow> bytes \<rightharpoonup> ('k, 'p) Session"
  assumes view_key: "view s e = Some x \<Longrightarrow> PassphraseEntropy x = e"
    and get_spec: "ok s \<Longrightarrow> so_GetSession so e s =
      (s, case view s e of Some x \<Rightarrow> Inr x
          | None \<Rightarrow> Inl (Wrap ''failed to get session'' (Sentinel ErrSessionNotFound)))"
    and add_spec: "ok s \<Longrightarrow> fresh_session x \<Longrightarrow> so_AddSession so x s = (s', Inr x') \<Longrightarrow>
      ok s' \<and> view s (PassphraseEntropy x) = None \<and> view s' = (view s)(PassphraseEntropy x \<mapsto> x') \<and>
      (\<exists>c. x' = x\<lparr>CreatedAt := c\<rparr>)"
    and add_error: "ok s \<Longrightarrow> so_AddSession so x s = (s', Inl err) \<Longrightarrow> s' = s"
    and remote_spec: "ok s \<Longrightarrow> so_SetRemotePubKey so e (enc p) s = (s', Inr ()) \<Longrightarrow>
      ok s' \<and> view s' = (view s)(e := map_option (\<lambda>x. x\<lparr>RemoteStaticPubKey := Some p\<rparr>) (view s e))"
    and remote_error: "ok s \<Longrightarrow> so_SetRemotePubKey so e (enc p) s = (s', Inl err) \<Longrightarrow> s' = s"
    and expiry_spec: "ok s \<Longrightarrow> so_SetExpiry so e t s = (s', r) \<Longrightarrow>
      ok s' \<and> r = Inr () \<and> view s' = (view s)(e := map_option (\<lambda>x. x\<lparr>Expiry := Some t\<rparr>) (view s e))"

subsection \<open>The table implements the contract\<close>

definition row_view :: "('k, 'p) btcec_ops \<Rightarrow> lnc_row \<Rightarrow> ('k, 'p) Session option" where
  "row_view bt r = (case session_of_row bt r of Inl _ \<Rightarrow> None | Inr x \<Rightarrow> Some x)"

definition lnc_view :: "('k, 'p) btcec_ops \<Rightarrow> lnc_table \<Rightarrow> bytes \<rightharpoonup> ('k, 'p) Session" where
  "lnc_view bt tbl e = Option.bind (List.find (\<lambda>r. lr_entropy r = e) tbl) (row_view bt)"

definition lnc_ok ::
    "('k, 'p) btcec_ops \<Rightarrow> txExecutorOptions \<Rightarrow> lnc_table tx_env \<Rightarrow> lnc_table \<Rightarrow> bool" where
  "lnc_ok bt opts env tbl \<longleftrightarrow> healthy_tx env \<and> 0 < numRetries opts \<and> btcec_lib bt \<and>
     (\<forall>r \<in> set tbl. row_view bt r \<noteq> None)"

lemma row_view_some: "row_view bt r = Some x \<longleftrightarrow> session_of_row bt r = Inr x"
  by (auto simp: row_view_def split: sum.splits)

lemma row_view_remote:
  assumes "btcec_lib bt" and "row_view bt r \<noteq> None"
  shows "row_view bt (r\<lparr>lr_remote_key := Some (bt_SerializeCompressed bt p)\<rparr>) =
     map_option (\<lambda>x. x\<lparr>RemoteStaticPubKey := Some p\<rparr>) (row_view bt r)"
  using assms by (auto simp: row_view_def session_of_row_def Let_def btcec_lib_def split: option.splits sum.splits)

lemma row_view_expiry:
  "row_view bt (r\<lparr>lr_expiry := Some t\<rparr>) = map_option (\<lambda>x. x\<lparr>Expiry := Some t\<rparr>) (row_view bt r)"
  by (auto simp: row_view_def session_of_row_def Let_def split: option.splits sum.splits)

lemma lnc_view_update:
  assumes "\<And>r. r \<in> set tbl \<Longrightarrow> lr_entropy (f r) = lr_entropy r \<and> row_view bt (f r) = map_option g (row_view bt r)"
  shows "lnc_view bt (map (\<lambda>r. if lr_entropy r = e then f r else r) tbl) =
     (lnc_view bt tbl)(e := map_option g (lnc_view bt tbl e))"
proof
  fix q
  show "lnc_view bt (map (\<lambda>r. if lr_entropy r = e then f r else r) tbl) q =
      ((lnc_view bt tbl)(e := map_option g (lnc_view bt tbl e))) q"
    using assms by (induction tbl) (auto simp: lnc_view_def)
qed

lemma lnc_view_key: "lnc_view bt tbl e = Some x \<Longrightarrow> PassphraseEntropy x = e"
proof -
  assume "lnc_view bt tbl e = Some x"
  then obtain r where r: "List.find (\<lambda>r. lr_entropy r = e) tbl = Some r" and x: "session_of_row bt r = Inr x"
    by (auto simp: lnc_view_def row_view_some bind_eq_Some_conv)
  from x have "PassphraseEntropy x = lr_entropy r"
    by (cases "lr_remote_key r") (auto simp: session_of_row_def Let_def split: sum.splits)
  with find_SomeD [OF r] show "PassphraseEntropy x = e" by simp
qed

lemma lnc_view_wf:
  assumes "lnc_ok bt opts env tbl"
  shows "List.find (\<lambda>r. lr_entropy r = e) tbl = Some r \<Longrightarrow> \<exists>x. session_of_row bt r = Inr x \<and> lnc_view bt tbl e = Some x"
  using assms find_SomeD [of "\<lambda>r. lr_entropy r = e" tbl r]
  by (auto simp: lnc_ok_def lnc_view_def row_view_some)

lemma GetSession_healthy:
  assumes "lnc_ok bt opts env tbl"
  shows "GetSession bt opts env e tbl =
     (tbl, case lnc_view bt tbl e of Some x \<Rightarrow> Inr x
           | None \<Rightarrow> Inl (Wrap ''failed to get session'' (Sentinel ErrSessionNotFound)))"
proof -
  have body: "get_session_body bt e tbl =
      (case lnc_view bt tbl e of Some x \<Rightarrow> Inr (tbl, x) | None \<Rightarrow> Inl (Sentinel ErrSessionNotFound))"
    using lnc_view_wf [OF assms, of e]
    by (cases "List.find (\<lambda>r. lr_entropy r = e) tbl") (auto simp: get_session_body_def GetSession_q_def lnc_view_def)
  have "ExecTx opts True env (get_session_body bt e) tbl =
      (case get_session_body bt e tbl of Inl err \<Rightarrow> (tbl, Inl (MapSQLError err)) | Inr (d', x) \<Rightarrow> (d', Inr x))"
    using assms by (intro ExecTx_healthy) (auto simp: lnc_ok_def body split: option.splits)
  then show ?thesis by (auto simp: GetSession_def body split: option.splits)
qed

lemma unique_mapped: "\<not> is_serialization (MapSQLError (PgError pg_UniqueViolation))"
  by (simp add: MapSQLError_def parsePostgresError_def)

lemma AddSession_healthy:
  assumes "lnc_ok bt opts env tbl" and "AddSession bt opts env now x tbl = (tbl', r)"
  shows "(\<exists>k row. r = Inr (x\<lparr>CreatedAt := truncate_micro now\<rparr>) \<and> LocalStaticPrivKey x = Some k \<and> tbl' = tbl @ [row] \<and>
      row = \<lparr>lr_words = PassphraseWords x, lr_entropy = PassphraseEntropy x, lr_remote_key = None,
         lr_local_key = bt_Serialize bt k, lr_mailbox = MailboxAddr x, lr_created_at = truncate_micro now,
         lr_expiry = None, lr_dev_server = DevServer x\<rparr> \<and>
      (\<forall>q \<in> set tbl. lr_entropy q \<noteq> PassphraseEntropy x)) \<or> (\<exists>e. r = Inl e \<and> tbl' = tbl)"
proof -
  have "ExecTx opts False env (InsertSession row) tbl =
      (case InsertSession row tbl of Inl err \<Rightarrow> (tbl, Inl (MapSQLError err)) | Inr (d', x) \<Rightarrow> (d', Inr x))" for row
    using assms(1) unique_mapped by (intro ExecTx_healthy) (auto simp: lnc_ok_def InsertSession_def split: if_splits)
  with assms(2) show ?thesis
    by (auto simp: AddSession_def Let_def InsertSession_def list_ex_iff split: option.splits if_splits)
qed

lemma SetRemotePubKey_healthy:
  assumes "lnc_ok bt opts env tbl" and "SetRemotePubKey opts env e key tbl = (tbl', r)"
  shows "r = Inr () \<and> tbl' = map (\<lambda>r. if lr_entropy r = e then r\<lparr>lr_remote_key := Some key\<rparr> else r) tbl \<or>
     (\<exists>err. r = Inl err \<and> tbl' = tbl)"
proof -
  have "ExecTx opts False env (SetRemotePubKey_q e key) tbl =
      (case SetRemotePubKey_q e key tbl of Inl err \<Rightarrow> (tbl, Inl (MapSQLError err)) | Inr (d', x) \<Rightarrow> (d', Inr x))"
    using assms(1) unique_mapped by (intro ExecTx_healthy) (auto simp: lnc_ok_def SetRemotePubKey_q_def split: if_splits)
  with assms(2) show ?thesis by (auto simp: SetRemotePubKey_def SetRemotePubKey_q_def split: if_splits)
qed

interpretation lnc_db: session_store "lnc_store_ops bt opts env now" "bt_SerializeCompressed bt" "lnc_ok bt opts env" "lnc_view bt"
proof
  fix s e x assume "lnc_view bt s e = Some x"
  then show "PassphraseEntropy x = e" by (rule lnc_view_key)
next
  fix s e assume "lnc_ok bt opts env s"
  then show "so_GetSession (lnc_store_ops bt opts env now) e s =
      (s, case lnc_view bt s e of Some x \<Rightarrow> Inr x
          | None \<Rightarrow> Inl (Wrap ''failed to get session'' (Sentinel ErrSessionNotFound)))"
    by (simp add: lnc_store_ops_def GetSession_healthy)
next
  fix s x s' err assume "lnc_ok bt opts env s" "so_AddSession (lnc_store_ops bt opts env now) x s = (s', Inl err)"
  then show "s' = s" using AddSession_healthy [of bt opts env s now x s'] by (auto simp: lnc_store_ops_def)
next
  fix s x s' x'
  assume ok: "lnc_ok bt opts env s" and f: "fresh_session x"
    and "so_AddSession (lnc_store_ops bt opts env now) x s = (s', Inr x')"
  then obtain k row where x': "x' = x\<lparr>CreatedAt := truncate_micro now\<rparr>" and k: "LocalStaticPrivKey x = Some k"
    and s': "s' = s @ [row]" and row: "row = \<lparr>lr_words = PassphraseWords x, lr_entropy = PassphraseEntropy x, lr_remote_key = None,
         lr_local_key = bt_Serialize bt k, lr_mailbox = MailboxAddr x, lr_created_at = truncate_micro now,
         lr_expiry = None, lr_dev_server = DevServer x\<rparr>"
    and new: "\<forall>q \<in> set s. lr_entropy q \<noteq> PassphraseEntropy x"
    using AddSession_healthy [OF ok, of now x s' "Inr x'"] by (auto simp: lnc_store_ops_def)
  have rv: "row_view bt row = Some x'"
    using ok f k by (simp add: row x' row_view_def session_of_row_def lnc_ok_def btcec_lib_def fresh_session_def)
  have none: "List.find (\<lambda>r. lr_entropy r = PassphraseEntropy x) s = None" using new by (auto simp: find_None_iff)
  have "lnc_view bt s' = (lnc_view bt s)(PassphraseEntropy x \<mapsto> x')"
    using none rv by (auto simp: fun_eq_iff lnc_view_def s' find_append row split: option.splits)
  moreover have "\<exists>c. x' = x\<lparr>CreatedAt := c\<rparr>" using x' by blast
  ultimately show "lnc_ok bt opts env s' \<and> lnc_view bt s (PassphraseEntropy x) = None \<and>
      lnc_view bt s' = (lnc_view bt s)(PassphraseEntropy x \<mapsto> x') \<and> (\<exists>c. x' = x\<lparr>CreatedAt := c\<rparr>)"
    using ok rv none by (simp add: lnc_ok_def s' lnc_view_def)
next
  fix s e p s' assume ok: "lnc_ok bt opts env s"
    and set: "so_SetRemotePubKey (lnc_store_ops bt opts env now) e (bt_SerializeCompressed bt p) s = (s', Inr ())"
  let ?k = "bt_SerializeCompressed bt p"
  from SetRemotePubKey_healthy [OF ok, of e ?k s' "Inr ()"] set
  have s': "s' = map (\<lambda>r. if lr_entropy r = e then r\<lparr>lr_remote_key := Some ?k\<rparr> else r) s"
    by (auto simp: lnc_store_ops_def)
  have rv: "row_view bt (r\<lparr>lr_remote_key := Some ?k\<rparr>) = map_option (\<lambda>x. x\<lparr>RemoteStaticPubKey := Some p\<rparr>) (row_view bt r)"
    if "r \<in> set s" for r using that ok row_view_remote [of bt r p] by (simp add: lnc_ok_def)
  have "lnc_view bt s' = (lnc_view bt s)(e := map_option (\<lambda>x. x\<lparr>RemoteStaticPubKey := Some p\<rparr>) (lnc_view bt s e))"
    unfolding s' using rv by (intro lnc_view_update) simp
  with ok rv show "lnc_ok bt opts env s' \<and>
      lnc_view bt s' = (lnc_view bt s)(e := map_option (\<lambda>x. x\<lparr>RemoteStaticPubKey := Some p\<rparr>) (lnc_view bt s e))"
    by (auto simp: lnc_ok_def s')
next
  fix s e p s' err assume "lnc_ok bt opts env s"
    "so_SetRemotePubKey (lnc_store_ops bt opts env now) e (bt_SerializeCompressed bt p) s = (s', Inl err)"
  then show "s' = s"
    using SetRemotePubKey_healthy [of bt opts env s e "bt_SerializeCompressed bt p" s' "Inl err"]
    by (auto simp: lnc_store_ops_def)
next
  fix s e t s' r assume ok: "lnc_ok bt opts env s" and set: "so_SetExpiry (lnc_store_ops bt opts env now) e t s = (s', r)"
  then have s': "s' = map (\<lambda>r. if lr_entropy r = e then r\<lparr>lr_expiry := Some t\<rparr> else r) s" "r = Inr ()"
    using ExecTx_write [of env opts False "SetExpiry_q e t" "()" s]
    by (simp_all add: lnc_store_ops_def SetExpiry_def SetExpiry_q_def lnc_ok_def)
  have "lnc_view bt s' = (lnc_view bt s)(e := map_option (\<lambda>x. x\<lparr>Expiry := Some t\<rparr>) (lnc_view bt s e))"
    unfolding s' by (rule lnc_view_update) (simp add: row_view_expiry)
  with ok s' show "lnc_ok bt opts env s' \<and> r = Inr () \<and>
      lnc_view bt s' = (lnc_view bt s)(e := map_option (\<lambda>x. x\<lparr>Expiry := Some t\<rparr>) (lnc_view bt s e))"
    by (auto simp: lnc_ok_def row_view_expiry)
qed

end
