(* ===== verification/Lnc_Node.thy ===== *)
theory Lnc_Node
  imports Lnc_Store Macaroon_Lib
begin

text \<open>
  \<^verbatim>\<open>aperture/lnc/lnc.go\<close>: a node connection over a mailbox. \<^verbatim>\<open>NewNodeConn\<close> finds or makes
  the session of a passphrase and dials; while it dials, the mailbox library calls back with
  the static key of the peer and with its authentication data, and both callbacks write to the
  session store. The mailbox library, gRPC and the expiry of a macaroon (\<^verbatim>\<open>checkers\<close>) are
  parameters.
\<close>

definition HeaderMacaroon_lnc :: string where "HeaderMacaroon_lnc = ''Macaroon''"

text \<open>
  A connection has the client of the node, which talks to the address that was dialled, and the
  cancel function of its context. It closes once; the first close returns what gRPC returned.
\<close>

record conn =
  cn_client :: string
  cn_closed :: bool
  cn_cancelled :: bool

record ('k, 'p) NodeConn =
  nc_session :: "('k, 'p) Session"
  nc_conn :: "conn option"
  nc_macStr :: string

definition conn_Close :: "go_error option \<Rightarrow> conn \<Rightarrow> conn \<times> unit result" where
  "conn_Close grpcErr c =
     (if cn_closed c then (c, Inr ())
      else (c\<lparr>cn_closed := True, cn_cancelled := True\<rparr>, case grpcErr of None \<Rightarrow> Inr () | Some e \<Rightarrow> Inl e))"

definition CloseConn :: "go_error option \<Rightarrow> ('k, 'p) NodeConn \<Rightarrow> ('k, 'p) NodeConn \<times> unit result" where
  "CloseConn grpcErr n =
     (case nc_conn n of
        None \<Rightarrow> (n, Inl (Errorf ''connection not open''))
      | Some c \<Rightarrow>
          (case conn_Close grpcErr c of
             (c', Inl e) \<Rightarrow> (n\<lparr>nc_conn := Some c'\<rparr>, Inl (Wrap ''unable to close connection'' e))
           | (c', Inr _) \<Rightarrow> (n\<lparr>nc_conn := Some c'\<rparr>, Inr ())))"

definition NodeConn_Stop :: "go_error option \<Rightarrow> ('k, 'p) NodeConn \<Rightarrow> ('k, 'p) NodeConn \<times> unit result" where
  "NodeConn_Stop grpcErr n = (if nc_conn n \<noteq> None then CloseConn grpcErr n else (n, Inr ()))"

definition Client :: "('k, 'p) NodeConn \<Rightarrow> string result" where
  "Client n = (case nc_conn n of None \<Rightarrow> Inl (Errorf ''connection not open'') | Some c \<Rightarrow> Inr (cn_client c))"

text \<open>The outgoing metadata of the context, as key and value pairs.\<close>

definition CtxFunc :: "('k, 'p) NodeConn \<Rightarrow> (string \<times> string) list" where
  "CtxFunc n = [] @ [(HeaderMacaroon_lnc, nc_macStr n)]"

subsection \<open>The callbacks of the handshake\<close>

definition onRemoteStatic ::
    "('k, 'p) btcec_ops \<Rightarrow> ('s, 'k, 'p) session_ops \<Rightarrow> ('k, 'p) NodeConn \<Rightarrow> 'p \<Rightarrow> 's \<Rightarrow> 's \<times> unit result" where
  "onRemoteStatic bt so n key s =
     so_SetRemotePubKey so (PassphraseEntropy (nc_session n)) (bt_SerializeCompressed bt key) s"

definition extractMacaroon :: "'m macaroon_ops \<Rightarrow> bytes \<Rightarrow> 'm result" where
  "extractMacaroon mo authData =
     (case split_seq '': '' authData of
        [p, q] \<Rightarrow>
          if p \<noteq> HeaderMacaroon_lnc then Inl (Errorf ''authdata does not contain a macaroon'')
          else rbind (hex_decode q) (\<lambda>macBytes.
            if macBytes = [] then Inl (Errorf ''no macaroon received during connman'')
            else (case mac_UnmarshalBinary mo macBytes of
                    Inl e \<Rightarrow> Inl (Errorf ''unable to decode macaroon'')
                  | Inr mac \<Rightarrow> Inr mac))
      | _ \<Rightarrow> Inl (Errorf ''authdata does not contain a macaroon''))"

text \<open>\<open>expiryTime\<close> is \<^verbatim>\<open>checkers.ExpiryTime\<close>; a failing \<^verbatim>\<open>SetExpiry\<close> is only logged.\<close>

definition onAuthData ::
    "'m macaroon_ops \<Rightarrow> ('m \<Rightarrow> time option) \<Rightarrow> ('s, 'k, 'p) session_ops \<Rightarrow> ('k, 'p) NodeConn \<Rightarrow> bytes \<Rightarrow> 's
       \<Rightarrow> 's \<times> ('k, 'p) NodeConn \<times> unit result" where
  "onAuthData mo expiryTime so n data s =
     (case extractMacaroon mo data of
        Inl e \<Rightarrow> (s, n, Inl e)
      | Inr mac \<Rightarrow>
          (case mac_MarshalBinary mo mac of
             Inl e \<Rightarrow> (s, n, Inl e)
           | Inr macBytes \<Rightarrow>
               let n1 = n\<lparr>nc_macStr := hex_encode macBytes\<rparr> in
               if Expiry (nc_session n1) \<noteq> None then (s, n1, Inr ())
               else (case expiryTime mac of
                       None \<Rightarrow> (s, n1, Inr ())
                     | Some expiry \<Rightarrow>
                         let n2 = n1\<lparr>nc_session := (nc_session n1)\<lparr>Expiry := Some expiry\<rparr>\<rparr>;
                             (s', r) = so_SetExpiry so (PassphraseEntropy (nc_session n2)) expiry s
                         in (s', n2, Inr ()))))"

subsection \<open>Opening a connection\<close>

record tls_config =
  InsecureSkipVerify :: bool

record ('k, 'p) ConnData =
  cd_localKey :: "'k option"
  cd_remoteKey :: "'p option"
  cd_entropy :: bytes
  cd_authData :: "bytes option"

text \<open>
  The mailbox transport and the dialling of gRPC through it. Dialling blocks until the handshake
  is over, so it is given the two callbacks and the state they change.
\<close>

record ('st, 'k, 'p) mailbox_ops =
  mb_NewGrpcClient :: "tls_config \<Rightarrow> string \<Rightarrow> ('k, 'p) ConnData \<Rightarrow> unit result"
  mb_DialContext :: "string \<Rightarrow> ('k, 'p) ConnData \<Rightarrow> ('p \<Rightarrow> 'st \<Rightarrow> 'st \<times> unit result) \<Rightarrow>
    (bytes \<Rightarrow> 'st \<Rightarrow> 'st \<times> unit result) \<Rightarrow> 'st \<Rightarrow> 'st \<times> unit result"

text \<open>What the callbacks use: the curve, the macaroons, \<^verbatim>\<open>checkers.ExpiryTime\<close> and the store.\<close>

record ('m, 's, 'k, 'p) node_env =
  ne_bt :: "('k, 'p) btcec_ops"
  ne_mo :: "'m macaroon_ops"
  ne_expiry :: "'m \<Rightarrow> time option"
  ne_store :: "('s, 'k, 'p) session_ops"

type_synonym ('s, 'k, 'p) node_state = "'s \<times> ('k, 'p) NodeConn"

definition remote_cb ::
    "('m, 's, 'k, 'p) node_env \<Rightarrow> 'p \<Rightarrow> ('s, 'k, 'p) node_state \<Rightarrow> ('s, 'k, 'p) node_state \<times> unit result" where
  "remote_cb ne key st =
     (let (s', r) = onRemoteStatic (ne_bt ne) (ne_store ne) (snd st) key (fst st) in ((s', snd st), r))"

definition auth_cb ::
    "('m, 's, 'k, 'p) node_env \<Rightarrow> bytes \<Rightarrow> ('s, 'k, 'p) node_state \<Rightarrow> ('s, 'k, 'p) node_state \<times> unit result" where
  "auth_cb ne data st =
     (let (s', n', r) = onAuthData (ne_mo ne) (ne_expiry ne) (ne_store ne) (snd st) data (fst st) in ((s', n'), r))"

text \<open>
  \<^verbatim>\<open>newConn\<close> returns the state the callbacks leave, whether the context it made has been
  cancelled, and the connection or the error.
\<close>

definition newConn ::
    "(('s, 'k, 'p) node_state, 'k, 'p) mailbox_ops \<Rightarrow> ('m, 's, 'k, 'p) node_env \<Rightarrow> ('k, 'p) Session
       \<Rightarrow> ('s, 'k, 'p) node_state \<Rightarrow> ('s, 'k, 'p) node_state \<times> bool \<times> conn result" where
  "newConn mb ne session st =
     (let connData = \<lparr>cd_localKey = LocalStaticPrivKey session, cd_remoteKey = RemoteStaticPubKey session,
            cd_entropy = PassphraseEntropy session, cd_authData = None\<rparr>;
          tlsConfig = (if DevServer session then \<lparr>InsecureSkipVerify = True\<rparr> else \<lparr>InsecureSkipVerify = False\<rparr>)
      in case mb_NewGrpcClient mb tlsConfig (MailboxAddr session) connData of
           Inl e \<Rightarrow> (st, True, Inl e)
         | Inr _ \<Rightarrow>
             (case mb_DialContext mb (MailboxAddr session) connData (remote_cb ne) (auth_cb ne) st of
                (st', Inl e) \<Rightarrow> (st', True, Inl e)
              | (st', Inr _) \<Rightarrow>
                  (st', False, Inr \<lparr>cn_client = MailboxAddr session, cn_closed = False, cn_cancelled = False\<rparr>)))"

text \<open>\<open>newKey\<close> is the freshly generated key or the error.\<close>

definition node_session ::
    "('s, 'k, 'p) session_ops \<Rightarrow> 'k result \<Rightarrow> ('k, 'p) Session \<Rightarrow> 's \<Rightarrow> 's \<times> ('k, 'p) Session result" where
  "node_session so newKey session s =
     (case so_GetSession so (PassphraseEntropy session) s of
        (s1, Inr dbSession) \<Rightarrow> (s1, Inr dbSession)
      | (s1, Inl err) \<Rightarrow>
          if errors_is err ErrSessionNotFound then
            (case newKey of
               Inl e \<Rightarrow> (s1, Inl (Wrap ''unable to generate local static key'' e))
             | Inr localStatic \<Rightarrow>
                 (case so_AddSession so (session\<lparr>LocalStaticPrivKey := Some localStatic\<rparr>) s1 of
                    (s2, Inl e) \<Rightarrow> (s2, Inl (Wrap ''unable to add new session'' e))
                  | (s2, Inr session') \<Rightarrow> (s2, Inr session')))
          else (s1, Inl (Wrap ''unable to get session'' err)))"

definition NewNodeConn ::
    "(('s, 'k, 'p) node_state, 'k, 'p) mailbox_ops \<Rightarrow> ('m, 's, 'k, 'p) node_env \<Rightarrow> 'k result \<Rightarrow> ('k, 'p) Session
       \<Rightarrow> 's \<Rightarrow> 's \<times> ('k, 'p) NodeConn result" where
  "NewNodeConn mb ne newKey session s =
     (case node_session (ne_store ne) newKey session s of
        (s1, Inl e) \<Rightarrow> (s1, Inl e)
      | (s1, Inr sess) \<Rightarrow>
          (case newConn mb ne sess (s1, \<lparr>nc_session = sess, nc_conn = None, nc_macStr = []\<rparr>) of
             ((s2, nodeConn), _, Inl e) \<Rightarrow> (s2, Inl e)
           | ((s2, nodeConn), _, Inr c) \<Rightarrow> (s2, Inr (nodeConn\<lparr>nc_conn := Some c\<rparr>))))"


subsection \<open>What a handshake may do\<close>

datatype 'p hs_event = RemoteStatic 'p | AuthData bytes

fun run_callbacks ::
    "('p \<Rightarrow> 'st \<Rightarrow> 'st \<times> unit result) \<Rightarrow> (bytes \<Rightarrow> 'st \<Rightarrow> 'st \<times> unit result) \<Rightarrow> 'p hs_event list \<Rightarrow> 'st \<Rightarrow> 'st" where
  "run_callbacks f g [] st = st"
| "run_callbacks f g (RemoteStatic p # evs) st = run_callbacks f g evs (fst (f p st))"
| "run_callbacks f g (AuthData b # evs) st = run_callbacks f g evs (fst (g b st))"

text \<open>
  The mailbox library touches the node connection only through the two callbacks, which it may
  call any number of times in any order before it succeeds or fails.
\<close>

definition dials_by_callbacks :: "('st, 'k, 'p) mailbox_ops \<Rightarrow> bool" where
  "dials_by_callbacks mb \<longleftrightarrow>
     (\<forall>addr cd f g st. \<exists>evs. fst (mb_DialContext mb addr cd f g st) = run_callbacks f g evs st)"

lemma newConn_by_callbacks:
  assumes "dials_by_callbacks mb" and "newConn mb ne session st = (st', c, r)"
  shows "\<exists>evs. st' = run_callbacks (remote_cb ne) (auth_cb ne) evs st"
proof -
  let ?cd = "\<lparr>cd_localKey = LocalStaticPrivKey session, cd_remoteKey = RemoteStaticPubKey session,
            cd_entropy = PassphraseEntropy session, cd_authData = None\<rparr>"
  obtain evs where "fst (mb_DialContext mb (MailboxAddr session) ?cd (remote_cb ne) (auth_cb ne) st) =
      run_callbacks (remote_cb ne) (auth_cb ne) evs st"
    using assms(1) unfolding dials_by_callbacks_def by blast
  then have dial: "\<exists>evs. st2 = run_callbacks (remote_cb ne) (auth_cb ne) evs st"
    if "mb_DialContext mb (MailboxAddr session) ?cd (remote_cb ne) (auth_cb ne) st = (st2, r2)" for st2 r2
    using that by (metis fst_conv)
  have stay: "\<exists>evs. st2 = run_callbacks (remote_cb ne) (auth_cb ne) evs st2" for st2
    by (rule exI [of _ "[]"]) simp
  show ?thesis
    using assms(2) unfolding newConn_def Let_def
    by (auto simp: stay dial split: sum.splits prod.splits)
qed

text \<open>A context is cancelled exactly when no connection is returned.\<close>

lemma newConn_cancels: "newConn mb ne session st = (st', c, r) \<Longrightarrow> c \<longleftrightarrow> isl r"
  by (auto simp: newConn_def Let_def split: sum.splits prod.splits)

text \<open>
  Between the connection in memory and the store: the stored session is the one in memory, apart
  from the key of the peer, which the callback writes to the store only. In memory a handshake
  changes a session by learning its expiry once.
\<close>

definition same_but_remote :: "('k, 'p) Session \<Rightarrow> ('k, 'p) Session \<Rightarrow> bool" where
  "same_but_remote x y \<longleftrightarrow> (\<exists>p. x = y\<lparr>RemoteStaticPubKey := p\<rparr>)"

lemma same_but_remote_refl [simp]: "same_but_remote x x"
  by (auto simp: same_but_remote_def intro: exI [of _ "RemoteStaticPubKey x"])

lemma same_but_remote_update:
  "same_but_remote x y \<Longrightarrow> same_but_remote (x\<lparr>RemoteStaticPubKey := q\<rparr>) y"
  "same_but_remote x y \<Longrightarrow> same_but_remote (x\<lparr>Expiry := t\<rparr>) (y\<lparr>Expiry := t\<rparr>)"
  by (cases y; auto simp: same_but_remote_def)+

definition session_saved ::
    "('s \<Rightarrow> bool) \<Rightarrow> ('s \<Rightarrow> bytes \<rightharpoonup> ('k, 'p) Session) \<Rightarrow> ('s, 'k, 'p) node_state \<Rightarrow> bool" where
  "session_saved ok view st \<longleftrightarrow> ok (fst st) \<and>
     (\<exists>x. view (fst st) (PassphraseEntropy (nc_session (snd st))) = Some x \<and> same_but_remote x (nc_session (snd st)))"

definition expiry_learnt :: "('k, 'p) Session \<Rightarrow> ('k, 'p) Session \<Rightarrow> bool" where
  "expiry_learnt x y \<longleftrightarrow> y = x \<or> Expiry x = None \<and> (\<exists>t. y = x\<lparr>Expiry := Some t\<rparr>)"

lemma expiry_learnt_refl [simp]: "expiry_learnt x x"
  by (simp add: expiry_learnt_def)

lemma expiry_learnt_trans: "expiry_learnt x y \<Longrightarrow> expiry_learnt y z \<Longrightarrow> expiry_learnt x z"
  by (auto simp: expiry_learnt_def simp del: split_paired_Ex)

lemma expiry_learnt_entropy: "expiry_learnt x y \<Longrightarrow> PassphraseEntropy y = PassphraseEntropy x"
  by (auto simp: expiry_learnt_def)

text \<open>Authentication data leaves the session as it is, or has its expiry saved.\<close>

lemma auth_cb_cases:
  "(\<exists>n' r. auth_cb ne b (s, n) = ((s, n'), r) \<and> nc_session n' = nc_session n) \<or>
   (\<exists>t s' r n' r'. so_SetExpiry (ne_store ne) (PassphraseEntropy (nc_session n)) t s = (s', r) \<and>
      Expiry (nc_session n) = None \<and> auth_cb ne b (s, n) = ((s', n'), r') \<and>
      nc_session n' = (nc_session n)\<lparr>Expiry := Some t\<rparr>)"
proof (cases "extractMacaroon (ne_mo ne) b")
  case (Inr mac)
  show ?thesis
  proof (cases "mac_MarshalBinary (ne_mo ne) mac")
    case marshalled: (Inr macBytes)
    show ?thesis
    proof (cases "Expiry (nc_session n) = None")
      case True
      with Inr marshalled show ?thesis
        by (cases "ne_expiry ne mac")
          (auto simp: auth_cb_def onAuthData_def simp del: split_paired_Ex split: prod.splits)
    qed (use Inr marshalled in \<open>auto simp: auth_cb_def onAuthData_def\<close>)
  qed (use Inr in \<open>auto simp: auth_cb_def onAuthData_def\<close>)
qed (auto simp: auth_cb_def onAuthData_def)

context session_store
begin

lemma remote_cb_saved:
  assumes "ne_store ne = so" and "bt_SerializeCompressed (ne_bt ne) = enc" and "session_saved ok view st"
  shows "session_saved ok view (fst (remote_cb ne p st)) \<and> snd (fst (remote_cb ne p st)) = snd st"
proof -
  let ?e = "PassphraseEntropy (nc_session (snd st))"
  obtain s' r where set: "so_SetRemotePubKey so ?e (enc p) (fst st) = (s', r)" by force
  have cb: "fst (remote_cb ne p st) = (s', snd st)"
    using set assms(1,2) by (simp add: remote_cb_def onRemoteStatic_def)
  have ok: "ok (fst st)" using assms(3) by (simp add: session_saved_def)
  show ?thesis
  proof (cases r)
    case (Inl err)
    with set have "s' = fst st" using remote_error [OF ok] by blast
    then show ?thesis using cb assms(3) by simp
  next
    case (Inr u)
    with set have "so_SetRemotePubKey so ?e (enc p) (fst st) = (s', Inr ())" by simp
    from remote_spec [OF ok this] assms(3) cb show ?thesis
      by (auto simp: session_saved_def same_but_remote_update)
  qed
qed

lemma auth_cb_saved:
  assumes "ne_store ne = so" and "session_saved ok view st"
  shows "session_saved ok view (fst (auth_cb ne b st)) \<and>
     expiry_learnt (nc_session (snd st)) (nc_session (snd (fst (auth_cb ne b st))))"
proof -
  obtain s n where st: "st = (s, n)" by force
  have saved: "ok s" "\<exists>x. view s (PassphraseEntropy (nc_session n)) = Some x \<and> same_but_remote x (nc_session n)"
    using assms(2) by (simp_all add: session_saved_def st)
  from auth_cb_cases [of ne b s n] consider
    (same) n' r where "auth_cb ne b st = ((s, n'), r)" "nc_session n' = nc_session n"
    | (set) t s' r n' r' where "so_SetExpiry so (PassphraseEntropy (nc_session n)) t s = (s', r)"
        "Expiry (nc_session n) = None" "auth_cb ne b st = ((s', n'), r')"
        "nc_session n' = (nc_session n)\<lparr>Expiry := Some t\<rparr>"
    unfolding st assms(1) by blast
  then show ?thesis
  proof cases
    case same
    with saved show ?thesis by (simp add: session_saved_def st)
  next
    case set
    from expiry_spec [OF saved(1) set(1)] saved(2) set(2-4) show ?thesis
      by (auto simp: session_saved_def same_but_remote_update st expiry_learnt_def simp del: split_paired_Ex)
  qed
qed

lemma run_callbacks_saved:
  assumes "ne_store ne = so" and "bt_SerializeCompressed (ne_bt ne) = enc" and "session_saved ok view st"
  shows "session_saved ok view (run_callbacks (remote_cb ne) (auth_cb ne) evs st) \<and>
     expiry_learnt (nc_session (snd st)) (nc_session (snd (run_callbacks (remote_cb ne) (auth_cb ne) evs st)))"
  using assms(3)
proof (induction "remote_cb ne" "auth_cb ne" evs st rule: run_callbacks.induct)
  case (2 p evs st)
  with remote_cb_saved [OF assms(1,2), of st p] show ?case by auto
next
  case (3 b evs st)
  with auth_cb_saved [OF assms(1), of st b] show ?case by (auto intro: expiry_learnt_trans)
qed simp

lemma node_session_stored:
  assumes "ok s" and "fresh_session x" and "node_session so newKey x s = (s', Inr y)"
  shows "ok s' \<and> view s' (PassphraseEntropy x) = Some y"
proof (cases "view s (PassphraseEntropy x)")
  case (Some y)
  with assms get_spec [OF assms(1), of "PassphraseEntropy x"] show ?thesis
    by (auto simp: node_session_def split: sum.splits)
next
  case None
  with assms(3) get_spec [OF assms(1), of "PassphraseEntropy x"] obtain k where
    a: "so_AddSession so (x\<lparr>LocalStaticPrivKey := Some k\<rparr>) s = (s', Inr y)"
    by (auto simp: node_session_def split: sum.splits prod.splits)
  have "fresh_session (x\<lparr>LocalStaticPrivKey := Some k\<rparr>)" using assms(2) by (simp add: fresh_session_def)
  from add_spec [OF assms(1) this a] show ?thesis by simp
qed

lemma NewNodeConn_saved:
  assumes "ne_store ne = so" and "bt_SerializeCompressed (ne_bt ne) = enc" and "dials_by_callbacks mb"
    and "ok s" and "fresh_session x" and "NewNodeConn mb ne newKey x s = (s', Inr n)"
  shows "\<exists>s1 y. node_session so newKey x s = (s1, Inr y) \<and> session_saved ok view (s', n) \<and>
     expiry_learnt y (nc_session n) \<and> PassphraseEntropy y = PassphraseEntropy x"
proof -
  obtain s1 y where ns: "node_session so newKey x s = (s1, Inr y)"
    using assms(1,6) by (auto simp: NewNodeConn_def split: sum.splits prod.splits)
  let ?st = "(s1, \<lparr>nc_session = y, nc_conn = None, nc_macStr = []\<rparr>)"
  obtain n' c k where nc: "newConn mb ne y ?st = ((s', n'), k, Inr c)" and n: "n = n'\<lparr>nc_conn := Some c\<rparr>"
    using assms(1,6) ns by (auto simp: NewNodeConn_def split: sum.splits prod.splits)
  obtain evs where evs: "(s', n') = run_callbacks (remote_cb ne) (auth_cb ne) evs ?st"
    using newConn_by_callbacks [OF assms(3) nc] by blast
  have y: "ok s1" "view s1 (PassphraseEntropy x) = Some y" "PassphraseEntropy y = PassphraseEntropy x"
    using node_session_stored [OF assms(4,5) ns] view_key by auto
  then have "session_saved ok view ?st" by (simp add: session_saved_def)
  from run_callbacks_saved [OF assms(1,2) this, of evs] show ?thesis
    using ns y(3) by (auto simp: n evs [symmetric] session_saved_def)
qed

end

text \<open>
  A passphrase has one session, which later connections resume. When a connection for a
  passphrase has been opened over the database, whatever the handshake called back, then a later
  call for the same passphrase reads the session the first one ended with, local key, creation
  time and expiry included, and the key of the peer from the table; it writes nothing before it
  dials, whatever key it would generate, and its own handshake can change the session only by
  learning an expiry that was not known.
\<close>

lemma lnc_session_resumed:
  assumes "healthy_tx env" and "0 < numRetries opts" and "btcec_lib bt" and "\<forall>r \<in> set tbl. row_view bt r \<noteq> None"
    and "ne_bt ne = bt" and "ne_store ne = lnc_store_ops bt opts env now" and "dials_by_callbacks mb"
    and "ne_bt ne' = bt" and "ne_store ne' = lnc_store_ops bt opts env now'" and "dials_by_callbacks mb'"
    and "NewSession n ent words addr dev = Inr x" and "NewSession n ent words addr' dev' = Inr y"
    and "NewNodeConn mb ne newKey x tbl = (tbl1, Inr n1)"
    and "NewNodeConn mb' ne' newKey' y tbl1 = (tbl2, Inr n2)"
  shows "\<exists>p. node_session (ne_store ne') newKey' y tbl1 = (tbl1, Inr ((nc_session n1)\<lparr>RemoteStaticPubKey := p\<rparr>)) \<and>
     expiry_learnt ((nc_session n1)\<lparr>RemoteStaticPubKey := p\<rparr>) (nc_session n2)"
proof -
  have ok: "lnc_ok bt opts env tbl" using assms(1-4) by (simp add: lnc_ok_def)
  have f: "fresh_session x" "fresh_session y" "PassphraseEntropy y = PassphraseEntropy x"
    using assms(11,12) by (auto simp: NewSession_def fresh_session_def Let_def split: if_splits)
  have enc: "bt_SerializeCompressed (ne_bt ne) = bt_SerializeCompressed bt"
    "bt_SerializeCompressed (ne_bt ne') = bt_SerializeCompressed bt" using assms(5,8) by simp_all
  from lnc_db.NewNodeConn_saved [OF assms(6) enc(1) assms(7) ok f(1) assms(13)]
  obtain p where s1: "lnc_ok bt opts env tbl1"
    and v: "lnc_view bt tbl1 (PassphraseEntropy y) = Some ((nc_session n1)\<lparr>RemoteStaticPubKey := p\<rparr>)"
    by (auto simp: session_saved_def same_but_remote_def f(3) dest: expiry_learnt_entropy)
  have ns: "node_session (ne_store ne') newKey' y tbl1 = (tbl1, Inr ((nc_session n1)\<lparr>RemoteStaticPubKey := p\<rparr>))"
    using lnc_db.get_spec [OF s1, of now' "PassphraseEntropy y"] by (simp add: node_session_def v assms(9))
  from lnc_db.NewNodeConn_saved [OF assms(9) enc(2) assms(10) s1 f(2) assms(14)] ns
  show ?thesis by (auto simp: assms(9))
qed

text \<open>The key of the peer, once received, is the one the next connection starts its handshake with.\<close>

lemma remote_key_remembered:
  assumes "lnc_ok bt opts env tbl" and "lnc_view bt tbl (PassphraseEntropy (nc_session n)) = Some x"
    and "onRemoteStatic bt (lnc_store_ops bt opts env now) n p tbl = (tbl1, Inr ())"
    and "PassphraseEntropy y = PassphraseEntropy (nc_session n)"
  shows "node_session (lnc_store_ops bt opts env now') newKey y tbl1 = (tbl1, Inr (x\<lparr>RemoteStaticPubKey := Some p\<rparr>))"
proof -
  from lnc_db.remote_spec [OF assms(1), of now _ p tbl1] assms(2,3)
  have "lnc_ok bt opts env tbl1" and "lnc_view bt tbl1 (PassphraseEntropy y) = Some (x\<lparr>RemoteStaticPubKey := Some p\<rparr>)"
    by (simp_all add: onRemoteStatic_def assms(4))
  with lnc_db.get_spec [of bt opts env tbl1 now' "PassphraseEntropy y"] show ?thesis by (simp add: node_session_def)
qed

text \<open>
  Authentication data of the form \<^verbatim>\<open>Macaroon: \<close> followed by the hexadecimal form of a
  marshalled, non-empty macaroon is decoded to that macaroon.
\<close>

lemma extractMacaroon_roundtrip:
  assumes "macaroon_lib mo" and "mac_MarshalBinary mo m = Inr b" and "b \<noteq> []"
  shows "extractMacaroon mo (''Macaroon: '' @ hex_encode b) = Inr m"
proof -
  have colon: "CHR '':'' \<notin> set (hex_encode b)"
    using hex_encode_alphabet [of "CHR '':''" b] by (auto simp: is_lower_hex_def byte_val_def)
  have "split_seq '': '' (''Macaroon'' @ '': '' @ hex_encode b) = [''Macaroon'', hex_encode b]"
    by (rule split_seq_two) (use colon in auto)
  then show ?thesis using assms(3) macaroon_lib_Marshal [OF assms(1,2)] by (simp add: extractMacaroon_def HeaderMacaroon_lnc_def)
qed

text \<open>
  The authentication data the peer sends is what the client is used with afterwards: the
  metadata of \<^verbatim>\<open>CtxFunc\<close> carries the same hexadecimal macaroon.
\<close>

lemma CtxFunc_after_auth:
  assumes "macaroon_lib mo" and "mac_MarshalBinary mo m = Inr b" and "b \<noteq> []"
    and "onAuthData mo expiryTime so n (''Macaroon: '' @ hex_encode b) s = (s', n', r)"
  shows "r = Inr () \<and> CtxFunc n' = [(''Macaroon'', hex_encode b)]"
  using assms(4) extractMacaroon_roundtrip [OF assms(1-3)] assms(2)
  by (cases "expiryTime m") (auto simp: onAuthData_def CtxFunc_def HeaderMacaroon_lnc_def Let_def simp del: split_paired_Ex split: prod.splits if_splits)

lemma extractMacaroon_roundtrip_example:
  "extractMacaroon sample_macaroon_ops (''Macaroon: '' @ hex_encode (join_with (CHR '','') [hex_encode ''k'', hex_encode ''i'']))
     = Inr [''k'', ''i'']"
  by (rule extractMacaroon_roundtrip [OF sample_macaroon_lib]) (simp_all add: sample_macaroon_ops_def)

subsection \<open>A handshake\<close>

definition sample_btcec :: "(bytes, bytes) btcec_ops" where
  "sample_btcec = \<lparr>bt_PrivKeyFromBytes = (\<lambda>b. b), bt_Serialize = (\<lambda>b. b), bt_ParsePubKey = Inr,
     bt_SerializeCompressed = (\<lambda>b. b)\<rparr>"

definition sample_node_env :: "(bytes list, lnc_table, bytes, bytes) node_env" where
  "sample_node_env = \<lparr>ne_bt = sample_btcec, ne_mo = sample_macaroon_ops, ne_expiry = (\<lambda>_. None),
     ne_store = lnc_store_ops sample_btcec defaultTxExecutorOptions sample_tx_env (5, 1234)\<rparr>"

text \<open>A mailbox whose handshake delivers the key of the peer and succeeds.\<close>

definition sample_mailbox :: "((lnc_table, bytes, bytes) node_state, bytes, bytes) mailbox_ops" where
  "sample_mailbox = \<lparr>mb_NewGrpcClient = (\<lambda>_ _ _. Inr ()),
     mb_DialContext = (\<lambda>_ _ f g st. (run_callbacks f g [RemoteStatic ''peer''] st, Inr ()))\<rparr>"

lemma sample_mailbox_dials: "dials_by_callbacks sample_mailbox"
  unfolding dials_by_callbacks_def sample_mailbox_def by (metis fst_conv mailbox_ops.select_convs(2))

lemma sample_lnc_ok: "lnc_ok sample_btcec defaultTxExecutorOptions sample_tx_env []"
  by (simp add: lnc_ok_def sample_tx_env_healthy defaultTxExecutorOptions_def DefaultNumTxRetries_def
      btcec_lib_def sample_btcec_def)

lemma sample_ExecTx:
  "f d = Inr (d', x) \<Longrightarrow> ExecTx defaultTxExecutorOptions ro sample_tx_env f d = (d', Inr x)"
  using ExecTx_healthy [OF sample_tx_env_healthy, of defaultTxExecutorOptions f d ro] sample_lnc_ok
  by (simp add: lnc_ok_def)

definition sample_session :: "(bytes, bytes) Session" where
  "sample_session = \<lparr>PassphraseWords = ''a b'', PassphraseEntropy = ''ab'', RemoteStaticPubKey = None,
     LocalStaticPrivKey = None, MailboxAddr = ''m'', CreatedAt = zero_time, Expiry = None, DevServer = False\<rparr>"

definition sample_row :: "bytes option \<Rightarrow> lnc_row" where
  "sample_row p = \<lparr>lr_words = ''a b'', lr_entropy = ''ab'', lr_remote_key = p, lr_local_key = ''k1'',
     lr_mailbox = ''m'', lr_created_at = (5, 1000), lr_expiry = None, lr_dev_server = False\<rparr>"

lemma sample_handshake:
  assumes "PassphraseEntropy (nc_session n) = ''ab''"
  shows "run_callbacks (remote_cb sample_node_env) g [RemoteStatic ''peer''] ([sample_row p], n) =
     ([sample_row (Some ''peer'')], n)"
proof -
  have "SetRemotePubKey_q ''ab'' ''peer'' [sample_row p] = Inr ([sample_row (Some ''peer'')], ())"
    by (simp add: SetRemotePubKey_q_def sample_row_def)
  from sample_ExecTx [of "SetRemotePubKey_q ''ab'' ''peer''", OF this] show ?thesis
    by (simp add: remote_cb_def onRemoteStatic_def sample_node_env_def lnc_store_ops_def SetRemotePubKey_def
        sample_btcec_def assms)
qed

lemma sample_newConn:
  assumes "PassphraseEntropy (nc_session n) = ''ab''"
  shows "newConn sample_mailbox sample_node_env y ([sample_row p], n) =
     (([sample_row (Some ''peer'')], n), False, Inr \<lparr>cn_client = MailboxAddr y, cn_closed = False, cn_cancelled = False\<rparr>)"
  using sample_handshake [OF assms] by (simp add: newConn_def sample_mailbox_def del: run_callbacks.simps)

lemma sample_first:
  "NewNodeConn sample_mailbox sample_node_env (Inr ''k1'') sample_session [] =
     ([sample_row (Some ''peer'')], Inr
        \<lparr>nc_session = sample_session\<lparr>LocalStaticPrivKey := Some ''k1'', CreatedAt := (5, 1000)\<rparr>,
         nc_conn = Some \<lparr>cn_client = ''m'', cn_closed = False, cn_cancelled = False\<rparr>, nc_macStr = []\<rparr>)"
proof -
  have "InsertSession (sample_row None) [] = Inr ([sample_row None], ())" by (simp add: InsertSession_def)
  from sample_ExecTx [of "InsertSession (sample_row None)", OF this, of False] have
    "AddSession sample_btcec defaultTxExecutorOptions sample_tx_env (5, 1234)
       (sample_session\<lparr>LocalStaticPrivKey := Some ''k1''\<rparr>) [] =
     ([sample_row None], Inr (sample_session\<lparr>LocalStaticPrivKey := Some ''k1'', CreatedAt := (5, 1000)\<rparr>))"
    by (simp add: AddSession_def sample_session_def sample_btcec_def sample_row_def truncate_micro_def Let_def)
  then have "node_session (ne_store sample_node_env) (Inr ''k1'') sample_session [] =
     ([sample_row None], Inr (sample_session\<lparr>LocalStaticPrivKey := Some ''k1'', CreatedAt := (5, 1000)\<rparr>))"
    using lnc_db.get_spec [OF sample_lnc_ok, of "(5, 1234)" "''ab''"]
    by (simp add: node_session_def sample_node_env_def lnc_store_ops_def lnc_view_def sample_session_def)
  then show ?thesis by (simp add: NewNodeConn_def) (simp add: sample_session_def sample_newConn)
qed

lemma sample_second:
  "\<exists>n2. NewNodeConn sample_mailbox sample_node_env (Inr ''k2'') sample_session [sample_row (Some ''peer'')] =
     ([sample_row (Some ''peer'')], Inr n2)"
proof -
  have "lnc_ok sample_btcec defaultTxExecutorOptions sample_tx_env [sample_row (Some ''peer'')]"
    using sample_lnc_ok by (simp add: lnc_ok_def sample_row_def row_view_def session_of_row_def sample_btcec_def)
  from lnc_db.get_spec [OF this, of "(5, 1234)" "''ab''"]
  have "node_session (ne_store sample_node_env) (Inr ''k2'') sample_session [sample_row (Some ''peer'')] =
     ([sample_row (Some ''peer'')], session_of_row sample_btcec (sample_row (Some ''peer'')))"
    by (simp add: node_session_def sample_node_env_def lnc_view_def row_view_def session_of_row_def sample_btcec_def
        sample_session_def sample_row_def)
  then show ?thesis
    by (simp add: NewNodeConn_def sample_newConn session_of_row_def sample_btcec_def)
      (simp add: sample_row_def sample_newConn [unfolded sample_row_def])
qed

lemma lnc_session_resumed_example:
  "LocalStaticPrivKey (nc_session (projr (snd (NewNodeConn sample_mailbox sample_node_env (Inr ''k2'') sample_session
     (fst (NewNodeConn sample_mailbox sample_node_env (Inr ''k1'') sample_session [])))))) = Some ''k1''"
proof -
  obtain n2 where 2: "NewNodeConn sample_mailbox sample_node_env (Inr ''k2'') sample_session [sample_row (Some ''peer'')] =
     ([sample_row (Some ''peer'')], Inr n2)" using sample_second by blast
  have n: "NewSession 2 concat ''a b'' ''m'' False = Inr sample_session"
    by (simp add: NewSession_def sample_session_def)
  have e: "0 < numRetries defaultTxExecutorOptions" "btcec_lib sample_btcec"
    "ne_bt sample_node_env = sample_btcec"
    "ne_store sample_node_env = lnc_store_ops sample_btcec defaultTxExecutorOptions sample_tx_env (5, 1234)"
    using sample_lnc_ok by (simp_all add: lnc_ok_def sample_node_env_def)
  from lnc_session_resumed [OF sample_tx_env_healthy e(1,2) _ e(3,4) sample_mailbox_dials e(3,4) sample_mailbox_dials n n sample_first 2]
  have "LocalStaticPrivKey (nc_session n2) = Some ''k1''" by (auto simp: expiry_learnt_def)
  with 2 show ?thesis by (simp add: sample_first)
qed

end
