(* ===== verification/Lnurl.thy ===== *)
theory Lnurl
  imports Go_Encoding
begin

text \<open>
  \<^verbatim>\<open>aperture/lnurl/lnurl.go\<close>: a recipient's lightning address and the two requests that turn it
  into an invoice. The remote server is the record \<open>lnurl_env\<close>: what \<^verbatim>\<open>http.Get\<close> returned for
  an address (a transport error, or a status code and the body as the JSON decoder read it), and
  the URL library's \<^verbatim>\<open>url.Parse\<close>, \<^verbatim>\<open>q.Set\<close> and \<^verbatim>\<open>u.String\<close> as one function.
\<close>

record Lnurl =
  Lud16 :: string
  Lnurl_url :: string

record PayerData =
  pd_Name_Mandatory :: bool
  pd_Email_Mandatory :: bool
  pd_Pubkey_Mandatory :: bool

record LnurlResponse =
  lr_Status :: string
  lr_Tag :: string
  lr_Comment :: int
  lr_Callback :: string
  lr_Metadata :: string
  lr_MinSendable :: int
  lr_MaxSendable :: int
  lr_PayerData :: PayerData
  lr_NostrPubkey :: string
  lr_AllowsNostr :: bool

record LnurlCallbackResponse =
  lc_Status :: string
  lc_SuccessAction_Tag :: string
  lc_SuccessAction_Message :: string
  lc_Verify :: string
  lc_Routes :: "(string \<times> string) list"
  lc_Pr :: string
  lc_Reason :: string

record lnurl_env =
  le_Get :: "string \<Rightarrow> (nat \<times> LnurlResponse result) result"
  le_GetCallback :: "string \<Rightarrow> (nat \<times> LnurlCallbackResponse result) result"
  le_SetQuery :: "string \<Rightarrow> string \<Rightarrow> string \<Rightarrow> string result"

definition NewLnurl :: "string \<Rightarrow> Lnurl result" where
  "NewLnurl lud16 =
     (case split_on (CHR ''@'') lud16 of
        [name, domain] \<Rightarrow> Inr \<lparr>Lud16 = lud16, Lnurl_url = ''https://'' @ domain @ ''/.well-known/lnurlp/'' @ name\<rparr>
      | _ \<Rightarrow> Inl (Errorf ''invalid lud16 format''))"

text \<open>The amount asked for, in millisatoshis: the product wraps around at 64 bits.\<close>

definition amount_msat :: "int \<Rightarrow> int" where
  "amount_msat amount_sats = wrap64 (amount_sats * 1000)"

definition GetInvoice :: "lnurl_env \<Rightarrow> Lnurl \<Rightarrow> int \<Rightarrow> string result" where
  "GetInvoice env l amount_sats =
     rbind (le_Get env (Lnurl_url l)) (\<lambda>(status, decoded).
     rbind decoded (\<lambda>body.
     rbind (ensure (status = 200 \<and> lr_Status body = ''OK'') (Errorf ''request zap endpoint error'')) (\<lambda>_.
     rbind (ensure (lr_Callback body \<noteq> []) (Errorf ''callback not found'')) (\<lambda>_.
     rbind (le_SetQuery env (lr_Callback body) ''amount'' (format_int (amount_msat amount_sats))) (\<lambda>u.
     rbind (le_GetCallback env u) (\<lambda>(status2, decoded2).
     rbind decoded2 (\<lambda>callbackBody.
     rbind (ensure (status2 = 200 \<and> lc_Status callbackBody = ''OK'')
              (Errorf ''request zap endpoint callback error'')) (\<lambda>_.
     rbind (ensure (lc_Pr callbackBody \<noteq> []) (Errorf ''invoice not found'')) (\<lambda>_.
       Inr (lc_Pr callbackBody))))))))))"

subsection \<open>Properties\<close>

lemma NewLnurl_ok_iff:
  "NewLnurl a = Inr l \<longleftrightarrow>
     (\<exists>name domain. a = name @ ''@'' @ domain \<and> CHR ''@'' \<notin> set name \<and> CHR ''@'' \<notin> set domain \<and>
        l = \<lparr>Lud16 = a, Lnurl_url = ''https://'' @ domain @ ''/.well-known/lnurlp/'' @ name\<rparr>)"
  (is "_ \<longleftrightarrow> ?R")
proof
  assume ok: "NewLnurl a = Inr l"
  then obtain name domain where s: "split_on (CHR ''@'') a = [name, domain]"
    by (auto simp: NewLnurl_def split: list.splits)
  with join_split_on [of "CHR ''@''" a] have "a = name @ ''@'' @ domain" by simp
  moreover from s split_on_parts_clean [of _ "CHR ''@''" a] have "CHR ''@'' \<notin> set name \<and> CHR ''@'' \<notin> set domain"
    by auto
  ultimately show ?R using ok s by (auto simp: NewLnurl_def)
qed (auto simp: NewLnurl_def split_on_append split_on_clean)

text \<open>An invoice is only returned when both answers were fine, and is the second answer's.\<close>

lemma GetInvoice_ok:
  assumes "GetInvoice env l amount = Inr pr"
  obtains body u cb where "le_Get env (Lnurl_url l) = Inr (200, Inr body)" and "lr_Status body = ''OK''"
    and "le_SetQuery env (lr_Callback body) ''amount'' (format_int (amount_msat amount)) = Inr u"
    and "le_GetCallback env u = Inr (200, Inr cb)" and "lc_Status cb = ''OK''" and "lc_Pr cb = pr" and "pr \<noteq> []"
  using assms unfolding GetInvoice_def by (auto simp: result_simps)

lemma amount_msat_exact: "0 \<le> a \<Longrightarrow> a < 2 ^ 63 div 1000 \<Longrightarrow> amount_msat a = 1000 * a"
  by (simp add: amount_msat_def wrap64_id in_int64_def)

end
