(* ===== verification/Secrets_Store.thy ===== *)
theory Secrets_Store
  imports Aperture_DB Lsat_Identifier
begin

text \<open>
  \<^verbatim>\<open>aperture/aperturedb/secrets.go\<close> over the queries of \<^verbatim>\<open>sqlc/secrets.sql.go\<close>: the table of
  the root keys of minted L402s. The table is the list of its rows; the column \<^verbatim>\<open>id\<close>, which no
  query reads, is left out, and a nullable time is an option.

  The interface \<^verbatim>\<open>mint.SecretStore\<close> is the record \<open>secret_ops\<close> and its contract the locale
  \<open>secret_store\<close>; the store over a database without faults interprets it.
\<close>

record secret_row =
  sr_macaroon_id_hash :: bytes
  sr_payment_hash :: bytes
  sr_secret :: bytes
  sr_settled_at :: "time option"
  sr_created_at :: time

type_synonym secrets_table = "secret_row list"

subsection \<open>Queries\<close>

text \<open>The columns \<^verbatim>\<open>macaroon_id_hash\<close> and \<^verbatim>\<open>secret\<close> are unique.\<close>

definition InsertSecret :: "secret_row \<Rightarrow> secrets_table \<Rightarrow> (secrets_table \<times> unit) result" where
  "InsertSecret row tbl =
     (if list_ex (\<lambda>r. sr_macaroon_id_hash r = sr_macaroon_id_hash row \<or> sr_secret r = sr_secret row) tbl
      then Inl (PgError pg_UniqueViolation)
      else Inr (tbl @ [row], ()))"

definition GetSecretByIdHash :: "bytes \<Rightarrow> secrets_table \<Rightarrow> bytes result" where
  "GetSecretByIdHash idHash tbl =
     (case List.find (\<lambda>r. sr_macaroon_id_hash r = idHash) tbl of
        None \<Rightarrow> Inl (Sentinel ErrNoRows) | Some r \<Rightarrow> Inr (sr_secret r))"

definition GetSettledAtByPaymentHash_q :: "bytes \<Rightarrow> secrets_table \<Rightarrow> time option result" where
  "GetSettledAtByPaymentHash_q paymentHash tbl =
     (case List.find (\<lambda>r. sr_payment_hash r = paymentHash) tbl of
        None \<Rightarrow> Inl (Sentinel ErrNoRows) | Some r \<Rightarrow> Inr (sr_settled_at r))"

definition SetSettledAtByPaymentHash_q :: "bytes \<Rightarrow> time option \<Rightarrow> secrets_table \<Rightarrow> secrets_table" where
  "SetSettledAtByPaymentHash_q paymentHash settledAt tbl =
     map (\<lambda>r. if sr_payment_hash r = paymentHash then r\<lparr>sr_settled_at := settledAt\<rparr> else r) tbl"

definition DeleteSecretByIdHash :: "bytes \<Rightarrow> secrets_table \<Rightarrow> secrets_table \<times> nat" where
  "DeleteSecretByIdHash idHash tbl =
     (filter (\<lambda>r. sr_macaroon_id_hash r \<noteq> idHash) tbl,
      length (filter (\<lambda>r. sr_macaroon_id_hash r = idHash) tbl))"

subsection \<open>The store\<close>

text \<open>\<open>rnd\<close> is what \<^verbatim>\<open>rand.Read\<close> did: an error, or the bytes that fill the array.\<close>

definition NewSecret ::
    "txExecutorOptions \<Rightarrow> secrets_table tx_env \<Rightarrow> bytes result \<Rightarrow> time \<Rightarrow> bytes \<Rightarrow> bytes
       \<Rightarrow> secrets_table \<Rightarrow> secrets_table \<times> bytes result" where
  "NewSecret opts env rnd now idHash paymentHash tbl =
     (case rnd of
        Inl e \<Rightarrow> (tbl, Inl e)
      | Inr random \<Rightarrow>
          let secret = to_array SecretSize random in
          (case ExecTx opts False env
                  (InsertSecret \<lparr>sr_macaroon_id_hash = idHash, sr_payment_hash = paymentHash, sr_secret = secret,
                     sr_settled_at = None, sr_created_at = now\<rparr>) tbl of
             (tbl', Inl e) \<Rightarrow> (tbl', Inl (Wrap ''unable to insert new secret'' e))
           | (tbl', Inr _) \<Rightarrow> (tbl', Inr secret)))"

definition SetSettledAtByPaymentHash ::
    "txExecutorOptions \<Rightarrow> secrets_table tx_env \<Rightarrow> bytes \<Rightarrow> time option \<Rightarrow> secrets_table
       \<Rightarrow> secrets_table \<times> unit result" where
  "SetSettledAtByPaymentHash opts env paymentHash settledAt tbl =
     (case ExecTx opts False env (\<lambda>t. Inr (SetSettledAtByPaymentHash_q paymentHash settledAt t, ())) tbl of
        (tbl', Inl e) \<Rightarrow> (tbl', Inl (Wrap ''unable to set settled at'' e))
      | (tbl', Inr _) \<Rightarrow> (tbl', Inr ()))"

definition get_secret_body :: "bytes \<Rightarrow> secrets_table \<Rightarrow> (secrets_table \<times> bytes) result" where
  "get_secret_body idHash t =
     (case GetSecretByIdHash idHash t of
        Inl e \<Rightarrow> if e = Sentinel ErrNoRows then Inl (Sentinel ErrSecretNotFound) else Inl e
      | Inr row \<Rightarrow> Inr (t, to_array SecretSize row))"

definition GetSecret ::
    "txExecutorOptions \<Rightarrow> secrets_table tx_env \<Rightarrow> bytes \<Rightarrow> secrets_table \<Rightarrow> secrets_table \<times> bytes result" where
  "GetSecret opts env idHash tbl =
     (case ExecTx opts True env (get_secret_body idHash) tbl of
        (tbl', Inl e) \<Rightarrow> (tbl', Inl (Wrap ''unable to get secret'' e))
      | (tbl', Inr secret) \<Rightarrow> (tbl', Inr secret))"

definition get_settled_body :: "bytes \<Rightarrow> secrets_table \<Rightarrow> (secrets_table \<times> time option) result" where
  "get_settled_body paymentHash t =
     (case GetSettledAtByPaymentHash_q paymentHash t of
        Inl e \<Rightarrow> if e = Sentinel ErrNoRows then Inl (Sentinel ErrSecretNotFound) else Inl e
      | Inr row \<Rightarrow> Inr (t, row))"

definition GetSettledAtByPaymentHash ::
    "txExecutorOptions \<Rightarrow> secrets_table tx_env \<Rightarrow> bytes \<Rightarrow> secrets_table \<Rightarrow> secrets_table \<times> time option result" where
  "GetSettledAtByPaymentHash opts env paymentHash tbl =
     (case ExecTx opts True env (get_settled_body paymentHash) tbl of
        (tbl', Inl e) \<Rightarrow> (tbl', Inl (Wrap ''unable to get settled_at'' e))
      | (tbl', Inr settledAt) \<Rightarrow> (tbl', Inr settledAt))"

text \<open>The number of deleted rows is only logged.\<close>

definition RevokeSecret ::
    "txExecutorOptions \<Rightarrow> secrets_table tx_env \<Rightarrow> bytes \<Rightarrow> secrets_table \<Rightarrow> secrets_table \<times> unit result" where
  "RevokeSecret opts env idHash tbl =
     (case ExecTx opts False env (\<lambda>t. Inr (fst (DeleteSecretByIdHash idHash t), ())) tbl of
        (tbl', Inl e) \<Rightarrow> (tbl', Inl (Wrap ''unable to revoke secret'' e))
      | (tbl', Inr _) \<Rightarrow> (tbl', Inr ()))"

subsection \<open>The contract\<close>

record 's secret_ops =
  ss_NewSecret :: "bytes \<Rightarrow> bytes \<Rightarrow> 's \<Rightarrow> 's \<times> bytes result"
  ss_GetSecret :: "bytes \<Rightarrow> 's \<Rightarrow> 's \<times> bytes result"
  ss_RevokeSecret :: "bytes \<Rightarrow> 's \<Rightarrow> 's \<times> unit result"
  ss_SetSettledAt :: "bytes \<Rightarrow> time option \<Rightarrow> 's \<Rightarrow> 's \<times> unit result"
  ss_GetSettledAt :: "bytes \<Rightarrow> 's \<Rightarrow> 's \<times> time option result"

text \<open>
  What a secret store promises, seen through the secrets it has (\<open>sec\<close>) and the settlement times
  (\<open>stl\<close>, absent for a payment hash without a secret).
\<close>

locale secret_store =
  fixes ss :: "'s secret_ops"
    and ok :: "'s \<Rightarrow> bool"
    and sec :: "'s \<Rightarrow> bytes \<rightharpoonup> bytes"
    and stl :: "'s \<Rightarrow> bytes \<rightharpoonup> time option"
  assumes new_spec: "ok s \<Longrightarrow> ss_NewSecret ss h p s = (s', Inr k) \<Longrightarrow>
      ok s' \<and> sec s h = None \<and> sec s' = (sec s)(h \<mapsto> k) \<and> length k = 32 \<and>
      (p \<notin> dom (stl s) \<longrightarrow> stl s' = (stl s)(p \<mapsto> None))"
    and new_error: "ok s \<Longrightarrow> ss_NewSecret ss h p s = (s', Inl e) \<Longrightarrow> s' = s"
    and get_spec: "ok s \<Longrightarrow> ss_GetSecret ss h s =
      (s, case sec s h of Some k \<Rightarrow> Inr k
          | None \<Rightarrow> Inl (Wrap ''unable to get secret'' (Sentinel ErrSecretNotFound)))"
    and revoke_spec: "ok s \<Longrightarrow> ss_RevokeSecret ss h s = (s', r) \<Longrightarrow>
      ok s' \<and> r = Inr () \<and> sec s' = (sec s)(h := None)"
    and set_spec: "ok s \<Longrightarrow> ss_SetSettledAt ss p t s = (s', r) \<Longrightarrow>
      ok s' \<and> r = Inr () \<and> sec s' = sec s \<and>
      stl s' = (\<lambda>q. if q = p \<and> stl s q \<noteq> None then Some t else stl s q)"
    and settled_spec: "ok s \<Longrightarrow> ss_GetSettledAt ss p s =
      (s, case stl s p of Some t \<Rightarrow> Inr t
          | None \<Rightarrow> Inl (Wrap ''unable to get settled_at'' (Sentinel ErrSecretNotFound)))"
begin

lemma get_new:
  "ok s \<Longrightarrow> ss_NewSecret ss h p s = (s', Inr k) \<Longrightarrow> ss_GetSecret ss h s' = (s', Inr k)"
  using new_spec [of s h p s' k] get_spec [of s' h] by auto

lemma get_revoked:
  assumes "ok s" and "ss_RevokeSecret ss h s = (s', r)"
  shows "\<not> is_ok (snd (ss_GetSecret ss h s'))"
  using revoke_spec [OF assms] get_spec [of s' h] by auto

text \<open>A key is given out once: as long as it is in the store no second one is made for it.\<close>

lemma new_once:
  assumes "ok s" and "ss_GetSecret ss h s = (s, Inr k)"
  shows "ss_NewSecret ss h p s = (s, snd (ss_NewSecret ss h p s)) \<and> \<not> is_ok (snd (ss_NewSecret ss h p s))"
proof -
  from get_spec [OF assms(1), of h] assms(2) have h: "sec s h = Some k" by (auto split: option.splits)
  obtain s' r where n: "ss_NewSecret ss h p s = (s', r)" by fastforce
  show ?thesis
  proof (cases r)
    case (Inl e)
    with new_error [OF assms(1)] n show ?thesis by auto
  next
    case (Inr k')
    with new_spec [OF assms(1)] n h show ?thesis by auto
  qed
qed

lemma settled_set:
  assumes "ok s" and "stl s p \<noteq> None" and "ss_SetSettledAt ss p t s = (s', r)"
  shows "ss_GetSettledAt ss p s' = (s', Inr t)"
  using set_spec [OF assms(1,3)] settled_spec [of s' p] assms(2) by simp

end

subsection \<open>The store implements the contract\<close>

definition wf_secrets :: "secrets_table \<Rightarrow> bool" where
  "wf_secrets tbl \<longleftrightarrow> distinct (map sr_macaroon_id_hash tbl) \<and> distinct (map sr_secret tbl) \<and>
     (\<forall>r \<in> set tbl. length (sr_secret r) = 32)"

definition secrets_of :: "secrets_table \<Rightarrow> bytes \<rightharpoonup> bytes" where
  "secrets_of tbl h = map_option sr_secret (List.find (\<lambda>r. sr_macaroon_id_hash r = h) tbl)"

definition settled_of :: "secrets_table \<Rightarrow> bytes \<rightharpoonup> time option" where
  "settled_of tbl p = map_option sr_settled_at (List.find (\<lambda>r. sr_payment_hash r = p) tbl)"

definition secrets_store_ops ::
    "txExecutorOptions \<Rightarrow> secrets_table tx_env \<Rightarrow> bytes result \<Rightarrow> time \<Rightarrow> secrets_table secret_ops" where
  "secrets_store_ops opts env rnd now = \<lparr>
     ss_NewSecret = NewSecret opts env rnd now,
     ss_GetSecret = GetSecret opts env,
     ss_RevokeSecret = RevokeSecret opts env,
     ss_SetSettledAt = SetSettledAtByPaymentHash opts env,
     ss_GetSettledAt = GetSettledAtByPaymentHash opts env \<rparr>"

text \<open>The states in which the contract holds carry what it relies on: a database without faults and
  at least one attempt.\<close>

definition secrets_ok :: "txExecutorOptions \<Rightarrow> secrets_table tx_env \<Rightarrow> secrets_table \<Rightarrow> bool" where
  "secrets_ok opts env tbl \<longleftrightarrow> healthy_tx env \<and> 0 < numRetries opts \<and> wf_secrets tbl"

lemma secrets_of_None: "secrets_of tbl h = None \<longleftrightarrow> h \<notin> sr_macaroon_id_hash ` set tbl"
  by (auto simp: secrets_of_def find_None_iff)

lemma InsertSecret_if:
  "InsertSecret row tbl =
     (if sr_macaroon_id_hash row \<in> sr_macaroon_id_hash ` set tbl \<or> sr_secret row \<in> sr_secret ` set tbl
      then Inl (PgError pg_UniqueViolation) else Inr (tbl @ [row], ()))"
proof -
  have "list_ex (\<lambda>r. sr_macaroon_id_hash r = a \<or> sr_secret r = b) tbl \<longleftrightarrow>
      a \<in> sr_macaroon_id_hash ` set tbl \<or> b \<in> sr_secret ` set tbl" for a b
    by (induction tbl) auto
  then show ?thesis by (simp add: InsertSecret_def)
qed

lemma InsertSecret_error: "InsertSecret row tbl = Inl e \<Longrightarrow> e = PgError pg_UniqueViolation"
  by (simp add: InsertSecret_def split: if_splits)

lemma unique_not_serialization: "\<not> is_serialization (MapSQLError (PgError pg_UniqueViolation))"
  by (simp add: MapSQLError_def parsePostgresError_def)

lemma NewSecret_healthy:
  assumes "secrets_ok opts env tbl"
  shows "NewSecret opts env rnd now h p tbl =
     (case rnd of Inl e \<Rightarrow> (tbl, Inl e)
      | Inr b \<Rightarrow>
          let k = to_array SecretSize b;
              row = \<lparr>sr_macaroon_id_hash = h, sr_payment_hash = p, sr_secret = k, sr_settled_at = None, sr_created_at = now\<rparr>
          in if h \<in> sr_macaroon_id_hash ` set tbl \<or> k \<in> sr_secret ` set tbl
             then (tbl, Inl (Wrap ''unable to insert new secret'' (UniqueViolation (PgError pg_UniqueViolation))))
             else (tbl @ [row], Inr k))"
proof -
  have "ExecTx opts False env (InsertSecret row) tbl =
      (case InsertSecret row tbl of Inl e \<Rightarrow> (tbl, Inl (MapSQLError e)) | Inr (d', x) \<Rightarrow> (d', Inr x))" for row
    using assms InsertSecret_error unique_not_serialization
    by (intro ExecTx_healthy) (auto simp: secrets_ok_def)
  then show ?thesis
    by (auto simp: NewSecret_def Let_def InsertSecret_if MapSQLError_def parsePostgresError_def split: sum.splits)
qed

lemma body_not_found:
  "get_secret_body h t = Inl e \<Longrightarrow> e = Sentinel ErrSecretNotFound"
  "get_settled_body h t = Inl e \<Longrightarrow> e = Sentinel ErrSecretNotFound"
  by (auto simp: get_secret_body_def GetSecretByIdHash_def get_settled_body_def GetSettledAtByPaymentHash_q_def
      split: option.splits)

lemma find_wf_length:
  "wf_secrets tbl \<Longrightarrow> List.find P tbl = Some r \<Longrightarrow> length (sr_secret r) = 32"
  by (auto simp: wf_secrets_def find_Some_iff)

lemma GetSecret_healthy:
  assumes "secrets_ok opts env tbl"
  shows "GetSecret opts env h tbl =
     (tbl, case secrets_of tbl h of Some k \<Rightarrow> Inr k
           | None \<Rightarrow> Inl (Wrap ''unable to get secret'' (Sentinel ErrSecretNotFound)))"
proof -
  have ex: "ExecTx opts True env (get_secret_body h) tbl =
      (case get_secret_body h tbl of Inl e \<Rightarrow> (tbl, Inl (MapSQLError e)) | Inr (d', x) \<Rightarrow> (d', Inr x))"
    using assms body_not_found(1) [of h tbl] by (intro ExecTx_healthy) (auto simp: secrets_ok_def)
  from assms have wf: "wf_secrets tbl" by (simp add: secrets_ok_def)
  show ?thesis
  proof (cases "List.find (\<lambda>r. sr_macaroon_id_hash r = h) tbl")
    case None
    then show ?thesis
      by (simp add: GetSecret_def ex get_secret_body_def GetSecretByIdHash_def secrets_of_def)
  next
    case (Some r)
    with find_wf_length [OF wf Some] show ?thesis
      by (simp add: GetSecret_def ex get_secret_body_def GetSecretByIdHash_def secrets_of_def)
  qed
qed

lemma GetSettledAt_healthy:
  assumes "secrets_ok opts env tbl"
  shows "GetSettledAtByPaymentHash opts env p tbl =
     (tbl, case settled_of tbl p of Some t \<Rightarrow> Inr t
           | None \<Rightarrow> Inl (Wrap ''unable to get settled_at'' (Sentinel ErrSecretNotFound)))"
proof -
  have ex: "ExecTx opts True env (get_settled_body p) tbl =
      (case get_settled_body p tbl of Inl e \<Rightarrow> (tbl, Inl (MapSQLError e)) | Inr (d', x) \<Rightarrow> (d', Inr x))"
    using assms body_not_found(2) [of p tbl] by (intro ExecTx_healthy) (auto simp: secrets_ok_def)
  show ?thesis
    by (cases "List.find (\<lambda>r. sr_payment_hash r = p) tbl")
      (simp_all add: GetSettledAtByPaymentHash_def ex get_settled_body_def GetSettledAtByPaymentHash_q_def settled_of_def)
qed

lemma write_healthy:
  assumes "secrets_ok opts env tbl"
  shows "ExecTx opts False env (\<lambda>t. Inr (f t, ())) tbl = (f tbl, Inr ())"
  using ExecTx_write [of env opts False f "()" tbl] assms by (simp add: secrets_ok_def)

lemma wf_secrets_settle: "wf_secrets (SetSettledAtByPaymentHash_q p t tbl) = wf_secrets tbl"
proof -
  have "map sr_macaroon_id_hash (SetSettledAtByPaymentHash_q p t tbl) = map sr_macaroon_id_hash tbl"
    "map sr_secret (SetSettledAtByPaymentHash_q p t tbl) = map sr_secret tbl"
    by (simp_all add: SetSettledAtByPaymentHash_q_def)
  moreover from this(2) have "sr_secret ` set (SetSettledAtByPaymentHash_q p t tbl) = sr_secret ` set tbl"
    by (metis set_map)
  then have "(\<forall>r \<in> set (SetSettledAtByPaymentHash_q p t tbl). length (sr_secret r) = 32) \<longleftrightarrow>
      (\<forall>r \<in> set tbl. length (sr_secret r) = 32)"
    by (metis (no_types, lifting) image_iff)
  ultimately show ?thesis by (simp add: wf_secrets_def)
qed

lemma secrets_of_settle: "secrets_of (SetSettledAtByPaymentHash_q p t tbl) = secrets_of tbl"
proof
  fix h show "secrets_of (SetSettledAtByPaymentHash_q p t tbl) h = secrets_of tbl h"
    unfolding secrets_of_def SetSettledAtByPaymentHash_q_def
    by (subst find_map_same) (auto simp: option.map_comp o_def intro: option.map_cong0)
qed

lemma settled_of_settle:
  "settled_of (SetSettledAtByPaymentHash_q p t tbl) =
     (\<lambda>q. if q = p \<and> settled_of tbl q \<noteq> None then Some t else settled_of tbl q)"
proof
  fix q
  have "settled_of (SetSettledAtByPaymentHash_q p t tbl) q =
      map_option (\<lambda>r. sr_settled_at (if sr_payment_hash r = p then r\<lparr>sr_settled_at := t\<rparr> else r))
        (List.find (\<lambda>r. sr_payment_hash r = q) tbl)"
    unfolding settled_of_def SetSettledAtByPaymentHash_q_def
    by (subst find_map_same) (auto simp: option.map_comp o_def)
  then show "settled_of (SetSettledAtByPaymentHash_q p t tbl) q =
      (if q = p \<and> settled_of tbl q \<noteq> None then Some t else settled_of tbl q)"
    by (cases "List.find (\<lambda>r. sr_payment_hash r = q) tbl") (auto simp: settled_of_def dest: find_SomeD)
qed

interpretation secrets_db: secret_store "secrets_store_ops opts env rnd now" "secrets_ok opts env" secrets_of settled_of
proof
  fix s h p s' k
  assume ok: "secrets_ok opts env s" and "ss_NewSecret (secrets_store_ops opts env rnd now) h p s = (s', Inr k)"
  then obtain b where k: "k = to_array 32 b" "h \<notin> sr_macaroon_id_hash ` set s" "k \<notin> sr_secret ` set s"
    and s': "s' = s @ [\<lparr>sr_macaroon_id_hash = h, sr_payment_hash = p, sr_secret = k, sr_settled_at = None, sr_created_at = now\<rparr>]"
    by (auto simp: secrets_store_ops_def NewSecret_healthy [OF ok] Let_def split: sum.splits if_splits)
  have "wf_secrets s'" using ok k by (auto simp: secrets_ok_def wf_secrets_def s')
  moreover have "secrets_of s' = (secrets_of s)(h \<mapsto> k)"
    using k(2) by (auto simp: fun_eq_iff secrets_of_def s' find_append find_None_iff split: option.splits)
      (auto simp: find_Some_iff)
  moreover have "p \<notin> dom (settled_of s) \<longrightarrow> settled_of s' = (settled_of s)(p \<mapsto> None)"
    by (auto simp: fun_eq_iff settled_of_def s' find_append domIff split: option.splits)
  ultimately show "secrets_ok opts env s' \<and> secrets_of s h = None \<and> secrets_of s' = (secrets_of s)(h \<mapsto> k) \<and>
      length k = 32 \<and> (p \<notin> dom (settled_of s) \<longrightarrow> settled_of s' = (settled_of s)(p \<mapsto> None))"
    using ok k by (simp add: secrets_ok_def secrets_of_None)
next
  fix s h p s' e
  assume ok: "secrets_ok opts env s" and "ss_NewSecret (secrets_store_ops opts env rnd now) h p s = (s', Inl e)"
  then show "s' = s"
    by (auto simp: secrets_store_ops_def NewSecret_healthy [OF ok] Let_def split: sum.splits if_splits)
next
  fix s h assume "secrets_ok opts env s"
  then show "ss_GetSecret (secrets_store_ops opts env rnd now) h s =
      (s, case secrets_of s h of Some k \<Rightarrow> Inr k
          | None \<Rightarrow> Inl (Wrap ''unable to get secret'' (Sentinel ErrSecretNotFound)))"
    by (simp add: secrets_store_ops_def GetSecret_healthy)
next
  fix s h s' r
  assume ok: "secrets_ok opts env s" and "ss_RevokeSecret (secrets_store_ops opts env rnd now) h s = (s', r)"
  then have s': "s' = filter (\<lambda>r. sr_macaroon_id_hash r \<noteq> h) s" "r = Inr ()"
    by (simp_all add: secrets_store_ops_def RevokeSecret_def write_healthy DeleteSecretByIdHash_def)
  have "wf_secrets s'" using ok by (auto simp: secrets_ok_def wf_secrets_def s' distinct_map_filter)
  moreover have "secrets_of s' = (secrets_of s)(h := None)"
  proof
    fix x show "secrets_of s' x = ((secrets_of s)(h := None)) x"
      using find_filter_other [of "\<lambda>r. sr_macaroon_id_hash r = x" "\<lambda>r. sr_macaroon_id_hash r \<noteq> h" s]
      by (auto simp: secrets_of_def s' find_filter_none)
  qed
  ultimately show "secrets_ok opts env s' \<and> r = Inr () \<and> secrets_of s' = (secrets_of s)(h := None)"
    using ok s' by (simp add: secrets_ok_def)
next
  fix s p t s' r
  assume ok: "secrets_ok opts env s" and "ss_SetSettledAt (secrets_store_ops opts env rnd now) p t s = (s', r)"
  then have s': "s' = SetSettledAtByPaymentHash_q p t s" "r = Inr ()"
    by (simp_all add: secrets_store_ops_def SetSettledAtByPaymentHash_def write_healthy)
  with ok show "secrets_ok opts env s' \<and> r = Inr () \<and> secrets_of s' = secrets_of s \<and>
      settled_of s' = (\<lambda>q. if q = p \<and> settled_of s q \<noteq> None then Some t else settled_of s q)"
    by (simp add: secrets_ok_def wf_secrets_settle secrets_of_settle settled_of_settle)
next
  fix s p assume "secrets_ok opts env s"
  then show "ss_GetSettledAt (secrets_store_ops opts env rnd now) p s =
      (s, case settled_of s p of Some t \<Rightarrow> Inr t
          | None \<Rightarrow> Inl (Wrap ''unable to get settled_at'' (Sentinel ErrSecretNotFound)))"
    by (simp add: secrets_store_ops_def GetSettledAt_healthy)
qed

subsection \<open>Rows under faults\<close>

text \<open>What the rows satisfy, the store keeps under all faults, if new rows satisfy it.\<close>

lemma sole_ExecTx:
  assumes "sole_writer env" and "\<forall>r \<in> set tbl. P r"
    and "\<And>e e' x. \<forall>r \<in> set e. P r \<Longrightarrow> body e = Inr (e', x) \<Longrightarrow> \<forall>r \<in> set e'. P r"
  shows "\<forall>r \<in> set (fst (ExecTx opts ro env body tbl)). P r"
proof -
  obtain tbl' q where e: "ExecTx opts ro env body tbl = (tbl', q)" by force
  from assms(1) e have "\<forall>r \<in> set tbl'. P r"
    by (cases rule: ExecTx_sole) (use assms(2,3) in blast)+
  with e show ?thesis by simp
qed

lemma NewSecret_rows:
  assumes "sole_writer env" and "\<forall>r \<in> set tbl. P r"
    and "\<And>k. P \<lparr>sr_macaroon_id_hash = i, sr_payment_hash = h, sr_secret = k, sr_settled_at = None, sr_created_at = now\<rparr>"
  shows "\<forall>r \<in> set (fst (ss_NewSecret (secrets_store_ops opts env rnd now) i h tbl)). P r"
proof (cases rnd)
  case (Inr random)
  let ?row = "\<lparr>sr_macaroon_id_hash = i, sr_payment_hash = h, sr_secret = to_array SecretSize random, sr_settled_at = None, sr_created_at = now\<rparr>"
  have "\<forall>r \<in> set (fst (ExecTx opts False env (InsertSecret ?row) tbl)). P r"
    by (rule sole_ExecTx [where P = P, OF assms(1,2)]) (auto simp: InsertSecret_def assms(3) split: if_splits)
  with Inr show ?thesis by (auto simp: secrets_store_ops_def NewSecret_def Let_def split: prod.splits sum.splits)
qed (use assms(2) in \<open>simp add: secrets_store_ops_def NewSecret_def\<close>)

lemma RevokeSecret_rows:
  assumes "sole_writer env" and "\<forall>r \<in> set tbl. P r"
  shows "\<forall>r \<in> set (fst (ss_RevokeSecret (secrets_store_ops opts env rnd now) i tbl)). P r"
proof -
  have "\<forall>r \<in> set (fst (ExecTx opts False env (\<lambda>t. Inr (fst (DeleteSecretByIdHash i t), ())) tbl)). P r"
    by (rule sole_ExecTx [where P = P, OF assms]) (auto simp: DeleteSecretByIdHash_def)
  then show ?thesis by (auto simp: secrets_store_ops_def RevokeSecret_def split: prod.splits sum.splits)
qed

lemma SetSettledAt_rows:
  assumes "sole_writer env" and "\<forall>r \<in> set tbl. P r" and "\<And>r. P r \<Longrightarrow> sr_payment_hash r = h \<Longrightarrow> P (r\<lparr>sr_settled_at := t\<rparr>)"
  shows "\<forall>r \<in> set (fst (ss_SetSettledAt (secrets_store_ops opts env rnd now) h t tbl)). P r"
proof -
  have "\<forall>r \<in> set (fst (ExecTx opts False env (\<lambda>tb. Inr (SetSettledAtByPaymentHash_q h t tb, ())) tbl)). P r"
    by (rule sole_ExecTx [where P = P, OF assms(1,2)]) (auto simp: SetSettledAtByPaymentHash_q_def assms(3))
  then show ?thesis by (auto simp: secrets_store_ops_def SetSettledAtByPaymentHash_def split: prod.splits sum.splits)
qed

end
