(* ===== verification/Freebie.thy ===== *)
theory Freebie
  imports Http_Model
begin

text \<open>
  \<^verbatim>\<open>aperture/freebie/mem_store.go\<close>: the in-memory counter of free requests per IPv4 network,
  and the part of package \<^verbatim>\<open>net\<close> it uses. Concurrent handlers are the steps of \<open>freebie_step\<close>; what they need of the
  counter is the locale \<open>freebie_counter\<close>. Go's runtime may also end the process when it notices
  two of them in the unlocked map at once, which is not modelled.
\<close>

subsection \<open>IP addresses\<close>

text \<open>An address is its bytes: 4 of them, or 16, where an IPv4 address in 16 bytes has the prefix
  \<^verbatim>\<open>::ffff:0:0\<close>. \<^verbatim>\<open>To4\<close> and \<^verbatim>\<open>Mask\<close> are those of \<^verbatim>\<open>net.IP\<close>; a nil address is \<open>[]\<close>.\<close>

type_synonym ip = "char list"

definition v4InV6Prefix :: "char list" where
  "v4InV6Prefix = replicate 10 NUL @ [CHR 0xFF, CHR 0xFF]"

definition ip_To4 :: "ip \<Rightarrow> ip option" where
  "ip_To4 a =
     (if length a = 4 then Some a
      else if length a = 16 \<and> take 12 a = v4InV6Prefix then Some (drop 12 a)
      else None)"

definition and_byte :: "char \<Rightarrow> char \<Rightarrow> char" where
  "and_byte a b = char_of (Bit_Operations.and (of_char a :: nat) (of_char b))"

definition ip_Mask4 :: "ip \<Rightarrow> char list \<Rightarrow> ip" where
  "ip_Mask4 a msk =
     (let a' = (if length a = 16 \<and> take 12 a = v4InV6Prefix then drop 12 a else a)
      in if length a' \<noteq> length msk then [] else map2 and_byte a' msk)"

text \<open>\<^verbatim>\<open>String\<close> of the addresses that masking produces: the nil address, or four bytes.\<close>

definition ip_String :: "ip \<Rightarrow> string" where
  "ip_String a = (if a = [] then ''<nil>''
     else join_with (CHR ''.'') (map (\<lambda>c. dec_nat (byte_val c)) a))"

definition defaultIPMask :: "char list" where
  "defaultIPMask = [CHR 0xFF, CHR 0xFF, CHR 0xFF, CHR 0x00]"

subsection \<open>The store\<close>

type_synonym Count = "16 word"

record memStore =
  numFreebies :: Count
  freebieCounter :: "string \<rightharpoonup> Count"

definition getKey :: "ip \<Rightarrow> string" where
  "getKey a = ip_String (ip_Mask4 a defaultIPMask)"

definition currentCount :: "memStore \<Rightarrow> ip \<Rightarrow> Count" where
  "currentCount m a = (case freebieCounter m (getKey a) of None \<Rightarrow> 0 | Some counter \<Rightarrow> counter)"

definition CanPass :: "memStore \<Rightarrow> ip \<Rightarrow> bool result" where
  "CanPass m a = Inr (currentCount m a < numFreebies m)"

text \<open>\<^verbatim>\<open>TallyFreebie\<close> reads the counter and writes the next value; the map has no lock, so the two
  are separate steps of a handler, and \<open>TallyFreebie\<close> is both without another handler in between.\<close>

definition tally_read :: "memStore \<Rightarrow> ip \<Rightarrow> Count" where
  "tally_read m a = currentCount m a + 1"

definition tally_write :: "memStore \<Rightarrow> ip \<Rightarrow> Count \<Rightarrow> memStore" where
  "tally_write m a counter = m\<lparr>freebieCounter := (freebieCounter m)(getKey a \<mapsto> counter)\<rparr>"

definition TallyFreebie :: "memStore \<Rightarrow> ip \<Rightarrow> memStore \<times> bool result" where
  "TallyFreebie m a = (let counter = tally_read m a in (tally_write m a counter, Inr True))"

definition NewMemIPMaskStore :: "Count \<Rightarrow> memStore" where
  "NewMemIPMaskStore n = \<lparr>numFreebies = n, freebieCounter = Map.empty\<rparr>"

subsection \<open>Concurrent handlers\<close>

text \<open>The requests of clients without a credential are served concurrently. A handler asks
  \<^verbatim>\<open>CanPass\<close>; one that may pass is then in flight until it has read the counter and written it
  back. The steps of different handlers interleave in any order. The lists \<open>fy_passed\<close>,
  \<open>fy_tallied\<close> and \<open>fy_refused\<close> record the addresses whose requests were let through,
  counted and refused.\<close>

record ('f, 'v) counter_ops =
  co_check :: "'f \<Rightarrow> ip \<Rightarrow> bool"
  co_read :: "'f \<Rightarrow> ip \<Rightarrow> 'v"
  co_write :: "'f \<Rightarrow> ip \<Rightarrow> 'v \<Rightarrow> 'f"

record ('f, 'v) freebie_system =
  fy_store :: 'f
  fy_flight :: "(ip \<times> 'v option) list"
  fy_passed :: "ip list"
  fy_tallied :: "ip list"
  fy_refused :: "ip list"

datatype freebie_event = AskCanPass ip | ReadCounter nat | WriteCounter nat

fun freebie_step :: "('f, 'v) counter_ops \<Rightarrow> ('f, 'v) freebie_system \<Rightarrow> freebie_event \<Rightarrow> ('f, 'v) freebie_system" where
  "freebie_step co s (AskCanPass a) =
     (if co_check co (fy_store s) a
      then s\<lparr>fy_flight := fy_flight s @ [(a, None)], fy_passed := a # fy_passed s\<rparr>
      else s\<lparr>fy_refused := a # fy_refused s\<rparr>)"
| "freebie_step co s (ReadCounter i) =
     (if i < length (fy_flight s)
      then (case fy_flight s ! i of
              (a, None) \<Rightarrow> s\<lparr>fy_flight := (fy_flight s)[i := (a, Some (co_read co (fy_store s) a))]\<rparr>
            | (a, Some v) \<Rightarrow> s)
      else s)"
| "freebie_step co s (WriteCounter i) =
     (if i < length (fy_flight s)
      then (case fy_flight s ! i of
              (a, None) \<Rightarrow> s
            | (a, Some v) \<Rightarrow> s\<lparr>fy_store := co_write co (fy_store s) a v,
                fy_flight := take i (fy_flight s) @ drop (Suc i) (fy_flight s),
                fy_tallied := a # fy_tallied s\<rparr>)
      else s)"

definition freebie_start :: "'f \<Rightarrow> ('f, 'v) freebie_system" where
  "freebie_start m = \<lparr>fy_store = m, fy_flight = [], fy_passed = [], fy_tallied = [], fy_refused = []\<rparr>"

definition freebie_run :: "('f, 'v) counter_ops \<Rightarrow> 'f \<Rightarrow> freebie_event list \<Rightarrow> ('f, 'v) freebie_system" where
  "freebie_run co m evs = foldl (freebie_step co) (freebie_start m) evs"

definition of_class :: "('b \<Rightarrow> bool) \<Rightarrow> 'b list \<Rightarrow> nat" where
  "of_class P xs = length (filter P xs)"

text \<open>Never two requests of the class in flight at once.\<close>

fun one_at_a_time :: "('f, 'v) counter_ops \<Rightarrow> (ip \<Rightarrow> bool) \<Rightarrow> ('f, 'v) freebie_system \<Rightarrow> freebie_event list \<Rightarrow> bool" where
  "one_at_a_time co P s [] = (of_class (P \<circ> fst) (fy_flight s) \<le> 1)"
| "one_at_a_time co P s (e # evs) =
     (of_class (P \<circ> fst) (fy_flight s) \<le> 1 \<and> one_at_a_time co P (freebie_step co s e) evs)"

lemma of_class_simps [simp]:
  "of_class P [] = 0" "of_class P (x # xs) = (if P x then 1 else 0) + of_class P xs"
  "of_class P (xs @ ys) = of_class P xs + of_class P ys"
  by (simp_all add: of_class_def)

lemma of_class_split:
  "i < length xs \<Longrightarrow> of_class P xs = of_class P (take i xs) + (if P (xs ! i) then 1 else 0) + of_class P (drop (Suc i) xs)"
  using id_take_nth_drop [of i xs] of_class_simps(2,3) by (metis add.assoc)

lemma of_class_update:
  "i < length xs \<Longrightarrow> P y = P (xs ! i) \<Longrightarrow> of_class P (xs[i := y]) = of_class P xs"
  by (simp add: upd_conv_take_nth_drop of_class_split [of i xs P])

lemma none_of_class: "of_class P xs = 0 \<Longrightarrow> x \<in> set xs \<Longrightarrow> \<not> P x"
  by (auto simp: of_class_def filter_empty_conv)

subsection \<open>The contract of a counter of free requests\<close>

text \<open>Addresses of one class share a counter \<open>count\<close>; \<open>val\<close> is the count a value read stands for.\<close>

locale freebie_counter =
  fixes co :: "('f, 'v) counter_ops"
    and cls :: "ip \<Rightarrow> 'c"
    and count :: "'f \<Rightarrow> 'c \<Rightarrow> nat"
    and val :: "'v \<Rightarrow> nat"
    and limit :: "'f \<Rightarrow> nat"
  assumes check: "co_check co m a = (count m (cls a) < limit m)"
    and read_le: "val (co_read co m a) \<le> Suc (count m (cls a))"
    and read_eq: "count m (cls a) < limit m \<Longrightarrow> val (co_read co m a) = Suc (count m (cls a))"
    and write_count: "count (co_write co m a v) = (count m)(cls a := val v)"
    and write_limit: "limit (co_write co m a v) = limit m"
begin

definition counted :: "nat \<Rightarrow> ('f, 'v) freebie_system \<Rightarrow> bool" where
  "counted n s \<longleftrightarrow> limit (fy_store s) = n \<and>
     (\<forall>c. count (fy_store s) c \<le> of_class (\<lambda>a. cls a = c) (fy_tallied s)) \<and>
     (\<forall>a v. (a, Some v) \<in> set (fy_flight s) \<longrightarrow> val v \<le> Suc (of_class (\<lambda>b. cls b = cls a) (fy_tallied s))) \<and>
     (\<forall>c. of_class (\<lambda>a. cls a = c) (fy_passed s) =
        of_class (\<lambda>a. cls a = c) (fy_tallied s) + of_class ((\<lambda>a. cls a = c) \<circ> fst) (fy_flight s)) \<and>
     (\<forall>a \<in> set (fy_refused s). n \<le> of_class (\<lambda>b. cls b = cls a) (fy_tallied s))"

lemma countedD:
  assumes "counted n s"
  shows "limit (fy_store s) = n" "count (fy_store s) c \<le> of_class (\<lambda>a. cls a = c) (fy_tallied s)"
    "(a, Some v) \<in> set (fy_flight s) \<Longrightarrow> val v \<le> Suc (of_class (\<lambda>b. cls b = cls a) (fy_tallied s))"
    "of_class (\<lambda>a. cls a = c) (fy_passed s) =
       of_class (\<lambda>a. cls a = c) (fy_tallied s) + of_class ((\<lambda>a. cls a = c) \<circ> fst) (fy_flight s)"
    "a \<in> set (fy_refused s) \<Longrightarrow> n \<le> of_class (\<lambda>b. cls b = cls a) (fy_tallied s)"
  using assms by (auto simp: counted_def)

lemma counted_step:
  assumes s: "counted n s"
  shows "counted n (freebie_step co s e)"
proof (cases e)
  case (AskCanPass a)
  show ?thesis
    using countedD(1,2) [OF s] countedD(3,4,5) [OF s]
    by (auto simp: AskCanPass counted_def check le_trans [OF _ countedD(2) [OF s]])
next
  case (ReadCounter i)
  show ?thesis
  proof (cases "i < length (fy_flight s) \<and> snd (fy_flight s ! i) = None")
    case True
    then obtain a where i: "i < length (fy_flight s)" "fy_flight s ! i = (a, None)" by (metis prod.collapse)
    have "val (co_read co (fy_store s) a) \<le> Suc (of_class (\<lambda>b. cls b = cls a) (fy_tallied s))"
      using read_le [of "fy_store s" a] countedD(2) [OF s, of "cls a"] by linarith
    with i s show ?thesis
      by (auto simp: ReadCounter counted_def of_class_update dest!: set_update_subset_insert [THEN subsetD])
  next
    case False
    with s show ?thesis by (auto simp: ReadCounter split: prod.splits option.splits)
  qed
next
  case (WriteCounter i)
  show ?thesis
  proof (cases "i < length (fy_flight s) \<and> snd (fy_flight s ! i) \<noteq> None")
    case True
    then obtain a v where i: "i < length (fy_flight s)" "fy_flight s ! i = (a, Some v)" by (metis prod.collapse option.exhaust)
    have v: "val v \<le> Suc (of_class (\<lambda>b. cls b = cls a) (fy_tallied s))"
      using countedD(3) [OF s] i by (metis nth_mem)
    have "counted n (s\<lparr>fy_store := co_write co (fy_store s) a v,
        fy_flight := take i (fy_flight s) @ drop (Suc i) (fy_flight s), fy_tallied := a # fy_tallied s\<rparr>)"
      using countedD(1,2) [OF s] countedD(3,5) [OF s] v i(2)
        countedD(4) [OF s, unfolded of_class_split [OF i(1)]]
      by (auto simp: counted_def write_count write_limit le_SucI dest!: in_set_takeD in_set_dropD)
    then show ?thesis by (simp add: WriteCounter i)
  next
    case False
    with s show ?thesis by (auto simp: WriteCounter split: prod.splits option.splits)
  qed
qed

lemma counted_run:
  "(\<And>c. count m c = 0) \<Longrightarrow> counted (limit m) (freebie_run co m evs)"
  unfolding freebie_run_def
  by (induction evs rule: rev_induct) (auto simp: counted_step, simp add: counted_def freebie_start_def)

text \<open>When the requests of a class do not overlap, every one of them is counted before the next.\<close>

definition exact :: "'c \<Rightarrow> ('f, 'v) freebie_system \<Rightarrow> bool" where
  "exact c s \<longleftrightarrow>
     of_class (\<lambda>a. cls a = c) (fy_passed s) = count (fy_store s) c + of_class ((\<lambda>a. cls a = c) \<circ> fst) (fy_flight s) \<and>
     of_class (\<lambda>a. cls a = c) (fy_passed s) \<le> limit (fy_store s) \<and>
     (\<forall>a v. (a, Some v) \<in> set (fy_flight s) \<longrightarrow> cls a = c \<longrightarrow> val v = Suc (count (fy_store s) c))"

lemma exact_step:
  assumes s: "exact c s" and one: "of_class ((\<lambda>a. cls a = c) \<circ> fst) (fy_flight s) \<le> 1"
    and next_one: "of_class ((\<lambda>a. cls a = c) \<circ> fst) (fy_flight (freebie_step co s e)) \<le> 1"
  shows "exact c (freebie_step co s e)"
proof (cases e)
  case (AskCanPass a)
  show ?thesis
    using s next_one by (auto simp: AskCanPass exact_def check split: if_splits)
next
  case (ReadCounter i)
  show ?thesis
  proof (cases "i < length (fy_flight s) \<and> snd (fy_flight s ! i) = None")
    case True
    then obtain a where i: "i < length (fy_flight s)" "fy_flight s ! i = (a, None)" by (metis prod.collapse)
    have "cls a = c \<Longrightarrow> count (fy_store s) c < limit (fy_store s)"
      using s i(2) of_class_split [OF i(1), of "(\<lambda>a. cls a = c) \<circ> fst"] by (simp add: exact_def)
    then have "cls a = c \<Longrightarrow> val (co_read co (fy_store s) a) = Suc (count (fy_store s) c)"
      using read_eq by blast
    with i s show ?thesis
      by (auto simp: ReadCounter exact_def of_class_update dest!: set_update_subset_insert [THEN subsetD])
  next
    case False
    with s show ?thesis by (auto simp: ReadCounter split: prod.splits option.splits)
  qed
next
  case (WriteCounter i)
  show ?thesis
  proof (cases "i < length (fy_flight s) \<and> snd (fy_flight s ! i) \<noteq> None")
    case True
    then obtain a v where i: "i < length (fy_flight s)" "fy_flight s ! i = (a, Some v)" by (metis prod.collapse option.exhaust)
    let ?rest = "take i (fy_flight s) @ drop (Suc i) (fy_flight s)" and ?P = "(\<lambda>a. cls a = c) \<circ> fst"
    have rest: "of_class ?P (fy_flight s) = of_class ?P ?rest + (if cls a = c then 1 else 0)"
      using of_class_split [OF i(1), of ?P] i(2) by simp
    have v: "cls a = c \<Longrightarrow> val v = Suc (count (fy_store s) c)"
      using s i nth_mem [OF i(1)] by (simp add: exact_def)
    have sub: "x \<in> set ?rest \<Longrightarrow> x \<in> set (fy_flight s)" for x by (auto dest: in_set_takeD in_set_dropD)
    have none: "cls a = c \<Longrightarrow> (b, w) \<in> set ?rest \<Longrightarrow> cls b \<noteq> c" for b w
      using none_of_class [of ?P ?rest "(b, w)"] rest one by simp
    have step: "freebie_step co s e = s\<lparr>fy_store := co_write co (fy_store s) a v, fy_flight := ?rest, fy_tallied := a # fy_tallied s\<rparr>"
      by (simp add: WriteCounter i)
    show ?thesis
      unfolding step exact_def using s rest v none sub
      by (auto simp: exact_def write_count write_limit simp del: set_append of_class_simps(3) split: if_splits)
  next
    case False
    with s show ?thesis by (auto simp: WriteCounter split: prod.splits option.splits)
  qed
qed

lemma exact_steps:
  "exact c s \<Longrightarrow> one_at_a_time co (\<lambda>a. cls a = c) s evs \<Longrightarrow> exact c (foldl (freebie_step co) s evs)"
proof (induction evs arbitrary: s)
  case (Cons e evs)
  have "of_class ((\<lambda>a. cls a = c) \<circ> fst) (fy_flight (freebie_step co s e)) \<le> 1"
    using Cons.prems(2) by (cases evs) simp_all
  with Cons show ?case using exact_step [of c s e] by simp
qed simp

lemma exact_run:
  assumes "\<And>c. count m c = 0" and "one_at_a_time co (\<lambda>a. cls a = c) (freebie_start m) evs"
  shows "of_class (\<lambda>a. cls a = c) (fy_passed (freebie_run co m evs)) \<le> limit m"
proof -
  have "exact c (freebie_start m)" using assms(1) by (simp add: exact_def freebie_start_def)
  from exact_steps [OF this assms(2)] counted_run [OF assms(1), of evs]
  show ?thesis by (simp add: exact_def counted_def freebie_run_def)
qed

lemma refused_after_limit:
  assumes "\<And>c. count m c = 0" and "a \<in> set (fy_refused (freebie_run co m evs))"
  shows "limit m \<le> of_class (\<lambda>b. cls b = cls a) (fy_passed (freebie_run co m evs))"
  using countedD(4,5) [OF counted_run [OF assms(1), of evs]] assms(2) by fastforce

end

subsection \<open>The in-memory store implements it\<close>

definition mem_counter :: "(memStore, Count) counter_ops" where
  "mem_counter = \<lparr>co_check = (\<lambda>m a. CanPass m a = Inr True), co_read = tally_read, co_write = tally_write\<rparr>"

definition mem_count :: "memStore \<Rightarrow> string \<Rightarrow> nat" where
  "mem_count m k = (case freebieCounter m k of None \<Rightarrow> 0 | Some c \<Rightarrow> unat c)"

lemma unat_currentCount: "unat (currentCount m a) = mem_count m (getKey a)"
  by (simp add: mem_count_def currentCount_def split: option.splits)

lemma tally_no_wrap: "c < (n :: Count) \<Longrightarrow> unat (c + 1) = unat c + 1"
proof -
  assume "c < n"
  moreover have "unat n < 2 ^ 16" using unsigned_less [of n] by simp
  ultimately have "unat c + 1 < 2 ^ 16" by (simp add: word_less_nat_alt)
  then show ?thesis by (simp add: unat_word_ariths)
qed

interpretation mem_freebie: freebie_counter mem_counter getKey mem_count unat "\<lambda>m. unat (numFreebies m)"
proof
  fix m a and v :: Count
  show "co_check mem_counter m a = (mem_count m (getKey a) < unat (numFreebies m))"
    by (simp add: mem_counter_def CanPass_def word_less_nat_alt unat_currentCount)
  show "unat (co_read mem_counter m a) \<le> Suc (mem_count m (getKey a))"
    using unat_currentCount [of m a] by (simp add: mem_counter_def tally_read_def unat_word_ariths mod_le_divisor)
  show "unat (co_read mem_counter m a) = Suc (mem_count m (getKey a))" if "mem_count m (getKey a) < unat (numFreebies m)"
    using tally_no_wrap [of "currentCount m a" "numFreebies m"] that
    by (simp add: mem_counter_def tally_read_def word_less_nat_alt unat_currentCount)
  show "mem_count (co_write mem_counter m a v) = (mem_count m)(getKey a := unat v)"
    by (auto simp: fun_eq_iff mem_count_def mem_counter_def tally_write_def)
  show "unat (numFreebies (co_write mem_counter m a v)) = unat (numFreebies m)"
    by (simp add: mem_counter_def tally_write_def)
qed

lemma new_store_counts [simp]:
  "mem_count (NewMemIPMaskStore n) k = 0" "numFreebies (NewMemIPMaskStore n) = n"
  by (simp_all add: mem_count_def NewMemIPMaskStore_def)

text \<open>
  C28: the handlers of requests without a credential run concurrently, the steps of their
  \<^verbatim>\<open>CanPass\<close> and of the reads and writes of \<^verbatim>\<open>TallyFreebie\<close> in any order. In every interleaving a
  request is refused only after at least the configured number of requests of its network, the
  addresses with the same key, was let through. When the requests of a network do not overlap,
  whatever the other networks do, no more than that number is let through, and exactly that
  number once one is refused. The 16-bit counter does not wrap in that case.
\<close>

theorem freebies_per_network:
  assumes s: "s = freebie_run mem_counter (NewMemIPMaskStore n) evs"
  shows "(\<forall>a. a \<in> set (fy_refused s) \<longrightarrow> unat n \<le> of_class (\<lambda>b. getKey b = getKey a) (fy_passed s)) \<and>
    (\<forall>k. one_at_a_time mem_counter (\<lambda>b. getKey b = k) (freebie_start (NewMemIPMaskStore n)) evs \<longrightarrow>
      of_class (\<lambda>b. getKey b = k) (fy_passed s) \<le> unat n \<and>
      (k \<in> getKey ` set (fy_refused s) \<longrightarrow> of_class (\<lambda>b. getKey b = k) (fy_passed s) = unat n))"
  using mem_freebie.refused_after_limit [where m = "NewMemIPMaskStore n" and evs = evs]
    mem_freebie.exact_run [where m = "NewMemIPMaskStore n" and evs = evs]
  by (fastforce simp: s)

text \<open>Two clients of one network and one of another, with one free request: the first network's
  second request is refused after its first was counted.\<close>

definition sample_freebie_events :: "freebie_event list" where
  "sample_freebie_events =
     [AskCanPass ''AAAA'', AskCanPass ''BBBB'', ReadCounter 1, ReadCounter 0, WriteCounter 0, AskCanPass ''AAAB'']"

theorem freebies_per_network_witness:
  "of_class (\<lambda>b. getKey b = getKey ''AAAA'') (fy_passed (freebie_run mem_counter (NewMemIPMaskStore 1) sample_freebie_events)) = 1 \<and>
   fy_refused (freebie_run mem_counter (NewMemIPMaskStore 1) sample_freebie_events) = [''AAAB'']"
proof -
  have "one_at_a_time mem_counter (\<lambda>b. getKey b = getKey ''AAAA'') (freebie_start (NewMemIPMaskStore 1)) sample_freebie_events"
    by code_simp
  moreover have r: "fy_refused (freebie_run mem_counter (NewMemIPMaskStore 1) sample_freebie_events) = [''AAAB'']"
    by code_simp
  moreover have "getKey ''AAAB'' = getKey ''AAAA''" by code_simp
  ultimately show ?thesis
    using freebies_per_network [OF refl, where n = 1 and evs = sample_freebie_events] by auto
qed

text \<open>Requests that overlap get through in any number: all of them may ask before one is
  counted. Two that read the counter before either writes it are even counted once.\<close>

lemma overlapping_requests_pass:
  "fy_passed (freebie_run mem_counter (NewMemIPMaskStore 1)
     [AskCanPass ''AAAA'', AskCanPass ''AAAB'', ReadCounter 0, ReadCounter 1, WriteCounter 0, WriteCounter 0])
   = [''AAAB'', ''AAAA''] \<and>
   currentCount (fy_store (freebie_run mem_counter (NewMemIPMaskStore 1)
     [AskCanPass ''AAAA'', AskCanPass ''AAAB'', ReadCounter 0, ReadCounter 1, WriteCounter 0, WriteCounter 0])) ''AAAA'' = 1"
  by code_simp

text \<open>
  Every IPv6 client has the same counter. The mask has four bytes, so masking a 16-byte
  address that is not an IPv4 one yields the nil address, and its text is the key for all of
  them, although the store is documented to mask only the last byte of an address.
\<close>

lemma ipv6_share_counter:
  assumes "length a = 16" and "take 12 a \<noteq> v4InV6Prefix" and "length b = 16" and "take 12 b \<noteq> v4InV6Prefix"
  shows "getKey a = getKey b \<and> currentCount m a = currentCount m b"
  using assms by (simp add: getKey_def currentCount_def ip_Mask4_def defaultIPMask_def)

lemma ipv6_share_counter_example:
  "getKey (replicate 16 (CHR 0x01)) = getKey (replicate 16 (CHR 0x02))"
  using ipv6_share_counter [of "replicate 16 (CHR 0x01)" "replicate 16 (CHR 0x02)"]
  by (simp add: v4InV6Prefix_def eval_nat_numeral)

end
