(* ===== verification/Proxy_Service.thy ===== *)
theory Proxy_Service
  imports Freebie
begin

text \<open>
  The configuration of a backend service and what requests are matched and priced with:
  \<^verbatim>\<open>aperture/proxy/service.go\<close>, \<^verbatim>\<open>aperture/auth/config.go\<close> and \<^verbatim>\<open>aperture/pricer\<close>.

  Regular expressions, files, TLS credentials and the price server are what the code asks of its
  environment (\<open>service_env\<close>). The maps of header fields and constraints are lists of pairs, in
  the order in which this run iterates over them.
\<close>

subsection \<open>Authentication levels\<close>

type_synonym Level = string

definition LevelOff :: Level where "LevelOff = ''off''"

definition IsOn :: "Level \<Rightarrow> bool" where
  "IsOn l = (let lower = to_lower l in lower = [] \<or> lower = ''on'' \<or> lower = ''true'')"

definition IsFreebie :: "Level \<Rightarrow> bool" where
  "IsFreebie l = has_prefix (to_lower l) ''freebie''"

definition IsOff :: "Level \<Rightarrow> bool" where
  "IsOff l = (let lower = to_lower l in lower = ''off'' \<or> lower = ''false'')"

definition FreebieCount :: "Level \<Rightarrow> Count result" where
  "FreebieCount l =
     (case split_on (CHR '' '') (to_lower l) of
        [p, q] \<Rightarrow>
          (case parse_int q of
             Inl e \<Rightarrow> Inl (Panic ''strconv.Atoi'')
           | Inr count \<Rightarrow> Inr (word_of_int count))
      | _ \<Rightarrow> Inl (Panic ''invalid auth value''))"

subsection \<open>Pricers\<close>

record pricer_Config =
  pc_Enabled :: bool
  pc_GRPCAddress :: string
  pc_Insecure :: bool
  pc_TLSCertPath :: string

record GetPaymentDetailsResponse =
  pd_RecipientLud16 :: string
  pd_Price :: int

datatype Pricer =
    DefaultPricer string int
  | GRPCPricer string

definition NewDefaultPricer :: "int \<Rightarrow> Pricer" where
  "NewDefaultPricer price = DefaultPricer [] price"

text \<open>What the services ask of their environment. \<open>se_Prices\<close> is the price server's answer to a
  path and the text of the request.\<close>

record service_env =
  se_Compile :: "string \<Rightarrow> go_error option"
  se_Match :: "string \<Rightarrow> string \<Rightarrow> bool"
  se_ReadFile :: "string \<Rightarrow> bytes result"
  se_LoadTLS :: "string \<Rightarrow> go_error option"
  se_Dial :: "string \<Rightarrow> go_error option"
  se_WriteRequest :: "http_request \<Rightarrow> string result"
  se_Prices :: "string \<Rightarrow> string \<Rightarrow> string \<Rightarrow> GetPaymentDetailsResponse result"
  se_ClosePricer :: "string \<Rightarrow> go_error option"

definition NewGRPCPricer :: "service_env \<Rightarrow> pricer_Config \<Rightarrow> Pricer result" where
  "NewGRPCPricer env cfg =
     rbind
       (if pc_Insecure cfg then Inr ()
        else (case se_LoadTLS env (pc_TLSCertPath cfg) of
                Some e \<Rightarrow> Inl (Errorf ''unable to load TLS cert'') | None \<Rightarrow> Inr ()))
       (\<lambda>_. case se_Dial env (pc_GRPCAddress cfg) of
              Some e \<Rightarrow> Inl e | None \<Rightarrow> Inr (GRPCPricer (pc_GRPCAddress cfg)))"

fun GetPaymentDetails :: "service_env \<Rightarrow> Pricer \<Rightarrow> http_request \<Rightarrow> GetPaymentDetailsResponse result" where
  "GetPaymentDetails env (DefaultPricer recipient price) r =
     Inr \<lparr>pd_RecipientLud16 = recipient, pd_Price = price\<rparr>"
| "GetPaymentDetails env (GRPCPricer addr) r =
     rbind (se_WriteRequest env r) (\<lambda>text. se_Prices env addr (req_Path r) text)"

fun Pricer_Close :: "service_env \<Rightarrow> Pricer \<Rightarrow> unit result" where
  "Pricer_Close env (DefaultPricer recipient price) = Inr ()"
| "Pricer_Close env (GRPCPricer addr) = (case se_ClosePricer env addr of Some e \<Rightarrow> Inl e | None \<Rightarrow> Inr ())"

subsection \<open>Services\<close>

record proxy_Service =
  ps_Name :: string
  ps_TLSCertPath :: string
  ps_Address :: string
  ps_Protocol :: string
  ps_Auth :: Level
  ps_HostRegexp :: string
  ps_PathRegexp :: string
  ps_Headers :: "(string \<times> string) list"
  ps_Timeout :: int
  ps_Capabilities :: string
  ps_Constraints :: "(string \<times> string) list"
  ps_Price :: int
  ps_DynamicPrice :: pricer_Config
  ps_AuthWhitelistPaths :: "string list"
  ps_freebieDB :: "memStore option"
  ps_pricer :: "Pricer option"

definition ResourceName :: "proxy_Service \<Rightarrow> string \<Rightarrow> string" where
  "ResourceName s resourcePath =
     (if pc_Enabled (ps_DynamicPrice s) then ps_Name s @ resourcePath else ps_Name s)"

text \<open>\<^verbatim>\<open>regexp.MustCompile(p).MatchString(s)\<close> panics on a pattern that does not compile.\<close>

definition MustMatch :: "service_env \<Rightarrow> string \<Rightarrow> string \<Rightarrow> bool result" where
  "MustMatch env p s = (case se_Compile env p of Some e \<Rightarrow> Inl (Panic ''regexp: Compile'') | None \<Rightarrow> Inr (se_Match env p s))"

fun whitelisted :: "service_env \<Rightarrow> string list \<Rightarrow> string \<Rightarrow> bool result" where
  "whitelisted env [] path = Inr False"
| "whitelisted env (p # ps) path =
     rbind (MustMatch env p path) (\<lambda>b. if b then Inr True else whitelisted env ps path)"

definition AuthRequired :: "service_env \<Rightarrow> proxy_Service \<Rightarrow> http_request \<Rightarrow> Level result" where
  "AuthRequired env s r =
     rbind (whitelisted env (ps_AuthWhitelistPaths s) (req_Path r)) (\<lambda>b.
       Inr (if b then LevelOff else ps_Auth s))"

definition filePrefix :: string where "filePrefix = ''!file''"
definition filePrefixHex :: string where "filePrefixHex = ''!file+hex''"
definition filePrefixBase64 :: string where "filePrefixBase64 = ''!file+base64''"
definition defaultServicePrice :: int where "defaultServicePrice = 1"
definition maxServicePrice :: int where "maxServicePrice = 100000000 * 100000"

definition headerValue :: "service_env \<Rightarrow> string \<Rightarrow> string result" where
  "headerValue env value =
     (if \<not> has_prefix value filePrefix then Inr value
      else (case split_on (CHR '':'') value of
              [prefix, fileName] \<Rightarrow>
                rbind (se_ReadFile env fileName) (\<lambda>bytes.
                  if prefix = filePrefixHex then Inr (hex_encode bytes)
                  else if prefix = filePrefixBase64 then Inr (b64_encode bytes)
                  else Inl (Errorf ''unsupported file prefix format''))
            | _ \<Rightarrow> Inl (Errorf ''invalid header config'')))"

text \<open>The body of the loop in \<^verbatim>\<open>prepareServices\<close>, in its parts: the freebie store, the pricer, and
  the two between the checks of header fields and whitelist.\<close>

definition prepareFreebie :: "proxy_Service \<Rightarrow> memStore option result" where
  "prepareFreebie service =
     (if IsFreebie (ps_Auth service)
      then rbind (FreebieCount (ps_Auth service)) (\<lambda>n. Inr (Some (NewMemIPMaskStore n)))
      else Inr (ps_freebieDB service))"

definition preparePricer :: "service_env \<Rightarrow> proxy_Service \<Rightarrow> proxy_Service result" where
  "preparePricer env service =
     (if pc_Enabled (ps_DynamicPrice service) then
        (case NewGRPCPricer env (ps_DynamicPrice service) of
           Inl e \<Rightarrow> Inl (Errorf ''error initializing pricer'')
         | Inr priceClient \<Rightarrow> Inr (service\<lparr>ps_pricer := Some priceClient\<rparr>))
      else if ps_Price service < 0 then Inl (Errorf ''negative price set for service'')
      else if ps_Price service > maxServicePrice then Inl (Errorf ''maximum price exceeded for service'')
      else let price = (if ps_Price service = 0 then defaultServicePrice else ps_Price service)
           in Inr (service\<lparr>ps_Price := price, ps_pricer := Some (NewDefaultPricer price)\<rparr>))"

definition prepareService :: "service_env \<Rightarrow> proxy_Service \<Rightarrow> proxy_Service result" where
  "prepareService env service =
     rbind (prepareFreebie service) (\<lambda>db.
     rbind (rmap (\<lambda>(key, value). rbind (headerValue env value) (\<lambda>v. Inr (key, v))) (ps_Headers service)) (\<lambda>headers.
     rbind (rcheck (\<lambda>entry. ensure (se_Compile env entry = None) (Errorf ''error validating auth whitelist''))
              (ps_AuthWhitelistPaths service)) (\<lambda>_.
       preparePricer env (service\<lparr>ps_freebieDB := db, ps_Headers := headers\<rparr>))))"

definition prepareServices :: "service_env \<Rightarrow> proxy_Service list \<Rightarrow> proxy_Service list result" where
  "prepareServices env services = rmap (prepareService env) services"

subsection \<open>Properties\<close>

text \<open>What a prepared service can rely on at request time.\<close>

definition prepared :: "service_env \<Rightarrow> proxy_Service \<Rightarrow> bool" where
  "prepared env s \<longleftrightarrow>
     ps_pricer s \<noteq> None \<and>
     (IsFreebie (ps_Auth s) \<longrightarrow> ps_freebieDB s \<noteq> None) \<and>
     (\<forall>p \<in> set (ps_AuthWhitelistPaths s). se_Compile env p = None) \<and>
     (\<not> pc_Enabled (ps_DynamicPrice s) \<longrightarrow>
        1 \<le> ps_Price s \<and> ps_Price s \<le> maxServicePrice \<and> ps_pricer s = Some (DefaultPricer [] (ps_Price s)))"

text \<open>Preparing a service leaves its matching and its identity alone.\<close>

definition same_service :: "proxy_Service \<Rightarrow> proxy_Service \<Rightarrow> bool" where
  "same_service s s' \<longleftrightarrow> ps_Name s' = ps_Name s \<and> ps_Address s' = ps_Address s \<and> ps_Protocol s' = ps_Protocol s \<and>
     ps_Auth s' = ps_Auth s \<and> ps_HostRegexp s' = ps_HostRegexp s \<and> ps_PathRegexp s' = ps_PathRegexp s \<and>
     ps_AuthWhitelistPaths s' = ps_AuthWhitelistPaths s \<and> ps_DynamicPrice s' = ps_DynamicPrice s \<and>
     map fst (ps_Headers s') = map fst (ps_Headers s)"

lemma rmap_keys:
  "rmap (\<lambda>(k, v). rbind (f v) (\<lambda>w. Inr (k, w))) xs = Inr ys \<Longrightarrow> map fst ys = map fst xs"
  by (induction xs arbitrary: ys) (auto simp: rbind_eq_Inr)

lemma prepareService_prepared:
  assumes "prepareService env s = Inr s'"
  shows "prepared env s' \<and> same_service s s'"
proof -
  from assms obtain db headers where
    db: "prepareFreebie s = Inr db"
    and hd: "rmap (\<lambda>(key, value). rbind (headerValue env value) (\<lambda>v. Inr (key, v))) (ps_Headers s) = Inr headers"
    and wl: "\<forall>p \<in> set (ps_AuthWhitelistPaths s). se_Compile env p = None"
    and rest: "preparePricer env (s\<lparr>ps_freebieDB := db, ps_Headers := headers\<rparr>) = Inr s'"
    unfolding prepareService_def by (auto simp: result_simps)
  from db have "IsFreebie (ps_Auth s) \<longrightarrow> db \<noteq> None" by (auto simp: prepareFreebie_def result_simps)
  then show ?thesis
    using rest wl rmap_keys [OF hd]
    by (auto simp: preparePricer_def Let_def prepared_def same_service_def NewDefaultPricer_def defaultServicePrice_def
        maxServicePrice_def split: if_splits sum.splits)
qed

lemma whitelisted_total:
  "\<forall>p \<in> set ps. se_Compile env p = None \<Longrightarrow>
     whitelisted env ps path = Inr (\<exists>p \<in> set ps. se_Match env p path)"
  by (induction ps) (auto simp: MustMatch_def)

text \<open>
  C29: preparation establishes what serving requests relies on: every service that
  \<^verbatim>\<open>prepareServices\<close> accepts has a pricer, a freebie store when its level asks for one, only
  whitelist entries that compile (so \<^verbatim>\<open>AuthRequired\<close> cannot panic), and without dynamic prices
  a static price between 1 and the maximum; matching, address, level and name are unchanged.
\<close>

theorem prepareServices_establishes:
  assumes "prepareServices env services = Inr services'"
  shows "list_all2 (\<lambda>s s'. prepared env s' \<and> same_service s s') services services' \<and>
     (\<forall>s' \<in> set services'. \<forall>r. AuthRequired env s' r =
        Inr (if \<exists>p \<in> set (ps_AuthWhitelistPaths s'). se_Match env p (req_Path r) then LevelOff else ps_Auth s'))"
proof -
  have all: "list_all2 (\<lambda>s s'. prepared env s' \<and> same_service s s') services services'"
    using assms unfolding prepareServices_def rmap_Inr_iff
    by (rule list_all2_mono) (rule prepareService_prepared)
  have "prepared env s'" if "s' \<in> set services'" for s'
    using all that by (metis (no_types, lifting) list_all2_conv_all_nth in_set_conv_nth)
  then show ?thesis using all by (auto simp: AuthRequired_def prepared_def whitelisted_total)
qed

definition sample_service_env :: service_env where
  "sample_service_env = \<lparr>se_Compile = (\<lambda>p. None), se_Match = (\<lambda>p s. p = s), se_ReadFile = (\<lambda>f. Inr ''x''),
     se_LoadTLS = (\<lambda>p. None), se_Dial = (\<lambda>a. None), se_WriteRequest = (\<lambda>r. Inr []),
     se_Prices = (\<lambda>a p t. Inr \<lparr>pd_RecipientLud16 = ''u@d'', pd_Price = 7\<rparr>), se_ClosePricer = (\<lambda>a. None)\<rparr>"

definition sample_service :: proxy_Service where
  "sample_service = \<lparr>ps_Name = ''svc'', ps_TLSCertPath = [], ps_Address = ''127.0.0.1:1'', ps_Protocol = ''http'',
     ps_Auth = ''on'', ps_HostRegexp = ''h'', ps_PathRegexp = [], ps_Headers = [(''k'', ''!file+hex:f'')],
     ps_Timeout = 0, ps_Capabilities = [], ps_Constraints = [], ps_Price = 0,
     ps_DynamicPrice = \<lparr>pc_Enabled = False, pc_GRPCAddress = [], pc_Insecure = True, pc_TLSCertPath = []\<rparr>,
     ps_AuthWhitelistPaths = [''/free''], ps_freebieDB = None, ps_pricer = None\<rparr>"

definition sample_prepared :: proxy_Service where
  "sample_prepared = sample_service\<lparr>ps_Price := 1, ps_Headers := [(''k'', ''78'')], ps_pricer := Some (DefaultPricer [] 1)\<rparr>"

lemma sample_header: "headerValue sample_service_env ''!file+hex:f'' = Inr ''78''"
proof -
  have "hex_encode ''x'' = ''78''" by (simp add: hex_char_def byte_of_def byte_val_def char_of_eq_iff)
  then show ?thesis
    by (simp add: headerValue_def has_prefix_def filePrefix_def filePrefixHex_def sample_service_env_def)
qed

lemma sample_not_freebie: "\<not> IsFreebie ''on''"
  by (simp add: IsFreebie_def to_lower_def lower_char_def byte_val_def has_prefix_def)

lemma sample_prepareServices: "prepareServices sample_service_env [sample_service] = Inr [sample_prepared]"
proof -
  have c: "se_Compile sample_service_env p = None" for p by (simp add: sample_service_env_def)
  have 1: "prepareFreebie sample_service = Inr None"
    by (simp add: prepareFreebie_def sample_service_def sample_not_freebie)
  have 2: "rmap (\<lambda>(key, value). rbind (headerValue sample_service_env value) (\<lambda>v. Inr (key, v))) (ps_Headers sample_service)
      = Inr [(''k'', ''78'')]"
    by (simp add: sample_service_def sample_header)
  have 3: "preparePricer sample_service_env (sample_service\<lparr>ps_freebieDB := None, ps_Headers := [(''k'', ''78'')]\<rparr>)
      = Inr sample_prepared"
    by (simp add: preparePricer_def sample_service_def sample_prepared_def maxServicePrice_def
        defaultServicePrice_def NewDefaultPricer_def)
  have "prepareService sample_service_env sample_service = Inr sample_prepared"
    by (simp add: prepareService_def 1 2 3 c result_simps)
  then show ?thesis by (simp add: prepareServices_def)
qed

theorem prepareServices_establishes_witness: "prepared sample_service_env sample_prepared"
  using prepareServices_establishes [OF sample_prepareServices] by simp

end
