(* ===== verification/Lsat_Service.thy ===== *)
theory Lsat_Service
  imports Lsat_Caveat
begin

text \<open>
  \<^verbatim>\<open>aperture/lsat/service.go\<close>: services, the text of a services caveat, and the constructors of
  the services, capabilities and timeout caveats.
\<close>

record Service =
  Name :: string
  Tier :: "8 word"
  RecipientLud16 :: string
  Price :: int

definition BaseTier :: "8 word" where "BaseTier = 0"
definition CondServices :: string where "CondServices = ''services''"
definition CondCapabilitiesSuffix :: string where "CondCapabilitiesSuffix = ''_capabilities''"
definition CondTimeoutSuffix :: string where "CondTimeoutSuffix = ''_valid_until''"

text \<open>The verbs \<^verbatim>\<open>%v:%v\<close> applied to the name and the tier.\<close>

definition formatService :: "Service \<Rightarrow> string" where
  "formatService s = Name s @ [CHR '':''] @ dec_nat (unat (Tier s))"

fun encodeServices_loop :: "Service list \<Rightarrow> string result" where
  "encodeServices_loop [] = Inr []"
| "encodeServices_loop (s # ss) =
     (if Name s = [] then Inl (Errorf ''missing service name'')
      else rbind (encodeServices_loop ss) (\<lambda>r.
             Inr (formatService s @ (if ss = [] then [] else [CHR '','']) @ r)))"

definition encodeServicesCaveatValue :: "Service list \<Rightarrow> string result" where
  "encodeServicesCaveatValue services =
     (if services = [] then Inl (Sentinel ErrNoServices) else encodeServices_loop services)"

definition decodeService :: "string \<Rightarrow> Service result" where
  "decodeService rawService =
     (case split_on (CHR '':'') rawService of
        [name, tierStr] \<Rightarrow>
          (if name = [] then Inl (Wrap ''empty name'' (Sentinel ErrInvalidService))
           else (case parse_int tierStr of
                   Inl e \<Rightarrow> Inl (Wrap ''invalid tier'' (Sentinel ErrInvalidService))
                 | Inr tier \<Rightarrow> Inr \<lparr>Name = name, Tier = word_of_int tier,
                                    RecipientLud16 = [], Price = 0\<rparr>))
      | _ \<Rightarrow> Inl (Sentinel ErrInvalidService))"

definition decodeServicesCaveatValue :: "string \<Rightarrow> Service list result" where
  "decodeServicesCaveatValue s =
     (if s = [] then Inl (Sentinel ErrNoServices) else rmap decodeService (split_on (CHR '','') s))"

definition NewServicesCaveat :: "Service list \<Rightarrow> Caveat result" where
  "NewServicesCaveat services =
     rbind (encodeServicesCaveatValue services) (\<lambda>v. Inr \<lparr>Condition = CondServices, Value = v\<rparr>)"

definition NewCapabilitiesCaveat :: "string \<Rightarrow> string \<Rightarrow> Caveat" where
  "NewCapabilitiesCaveat serviceName capabilities =
     \<lparr>Condition = serviceName @ CondCapabilitiesSuffix, Value = capabilities\<rparr>"

definition NewTimeoutCaveat :: "string \<Rightarrow> int \<Rightarrow> time \<Rightarrow> Caveat" where
  "NewTimeoutCaveat serviceName numSeconds now =
     \<lparr>Condition = serviceName @ CondTimeoutSuffix,
      Value = format_int (time_unix (time_add now (seconds numSeconds)))\<rparr>"

subsection \<open>Properties\<close>

text \<open>What the caveat keeps of a service: its name and tier.\<close>

definition caveat_view :: "Service \<Rightarrow> Service" where
  "caveat_view s = \<lparr>Name = Name s, Tier = Tier s, RecipientLud16 = [], Price = 0\<rparr>"

definition clean_name :: "string \<Rightarrow> bool" where
  "clean_name n \<longleftrightarrow> n \<noteq> [] \<and> CHR '','' \<notin> set n \<and> CHR '':'' \<notin> set n"

lemma encodeServices_loop_join:
  "(\<And>s. s \<in> set ss \<Longrightarrow> Name s \<noteq> []) \<Longrightarrow>
     encodeServices_loop ss = Inr (join_with (CHR '','') (map formatService ss))"
proof (induction ss)
  case (Cons s ss)
  then show ?case by (cases ss) auto
qed simp

lemma encodeServices_loop_error:
  "encodeServices_loop ss = Inl e \<longleftrightarrow> e = Errorf ''missing service name'' \<and> (\<exists>s \<in> set ss. Name s = [])"
  by (induction ss) (auto simp: result_simps)

lemma encodeServicesCaveatValue_ok:
  "encodeServicesCaveatValue ss = Inr v \<longleftrightarrow>
     ss \<noteq> [] \<and> (\<forall>s \<in> set ss. Name s \<noteq> []) \<and> v = join_with (CHR '','') (map formatService ss)"
proof (cases "\<exists>s \<in> set ss. Name s = []")
  case True
  then show ?thesis using encodeServices_loop_error [of ss "Errorf ''missing service name''"]
    by (auto simp: encodeServicesCaveatValue_def)
next
  case False
  then have "\<And>s. s \<in> set ss \<Longrightarrow> Name s \<noteq> []" by auto
  from encodeServices_loop_join [OF this] False show ?thesis
    by (auto simp: encodeServicesCaveatValue_def)
qed

lemma dec_nat_no_sep: "CHR '','' \<notin> set (dec_nat n)" "CHR '':'' \<notin> set (dec_nat n)"
  using dec_nat_digits [of "CHR '',''" n] dec_nat_digits [of "CHR '':''" n] by auto

lemma parse_int_dec_nat: "n < 256 \<Longrightarrow> parse_int (dec_nat n) = Inr (int n)"
  using parse_format_int [of "int n"] by (simp add: format_int_def in_int64_def)

lemma decodeService_format:
  "Name s \<noteq> [] \<Longrightarrow> CHR '':'' \<notin> set (Name s) \<Longrightarrow> decodeService (formatService s) = Inr (caveat_view s)"
proof -
  assume n: "Name s \<noteq> []" "CHR '':'' \<notin> set (Name s)"
  have "unat (Tier s) < 256" using unsigned_less [of "Tier s"] by simp
  with n show ?thesis
    by (simp add: decodeService_def formatService_def split_on_append split_on_clean dec_nat_no_sep
        parse_int_dec_nat caveat_view_def)
qed

lemma formatService_no_comma: "CHR '','' \<notin> set (Name s) \<Longrightarrow> CHR '','' \<notin> set (formatService s)"
  by (simp add: formatService_def dec_nat_no_sep)

lemma formatService_nonempty: "formatService s \<noteq> []"
  by (simp add: formatService_def)

lemma join_with_nonempty: "ps \<noteq> [] \<Longrightarrow> (\<And>p. p \<in> set ps \<Longrightarrow> p \<noteq> []) \<Longrightarrow> join_with c ps \<noteq> []"
  by (induction c ps rule: join_with.induct) auto

lemma decode_encodeServices:
  assumes "ss \<noteq> []" and "\<And>s. s \<in> set ss \<Longrightarrow> clean_name (Name s)"
    and "encodeServicesCaveatValue ss = Inr v"
  shows "decodeServicesCaveatValue v = Inr (map caveat_view ss)"
proof -
  have v: "v = join_with (CHR '','') (map formatService ss)"
    using assms(3) by (simp add: encodeServicesCaveatValue_ok)
  have ne: "v \<noteq> []"
    unfolding v using assms(1) by (intro join_with_nonempty) (auto simp: formatService_nonempty)
  have split: "split_on (CHR '','') v = map formatService ss"
    unfolding v using assms(1,2) by (intro split_on_join) (auto simp: formatService_no_comma clean_name_def)
  have "rmap decodeService (map formatService ss) = Inr (map caveat_view ss)"
    using assms(2) by (auto simp: rmap_Inr_iff list_all2_conv_all_nth decodeService_format clean_name_def)
  with ne split show ?thesis by (simp add: decodeServicesCaveatValue_def)
qed

text \<open>A name with both separators in it encodes to the text of two services.\<close>

lemma encodeServices_injection:
  assumes "clean_name a" and "clean_name b"
    and "encodeServicesCaveatValue
           [\<lparr>Name = a @ '':0,'' @ b, Tier = t, RecipientLud16 = r, Price = p\<rparr>] = Inr v"
  shows "decodeServicesCaveatValue v =
     Inr [\<lparr>Name = a, Tier = 0, RecipientLud16 = [], Price = 0\<rparr>,
          \<lparr>Name = b, Tier = t, RecipientLud16 = [], Price = 0\<rparr>]"
proof -
  let ?s = "\<lparr>Name = a, Tier = 0, RecipientLud16 = [], Price = 0\<rparr>"
  let ?t = "\<lparr>Name = b, Tier = t, RecipientLud16 = [], Price = 0\<rparr>"
  have d0: "dec_nat 0 = ''0''" by (simp add: dec_nat.simps digit_char_def byte_of_def char_of_eq_iff)
  have "encodeServicesCaveatValue [?s, ?t] = Inr v"
    using assms by (simp add: encodeServicesCaveatValue_ok formatService_def d0 clean_name_def)
  moreover have "clean_name (Name s)" if "s \<in> set [?s, ?t]" for s
    using that assms(1,2) by auto
  ultimately have "decodeServicesCaveatValue v = Inr (map caveat_view [?s, ?t])"
    by (intro decode_encodeServices) auto
  then show ?thesis by (simp add: caveat_view_def)
qed

end
