(* ===== verification/Lsat_Satisfier.thy ===== *)
theory Lsat_Satisfier
  imports Lsat_Service
begin

text \<open>
  \<^verbatim>\<open>aperture/lsat/satisfier.go\<close>: the satisfiers for services, capabilities and timeouts.
  The contract they share, that a caveat accepted after another one is at most as permissive,
  is the locale \<open>attenuating\<close>; it is interpreted for each of the three, and from it
  follows that extending a list of caveats never turns a refusal into an acceptance.
\<close>

definition serviceNames :: "Service list \<Rightarrow> string set" where
  "serviceNames ss = Name ` set ss"

definition NewServicesSatisfier :: "string \<Rightarrow> Satisfier" where
  "NewServicesSatisfier targetService = \<lparr>
     SatCondition = CondServices,
     SatisfyPrevious = (\<lambda>prev cur.
       rbind (decodeServicesCaveatValue (Value prev)) (\<lambda>prevServices.
       rbind (decodeServicesCaveatValue (Value cur)) (\<lambda>currentServices.
         rcheck (\<lambda>service. ensure (Name service \<in> serviceNames prevServices)
                             (Errorf ''service not previously allowed'')) currentServices))),
     SatisfyFinal = (\<lambda>c.
       rbind (decodeServicesCaveatValue (Value c)) (\<lambda>services.
         ensure (\<exists>service \<in> set services. Name service = targetService)
           (Errorf ''target service not authorized''))) \<rparr>"

definition NewCapabilitiesSatisfier :: "string \<Rightarrow> string \<Rightarrow> Satisfier" where
  "NewCapabilitiesSatisfier service targetCapability = \<lparr>
     SatCondition = service @ CondCapabilitiesSuffix,
     SatisfyPrevious = (\<lambda>prev cur.
       rcheck (\<lambda>capability. ensure (capability \<in> set (split_on (CHR '','') (Value prev)))
                              (Errorf ''capability not previously allowed''))
         (split_on (CHR '','') (Value cur))),
     SatisfyFinal = (\<lambda>c.
       ensure (targetCapability \<in> set (split_on (CHR '','') (Value c)))
         (Errorf ''target capability not authorized'')) \<rparr>"

definition NewTimeoutSatisfier :: "string \<Rightarrow> time \<Rightarrow> Satisfier" where
  "NewTimeoutSatisfier service now = \<lparr>
     SatCondition = service @ CondTimeoutSuffix,
     SatisfyPrevious = (\<lambda>prev cur.
       (case parse_int (Value prev) of
          Inl e \<Rightarrow> Inl (Wrap ''error parsing previous caveat value'' e)
        | Inr prevValue \<Rightarrow> (case parse_int (Value cur) of
            Inl e \<Rightarrow> Inl (Wrap ''error parsing caveat value'' e)
          | Inr currValue \<Rightarrow>
              ensure (\<not> time_before (time_Unix prevValue 0) (time_Unix currValue 0))
                (Errorf ''caveat violates increasing restrictiveness'')))),
     SatisfyFinal = (\<lambda>c.
       (case parse_int (Value c) of
          Inl e \<Rightarrow> Inl (Errorf ''caveat value not a valid integer'')
        | Inr expirationTimestamp \<Rightarrow>
            ensure (time_before now (time_Unix expirationTimestamp 0))
              (Errorf ''not authorized to access service. L402 has expired''))) \<rparr>"

subsection \<open>The contract of a satisfier\<close>

text \<open>
  A satisfier attenuates when a caveat that may follow another and is itself satisfied was
  already satisfied before: the later caveat only takes permissions away.
\<close>

locale attenuating =
  fixes s :: Satisfier
  assumes weaker_before:
    "SatisfyPrevious s p c = Inr () \<Longrightarrow> SatisfyFinal s c = Inr () \<Longrightarrow> SatisfyFinal s p = Inr ()"
begin

lemma condition_holds_butlast:
  assumes "condition_holds s (l @ [c])" and "l \<noteq> []"
  shows "condition_holds s l"
proof -
  from assms have chain: "\<forall>i. Suc i < length (l @ [c]) \<longrightarrow>
      SatisfyPrevious s ((l @ [c]) ! i) ((l @ [c]) ! Suc i) = Inr ()"
    and fin: "SatisfyFinal s c = Inr ()"
    by (simp_all add: condition_holds_def)
  from assms(2) have "SatisfyPrevious s (last l) c = Inr ()"
    using chain [rule_format, of "length l - 1"]
    by (simp add: nth_append last_conv_nth)
  with fin have "SatisfyFinal s (last l) = Inr ()" by (rule weaker_before [rotated])
  moreover have "SatisfyPrevious s (l ! i) (l ! Suc i) = Inr ()" if "Suc i < length l" for i
    using chain [rule_format, of i] that by (simp add: nth_append)
  ultimately show ?thesis by (simp add: condition_holds_def)
qed

lemma condition_holds_prefix:
  "condition_holds s (l @ r) \<Longrightarrow> l \<noteq> [] \<Longrightarrow> condition_holds s l"
proof (induction r rule: rev_induct)
  case (snoc c r)
  from snoc.prems condition_holds_butlast [of "l @ r" c] have "condition_holds s (l @ r)"
    by simp
  with snoc show ?case by simp
qed simp

text \<open>So every caveat of an accepted chain would have been accepted on its own.\<close>

lemma all_final:
  assumes "condition_holds s l" and "c \<in> set l"
  shows "SatisfyFinal s c = Inr ()"
proof -
  from assms(2) obtain a b where l: "l = a @ c # b" by (meson split_list)
  with assms(1) condition_holds_prefix [of "a @ [c]" b] have "condition_holds s (a @ [c])" by simp
  then show ?thesis by (simp add: condition_holds_def)
qed

end

lemma services_previous_ok:
  "SatisfyPrevious (NewServicesSatisfier t) p c = Inr () \<longleftrightarrow>
     (\<exists>ps cs. decodeServicesCaveatValue (Value p) = Inr ps \<and>
        decodeServicesCaveatValue (Value c) = Inr cs \<and> serviceNames cs \<subseteq> serviceNames ps)"
  by (simp add: NewServicesSatisfier_def result_simps serviceNames_def image_subset_iff)

lemma services_final_ok:
  "SatisfyFinal (NewServicesSatisfier t) c = Inr () \<longleftrightarrow>
     (\<exists>cs. decodeServicesCaveatValue (Value c) = Inr cs \<and> t \<in> serviceNames cs)"
  by (auto simp: NewServicesSatisfier_def result_simps serviceNames_def)

lemma timeout_final_ok:
  "SatisfyFinal (NewTimeoutSatisfier t now) c = Inr () \<longleftrightarrow>
     (\<exists>v. parse_int (Value c) = Inr v \<and> time_before now (time_Unix v 0))"
  by (auto simp: NewTimeoutSatisfier_def result_simps split: sum.splits)

lemma timeout_previous_ok:
  "SatisfyPrevious (NewTimeoutSatisfier t now) p c = Inr () \<longleftrightarrow>
     (\<exists>v w. parse_int (Value p) = Inr v \<and> parse_int (Value c) = Inr w \<and>
        \<not> time_before (time_Unix v 0) (time_Unix w 0))"
  by (auto simp: NewTimeoutSatisfier_def result_simps split: sum.splits)

interpretation services_sat: attenuating "NewServicesSatisfier t" for t
  by unfold_locales (auto simp: services_previous_ok services_final_ok)

interpretation capabilities_sat: attenuating "NewCapabilitiesSatisfier svc t" for svc t
  by unfold_locales (auto simp: NewCapabilitiesSatisfier_def result_simps)

interpretation timeout_sat: attenuating "NewTimeoutSatisfier svc now" for svc now
  by unfold_locales
    (auto simp: timeout_previous_ok timeout_final_ok dest: time_before_le_trans)

subsection \<open>Attenuation of whole caveat lists\<close>

lemma VerifyCaveats_prefix:
  assumes att: "\<And>s. s \<in> set sats \<Longrightarrow> attenuating s"
    and ord: "\<And>ks. set (range_order ks) = set ks"
    and ok: "VerifyCaveats range_order (cs @ ds) sats = Inr ()"
  shows "VerifyCaveats range_order cs sats = Inr ()"
proof -
  have sat: "s \<in> set sats" if "caveatSatisfiers sats cond = Some s" for cond s
    using that by (auto simp: caveatSatisfiers_def foldl_map_upd dest!: map_of_SomeD split: option.splits)
  show ?thesis
    unfolding VerifyCaveats_ok [OF ord] Let_def
  proof (intro allI impI)
    fix cond s
    let ?l = "filter (\<lambda>c. Condition c = cond) cs"
    let ?r = "filter (\<lambda>c. Condition c = cond) ds"
    assume s: "caveatSatisfiers sats cond = Some s" and ne: "?l \<noteq> []"
    from ok s ne have "condition_holds s (?l @ ?r)"
      unfolding VerifyCaveats_ok [OF ord] Let_def by simp
    with att [OF sat [OF s]] ne show "condition_holds s ?l"
      using attenuating.condition_holds_prefix by blast
  qed
qed

end
