(* ===== verification/Service_Limiter.thy ===== *)
theory Service_Limiter
  imports Proxy_Service Lsat_Satisfier
begin

text \<open>
  \<^verbatim>\<open>aperture/services.go\<close>: the limiter that adds the configured capability, constraint and
  timeout caveats to a new L402. Its maps are keyed by a whole \<^verbatim>\<open>lsat.Service\<close>. The interface
  \<^verbatim>\<open>mint.ServiceLimiter\<close> is the record \<open>limiter_ops\<close> with the contract \<open>service_limiter\<close>.
\<close>

record staticServiceLimiter =
  sl_capabilities :: "Service \<rightharpoonup> Caveat"
  sl_constraints :: "Service \<rightharpoonup> Caveat list"
  sl_timeouts :: "Service \<rightharpoonup> Caveat"

text \<open>The key of a configured service: no recipient, the configured price.\<close>

definition limiter_key :: "proxy_Service \<Rightarrow> Service" where
  "limiter_key p = \<lparr>Name = ps_Name p, Tier = BaseTier, RecipientLud16 = [], Price = ps_Price p\<rparr>"

text \<open>The body of the loop; \<open>now\<close> is the clock when the service is added.\<close>

definition limitService :: "staticServiceLimiter \<Rightarrow> time \<times> proxy_Service \<Rightarrow> staticServiceLimiter" where
  "limitService l c =
     (case c of (now, p) \<Rightarrow>
      let s = limiter_key p;
          timeouts = (if ps_Timeout p > 0
                      then (sl_timeouts l)(s \<mapsto> NewTimeoutCaveat (ps_Name p) (ps_Timeout p) now)
                      else sl_timeouts l);
          capabilities = (sl_capabilities l)(s \<mapsto> NewCapabilitiesCaveat (ps_Name p) (ps_Capabilities p));
          constraints = foldl (\<lambda>m (cond, v). m(s \<mapsto>
                          (case m s of None \<Rightarrow> [] | Some cs \<Rightarrow> cs) @ [\<lparr>Condition = cond, Value = v\<rparr>]))
                          (sl_constraints l) (ps_Constraints p)
      in \<lparr>sl_capabilities = capabilities, sl_constraints = constraints, sl_timeouts = timeouts\<rparr>)"

definition newStaticServiceLimiter :: "(nat \<Rightarrow> time) \<Rightarrow> proxy_Service list \<Rightarrow> staticServiceLimiter" where
  "newStaticServiceLimiter now services =
     foldl limitService \<lparr>sl_capabilities = Map.empty, sl_constraints = Map.empty, sl_timeouts = Map.empty\<rparr>
       (zip (map now [0..<length services]) services)"

text \<open>The three queries: for each service what the map has, in order.\<close>

fun ServiceCapabilities :: "staticServiceLimiter \<Rightarrow> Service list \<Rightarrow> Caveat list result" where
  "ServiceCapabilities l [] = Inr []"
| "ServiceCapabilities l (s # ss) =
     rbind (ServiceCapabilities l ss) (\<lambda>r.
       case sl_capabilities l s of None \<Rightarrow> Inr r | Some c \<Rightarrow> Inr (c # r))"

fun ServiceConstraints :: "staticServiceLimiter \<Rightarrow> Service list \<Rightarrow> Caveat list result" where
  "ServiceConstraints l [] = Inr []"
| "ServiceConstraints l (s # ss) =
     rbind (ServiceConstraints l ss) (\<lambda>r.
       case sl_constraints l s of None \<Rightarrow> Inr r | Some cs \<Rightarrow> Inr (cs @ r))"

fun ServiceTimeouts :: "staticServiceLimiter \<Rightarrow> Service list \<Rightarrow> Caveat list result" where
  "ServiceTimeouts l [] = Inr []"
| "ServiceTimeouts l (s # ss) =
     rbind (ServiceTimeouts l ss) (\<lambda>r.
       case sl_timeouts l s of None \<Rightarrow> Inr r | Some c \<Rightarrow> Inr (c # r))"

subsection \<open>The contract of a limiter\<close>

record limiter_ops =
  lim_Capabilities :: "Service list \<Rightarrow> Caveat list result"
  lim_Constraints :: "Service list \<Rightarrow> Caveat list result"
  lim_Timeouts :: "Service list \<Rightarrow> Caveat list result"

text \<open>A caveat that only restricts: it can be read back, and it is not a list of services.\<close>

definition restricting :: "Caveat \<Rightarrow> bool" where
  "restricting c \<longleftrightarrow> CHR ''='' \<notin> set (Condition c) \<and> Condition c \<noteq> CondServices"

locale service_limiter =
  fixes lim :: limiter_ops
    and allowed :: "Caveat \<Rightarrow> bool"
  assumes capabilities_ok: "\<exists>cs. lim_Capabilities lim ss = Inr cs \<and> (\<forall>c \<in> set cs. allowed c)"
    and constraints_ok: "\<exists>cs. lim_Constraints lim ss = Inr cs \<and> (\<forall>c \<in> set cs. allowed c)"
    and timeouts_ok: "\<exists>cs. lim_Timeouts lim ss = Inr cs \<and> (\<forall>c \<in> set cs. allowed c)"
begin

lemma limits:
  obtains caps cons touts where "lim_Capabilities lim ss = Inr caps" "lim_Constraints lim ss = Inr cons"
    "lim_Timeouts lim ss = Inr touts" "\<forall>c \<in> set (caps @ cons @ touts). allowed c"
proof -
  obtain a b c where "lim_Capabilities lim ss = Inr a \<and> (\<forall>c \<in> set a. allowed c)"
    "lim_Constraints lim ss = Inr b \<and> (\<forall>c \<in> set b. allowed c)"
    "lim_Timeouts lim ss = Inr c \<and> (\<forall>c \<in> set c. allowed c)"
    using capabilities_ok [of ss] constraints_ok [of ss] timeouts_ok [of ss] by blast
  then show ?thesis using that [of a b c] by auto
qed

end

definition static_limiter_ops :: "staticServiceLimiter \<Rightarrow> limiter_ops" where
  "static_limiter_ops l = \<lparr>lim_Capabilities = ServiceCapabilities l, lim_Constraints = ServiceConstraints l,
     lim_Timeouts = ServiceTimeouts l\<rparr>"

text \<open>The caveats a limiter can hand out.\<close>

definition limiter_caveats :: "staticServiceLimiter \<Rightarrow> Caveat set" where
  "limiter_caveats l = ran (sl_capabilities l) \<union> ran (sl_timeouts l) \<union> (\<Union>cs \<in> ran (sl_constraints l). set cs)"

lemma ServiceCapabilities_eq:
  "ServiceCapabilities l ss = Inr (List.map_filter (sl_capabilities l) ss)"
  by (induction ss) (auto simp: List.map_filter_simps split: option.splits)

lemma ServiceTimeouts_eq:
  "ServiceTimeouts l ss = Inr (List.map_filter (sl_timeouts l) ss)"
  by (induction ss) (auto simp: List.map_filter_simps split: option.splits)

lemma ServiceConstraints_eq:
  "ServiceConstraints l ss = Inr (concat (List.map_filter (sl_constraints l) ss))"
  by (induction ss) (auto simp: List.map_filter_simps split: option.splits)

lemma map_filter_ran: "x \<in> set (List.map_filter m ss) \<Longrightarrow> x \<in> ran m"
  by (auto simp: List.map_filter_def ran_def)

interpretation static_limiter: service_limiter "static_limiter_ops l" "\<lambda>c. c \<in> limiter_caveats l"
  by unfold_locales
    (auto simp: static_limiter_ops_def ServiceCapabilities_eq ServiceConstraints_eq ServiceTimeouts_eq
      limiter_caveats_def dest!: map_filter_ran)

subsection \<open>Which caveats a configuration gives\<close>

definition config_caveats :: "time \<Rightarrow> proxy_Service \<Rightarrow> Caveat set" where
  "config_caveats now p =
     {NewCapabilitiesCaveat (ps_Name p) (ps_Capabilities p)} \<union>
     (if ps_Timeout p > 0 then {NewTimeoutCaveat (ps_Name p) (ps_Timeout p) now} else {}) \<union>
     (\<lambda>(cond, v). \<lparr>Condition = cond, Value = v\<rparr>) ` set (ps_Constraints p)"

lemma foldl_constraints:
  "foldl (\<lambda>m (cond, v). m(s \<mapsto> (case m s of None \<Rightarrow> [] | Some cs \<Rightarrow> cs) @ [\<lparr>Condition = cond, Value = v\<rparr>])) m kvs t
     = (if t = s \<and> kvs \<noteq> [] then Some ((case m s of None \<Rightarrow> [] | Some cs \<Rightarrow> cs) @
           map (\<lambda>(cond, v). \<lparr>Condition = cond, Value = v\<rparr>) kvs) else m t)"
  by (induction kvs arbitrary: m) (auto split: option.splits)

lemma limitService_caveats:
  "limiter_caveats (limitService l (now, p)) \<subseteq> limiter_caveats l \<union> config_caveats now p"
proof
  fix c assume c: "c \<in> limiter_caveats (limitService l (now, p))"
  have upd: "ran (m(k \<mapsto> v)) \<subseteq> insert v (ran m)" for m :: "Service \<rightharpoonup> Caveat" and k v
    by (auto simp: ran_def)
  have cons: "\<Union> (set ` ran (foldl (\<lambda>m (cond, v). m(s \<mapsto> (case m s of None \<Rightarrow> [] | Some cs \<Rightarrow> cs) @ [\<lparr>Condition = cond, Value = v\<rparr>])) m kvs))
      \<subseteq> \<Union> (set ` ran m) \<union> (\<lambda>(cond, v). \<lparr>Condition = cond, Value = v\<rparr>) ` set kvs" for s m kvs
    by (auto simp: ran_def foldl_constraints split: if_splits option.splits)
  from c consider "c \<in> ran ((sl_capabilities l)(limiter_key p \<mapsto> NewCapabilitiesCaveat (ps_Name p) (ps_Capabilities p)))"
    | "c \<in> ran (if ps_Timeout p > 0
                then (sl_timeouts l)(limiter_key p \<mapsto> NewTimeoutCaveat (ps_Name p) (ps_Timeout p) now)
                else sl_timeouts l)"
    | "c \<in> \<Union> (set ` ran (foldl (\<lambda>m (cond, v). m(limiter_key p \<mapsto> (case m (limiter_key p) of None \<Rightarrow> [] | Some cs \<Rightarrow> cs) @
          [\<lparr>Condition = cond, Value = v\<rparr>])) (sl_constraints l) (ps_Constraints p)))"
    by (auto simp: limiter_caveats_def limitService_def Let_def)
  then show "c \<in> limiter_caveats l \<union> config_caveats now p"
  proof cases
    case 1
    then show ?thesis using upd [THEN subsetD] by (fastforce simp: limiter_caveats_def config_caveats_def)
  next
    case 2
    then show ?thesis using upd [THEN subsetD]
      by (cases "ps_Timeout p > 0") (fastforce simp: limiter_caveats_def config_caveats_def)+
  next
    case 3
    then have "c \<in> \<Union> (set ` ran (sl_constraints l)) \<union>
        (\<lambda>(cond, v). \<lparr>Condition = cond, Value = v\<rparr>) ` set (ps_Constraints p)"
      by (rule subsetD [OF cons])
    then show ?thesis by (auto simp: limiter_caveats_def config_caveats_def)
  qed
qed

lemma newStaticServiceLimiter_caveats:
  "c \<in> limiter_caveats (newStaticServiceLimiter now services) \<Longrightarrow>
     \<exists>i < length services. c \<in> config_caveats (now i) (services ! i)"
proof -
  have fold: "limiter_caveats (foldl limitService l cs) \<subseteq>
      limiter_caveats l \<union> (\<Union>(t, p) \<in> set cs. config_caveats t p)" for l cs
  proof (induction cs arbitrary: l)
    case (Cons c cs)
    obtain t p where c: "c = (t, p)" by (cases c)
    from Cons.IH [of "limitService l c"] limitService_caveats [of l t p] c show ?case by auto
  qed simp
  assume "c \<in> limiter_caveats (newStaticServiceLimiter now services)"
  with fold have "c \<in> (\<Union>(t, p) \<in> set (zip (map now [0..<length services]) services). config_caveats t p)"
    by (fastforce simp: newStaticServiceLimiter_def limiter_caveats_def)
  then show ?thesis by (fastforce simp: in_set_zip)
qed

text \<open>The keys have no recipient, so nothing is found for a service that has one, which is every
  service that a challenge can be made for.\<close>

lemma limiter_unknown:
  assumes "RecipientLud16 x \<noteq> []"
  shows "sl_capabilities (newStaticServiceLimiter now services) x = None"
    "sl_constraints (newStaticServiceLimiter now services) x = None"
    "sl_timeouts (newStaticServiceLimiter now services) x = None"
proof -
  have key: "limiter_key p \<noteq> x" "x \<noteq> limiter_key p" for p using assms by (auto simp: limiter_key_def)
  have "sl_capabilities (foldl limitService l cs) x = sl_capabilities l x \<and>
      sl_constraints (foldl limitService l cs) x = sl_constraints l x \<and>
      sl_timeouts (foldl limitService l cs) x = sl_timeouts l x" for l cs
    by (induction cs arbitrary: l) (auto simp: limitService_def Let_def key foldl_constraints)
  then show "sl_capabilities (newStaticServiceLimiter now services) x = None"
    "sl_constraints (newStaticServiceLimiter now services) x = None"
    "sl_timeouts (newStaticServiceLimiter now services) x = None"
    by (simp_all add: newStaticServiceLimiter_def)
qed

end
