(* ===== verification/Go_Sha256.thy ===== *)
theory Go_Sha256
  imports Go_Encoding
begin

text \<open>
  \<^verbatim>\<open>crypto/sha256.Sum256\<close>, with which the program keys its secrets: the hash of FIPS 180-4 on
  32-bit words. Nothing in the development depends on more of it than that it is a function
  with results of 32 bytes.
\<close>

unbundle bit_operations_syntax

type_synonym w32 = "32 word"

definition rotr :: "nat \<Rightarrow> w32 \<Rightarrow> w32" where
  "rotr n x = (drop_bit n x) OR (push_bit (32 - n) x)"

text \<open>
  The constants are the first 32 bits of the fractional parts of the cube roots of the first 64
  primes, and of the square roots of the first 8: \<open>root_bits\<close> finds the integer root bit by bit.
\<close>

fun root_bits :: "nat \<Rightarrow> nat \<Rightarrow> nat \<Rightarrow> nat \<Rightarrow> nat" where
  "root_bits k n 0 acc = acc"
| "root_bits k n (Suc b) acc =
     (let acc' = acc + 2 ^ b in root_bits k n b (if acc' ^ k \<le> n then acc' else acc))"

definition small_primes :: "nat list" where
  "small_primes = filter (\<lambda>p. list_all (\<lambda>d. p mod d \<noteq> 0) [2..<p]) [2..<312]"

definition sha_K :: "w32 list" where
  "sha_K = map (\<lambda>p. word_of_nat (root_bits 3 (p * 2 ^ 96) 36 0)) small_primes"

definition sha_init :: "w32 list" where
  "sha_init = map (\<lambda>p. word_of_nat (root_bits 2 (p * 2 ^ 64) 36 0)) [2, 3, 5, 7, 11, 13, 17, 19]"

text \<open>The message schedule, newest word first.\<close>

fun sha_schedule :: "nat \<Rightarrow> w32 list \<Rightarrow> w32 list" where
  "sha_schedule 0 ws = ws"
| "sha_schedule (Suc n) ws =
     (let s0 = (let x = ws ! 14 in rotr 7 x XOR rotr 18 x XOR drop_bit 3 x);
          s1 = (let x = ws ! 1 in rotr 17 x XOR rotr 19 x XOR drop_bit 10 x)
      in sha_schedule n ((ws ! 15 + s0 + ws ! 6 + s1) # ws))"

fun sha_round :: "w32 list \<Rightarrow> w32 \<times> w32 \<Rightarrow> w32 list" where
  "sha_round [a, b, c, d, e, f, g, h] (k, w) =
     (let S1 = rotr 6 e XOR rotr 11 e XOR rotr 25 e;
          ch = (e AND f) XOR (NOT e AND g);
          t1 = h + S1 + ch + k + w;
          S0 = rotr 2 a XOR rotr 13 a XOR rotr 22 a;
          maj = (a AND b) XOR (a AND c) XOR (b AND c)
      in [t1 + S0 + maj, a, b, c, d + t1, e, f, g])"
| "sha_round st kw = st"

definition sha_block :: "w32 list \<Rightarrow> w32 list \<Rightarrow> w32 list" where
  "sha_block st ws = map2 (+) st (foldl sha_round st (zip sha_K (rev (sha_schedule 48 (rev ws)))))"

fun chunks :: "nat \<Rightarrow> nat \<Rightarrow> 'a list \<Rightarrow> 'a list list" where
  "chunks k 0 xs = []"
| "chunks k (Suc n) xs = take k xs # chunks k n (drop k xs)"

definition sha_pad :: "bytes \<Rightarrow> bytes" where
  "sha_pad m = m @ [CHR 0x80] @ replicate ((119 - length m mod 64) mod 64) NUL
     @ be_bytes 8 (8 * length m mod 2 ^ 64)"

definition sha_words :: "bytes \<Rightarrow> w32 list" where
  "sha_words b = map (\<lambda>c. word_of_nat (be_val c)) (chunks 4 (length b div 4) b)"

definition sha256 :: "bytes \<Rightarrow> bytes" where
  "sha256 m =
     (let p = sha_pad m
      in concat (map (\<lambda>w. be_bytes 4 (unat w))
           (foldl (\<lambda>st c. sha_block st (sha_words c)) sha_init (chunks 64 (length p div 64) p))))"

lemma length_sha_round [simp]: "length (sha_round st kw) = length st"
  by (induction st kw rule: sha_round.induct) (simp_all add: Let_def)

lemma length_foldl_round: "length (foldl sha_round st kws) = length st"
  by (induction kws arbitrary: st) simp_all

lemma length_sha_block [simp]: "length (sha_block st ws) = length st"
  by (simp add: sha_block_def length_foldl_round)

lemma length_sha256 [simp]: "length (sha256 m) = 32"
proof -
  have "length (foldl (\<lambda>st c. sha_block st (sha_words c)) st cs) = length st" for st cs
    by (induction cs arbitrary: st) simp_all
  moreover have "length (concat (map (\<lambda>w. be_bytes 4 (unat w)) (ws :: w32 list))) = 4 * length ws" for ws
    by (induction ws) simp_all
  ultimately show ?thesis by (simp add: sha256_def Let_def sha_init_def)
qed

end
