(* ===== verification/Mint.thy ===== *)
theory Mint
  imports Secrets_Store Service_Limiter Lsat_Header Go_Sha256
begin

text \<open>
  \<^verbatim>\<open>aperture/mint/mint.go\<close>: minting an L402 (a macaroon bound to a payment request) and verifying
  one. The mint's dependencies are arguments: the secret store (\<open>secret_ops\<close>), the service
  limiter (\<open>limiter_ops\<close>), the challenger (a function on its state that returns a payment
  request with its payment hash), the macaroon library and the random bytes.
\<close>

type_synonym 'c new_challenge = "string \<Rightarrow> int \<Rightarrow> 'c \<Rightarrow> 'c \<times> (string \<times> bytes) result"

fun maxPrice_loop :: "string \<Rightarrow> int \<Rightarrow> Service list \<Rightarrow> string \<times> int" where
  "maxPrice_loop recipientLud16 maxPrice [] = (recipientLud16, maxPrice)"
| "maxPrice_loop recipientLud16 maxPrice (service # services) =
     (if Price service > maxPrice then maxPrice_loop (RecipientLud16 service) (Price service) services
      else maxPrice_loop recipientLud16 maxPrice services)"

definition paymentDetailsForMaxPrice :: "Service list \<Rightarrow> string \<times> int" where
  "paymentDetailsForMaxPrice services = maxPrice_loop [] 0 services"

definition generateTokenID :: "bytes result \<Rightarrow> bytes result" where
  "generateTokenID rnd = rbind rnd (\<lambda>b. Inr (to_array TokenIDSize b))"

definition createUniqueIdentifier :: "bytes result \<Rightarrow> bytes \<Rightarrow> bytes result" where
  "createUniqueIdentifier rnd paymentHash =
     rbind (generateTokenID rnd) (\<lambda>tokenID.
       case EncodeIdentifier [] \<lparr>Version = LatestVersion, PaymentHash = paymentHash, TokenID = tokenID\<rparr> of
         (buf, Inl e) \<Rightarrow> Inl e
       | (buf, Inr _) \<Rightarrow> Inr buf)"

definition caveatsForServices :: "limiter_ops \<Rightarrow> Service list \<Rightarrow> Caveat list result" where
  "caveatsForServices lim services =
     rbind (NewServicesCaveat services) (\<lambda>servicesCaveat.
     rbind (lim_Capabilities lim services) (\<lambda>capabilities.
     rbind (lim_Constraints lim services) (\<lambda>constraints.
     rbind (lim_Timeouts lim services) (\<lambda>timeouts.
       Inr ([servicesCaveat] @ capabilities @ constraints @ timeouts)))))"

definition MintL402 ::
    "'m macaroon_ops \<Rightarrow> 's secret_ops \<Rightarrow> limiter_ops \<Rightarrow> 'c new_challenge \<Rightarrow> bytes result \<Rightarrow> Service list
       \<Rightarrow> 's \<times> 'c \<Rightarrow> ('s \<times> 'c) \<times> ('m \<times> string) result" where
  "MintL402 mo ss lim newChallenge rnd services st =
     (case paymentDetailsForMaxPrice services of (recipientLud16, price) \<Rightarrow>
     (case newChallenge recipientLud16 price (snd st) of
        (c, Inl e) \<Rightarrow> ((fst st, c), Inl e)
      | (c, Inr (paymentRequest, paymentHash)) \<Rightarrow>
     (case createUniqueIdentifier rnd paymentHash of
        Inl e \<Rightarrow> ((fst st, c), Inl e)
      | Inr i \<Rightarrow>
          let idHash = sha256 i in
          (case ss_NewSecret ss idHash paymentHash (fst st) of
             (s, Inl e) \<Rightarrow> ((s, c), Inl e)
           | (s, Inr secret) \<Rightarrow>
               (case mac_New mo secret i ''lsat'' of
                  Inl e \<Rightarrow> ((fst (ss_RevokeSecret ss idHash s), c), Inl e)
                | Inr mac \<Rightarrow>
                    (case (if services \<noteq> [] then caveatsForServices lim services else Inr []) of
                       Inl e \<Rightarrow> ((fst (ss_RevokeSecret ss idHash s), c), Inl e)
                     | Inr caveats \<Rightarrow>
                         (case AddFirstPartyCaveats mo mac caveats of
                            Inl e \<Rightarrow> ((fst (ss_RevokeSecret ss idHash s), c), Inl e)
                          | Inr mac' \<Rightarrow> ((s, c), Inr (mac', paymentRequest)))))))))"

record 'm VerificationParams =
  vp_Macaroon :: 'm
  vp_Preimage :: bytes
  vp_TargetService :: string

text \<open>Raw caveats that cannot be decoded are skipped.\<close>

definition decodeCaveats :: "string list \<Rightarrow> Caveat list" where
  "decodeCaveats raws = List.map_filter (\<lambda>raw. case DecodeCaveat raw of Inl _ \<Rightarrow> None | Inr c \<Rightarrow> Some c) raws"

definition VerifyL402 ::
    "'m macaroon_ops \<Rightarrow> lntypes_ops \<Rightarrow> 's secret_ops \<Rightarrow> (string list \<Rightarrow> string list) \<Rightarrow> time
       \<Rightarrow> 'm VerificationParams \<Rightarrow> 's \<Rightarrow> 's \<times> unit result" where
  "VerifyL402 mo lt ss range_order now params s =
     (case DecodeIdentifier (mac_Id mo (vp_Macaroon params)) of
        Inl e \<Rightarrow> (s, Inl e)
      | Inr i \<Rightarrow>
          if lnt_PreimageHash lt (vp_Preimage params) \<noteq> PaymentHash i then (s, Inl (Errorf ''invalid preimage''))
          else (case ss_GetSecret ss (sha256 (mac_Id mo (vp_Macaroon params))) s of
                  (s', Inl e) \<Rightarrow> (s', Inl e)
                | (s', Inr secret) \<Rightarrow>
                    (case mac_VerifySignature mo (vp_Macaroon params) secret of
                       Inl e \<Rightarrow> (s', Inl e)
                     | Inr rawCaveats \<Rightarrow>
                         (s', VerifyCaveats range_order (decodeCaveats rawCaveats)
                            [NewServicesSatisfier (vp_TargetService params),
                             NewTimeoutSatisfier (vp_TargetService params) now]))))"

subsection \<open>The price\<close>

lemma maxPrice_loop_spec:
  "maxPrice_loop r m ss = (r', m') \<Longrightarrow>
     m \<le> m' \<and> (\<forall>s \<in> set ss. Price s \<le> m') \<and>
     ((r', m') = (r, m) \<or> (\<exists>s \<in> set ss. r' = RecipientLud16 s \<and> m' = Price s \<and> m < m'))"
proof (induction ss arbitrary: r m)
  case (Cons s ss)
  show ?case
  proof (cases "Price s > m")
    case True
    with Cons.prems Cons.IH [of "RecipientLud16 s" "Price s"] show ?thesis by auto
  next
    case False
    with Cons.prems Cons.IH [of r m] show ?thesis by auto
  qed
qed simp

subsection \<open>Identifiers\<close>

lemma createUniqueIdentifier_eq:
  "createUniqueIdentifier rnd h = rbind rnd (\<lambda>b. Inr ([NUL, NUL] @ h @ to_array 32 b))"
  by (cases rnd) (simp_all add: createUniqueIdentifier_def generateTokenID_def EncodeIdentifier_def LatestVersion_def
      be_bytes_2_0)

lemma createUniqueIdentifier_ok:
  assumes "createUniqueIdentifier rnd h = Inr i" and "length h = 32"
  shows "\<exists>t. DecodeIdentifier i = Inr \<lparr>Version = 0, PaymentHash = h, TokenID = t\<rparr>"
  using assms by (auto simp: createUniqueIdentifier_eq rbind_eq_Inr DecodeIdentifier_ok_iff to_array_def)

subsection \<open>Verification\<close>

text \<open>The two conditions that verification looks at.\<close>

lemma services_not_timeout: "CondServices \<noteq> t @ CondTimeoutSuffix"
proof
  assume "CondServices = t @ CondTimeoutSuffix"
  then have "last CondServices = last (t @ CondTimeoutSuffix)" by simp
  then show False by (simp add: CondServices_def CondTimeoutSuffix_def)
qed

lemma mint_satisfiers:
  "caveatSatisfiers [NewServicesSatisfier t, NewTimeoutSatisfier t now] =
     [CondServices \<mapsto> NewServicesSatisfier t, t @ CondTimeoutSuffix \<mapsto> NewTimeoutSatisfier t now]"
  by (simp add: caveatSatisfiers_def NewServicesSatisfier_def NewTimeoutSatisfier_def)

definition cond_list :: "string \<Rightarrow> Caveat list \<Rightarrow> Caveat list" where
  "cond_list cond cs = filter (\<lambda>c. Condition c = cond) cs"

definition holds_unless_absent :: "Satisfier \<Rightarrow> Caveat list \<Rightarrow> bool" where
  "holds_unless_absent s l \<longleftrightarrow> l = [] \<or> condition_holds s l"

lemma VerifyCaveats_mint:
  assumes "\<And>ks. set (range_order ks) = set ks"
  shows "VerifyCaveats range_order cs [NewServicesSatisfier t, NewTimeoutSatisfier t now] = Inr () \<longleftrightarrow>
     holds_unless_absent (NewServicesSatisfier t) (cond_list CondServices cs) \<and>
     holds_unless_absent (NewTimeoutSatisfier t now) (cond_list (t @ CondTimeoutSuffix) cs)"
proof -
  have two: "(\<forall>k v. [a \<mapsto> x, b \<mapsto> y] k = Some v \<longrightarrow> P k v) \<longleftrightarrow> P a x \<and> P b y" if "a \<noteq> b"
    for a b :: string and x y :: Satisfier and P
    using that by auto
  have "VerifyCaveats range_order cs [NewServicesSatisfier t, NewTimeoutSatisfier t now] = Inr () \<longleftrightarrow>
      (\<forall>k v. [CondServices \<mapsto> NewServicesSatisfier t, t @ CondTimeoutSuffix \<mapsto> NewTimeoutSatisfier t now] k = Some v \<longrightarrow>
        holds_unless_absent v (cond_list k cs))"
    unfolding VerifyCaveats_ok [OF assms] mint_satisfiers holds_unless_absent_def cond_list_def Let_def
    by (intro iff_allI) blast
  then show ?thesis by (simp only: two [OF services_not_timeout])
qed

text \<open>Everything an accepted L402 has, whatever the libraries do.\<close>

definition l402_checks ::
    "'m macaroon_ops \<Rightarrow> lntypes_ops \<Rightarrow> 's secret_ops \<Rightarrow> time \<Rightarrow> 'm VerificationParams \<Rightarrow> 's \<Rightarrow> Identifier \<Rightarrow> bytes
       \<Rightarrow> string list \<Rightarrow> bool" where
  "l402_checks mo lt ss now params s i secret raws \<longleftrightarrow>
     DecodeIdentifier (mac_Id mo (vp_Macaroon params)) = Inr i \<and>
     lnt_PreimageHash lt (vp_Preimage params) = PaymentHash i \<and>
     snd (ss_GetSecret ss (sha256 (mac_Id mo (vp_Macaroon params))) s) = Inr secret \<and>
     mac_VerifySignature mo (vp_Macaroon params) secret = Inr raws \<and>
     holds_unless_absent (NewServicesSatisfier (vp_TargetService params)) (cond_list CondServices (decodeCaveats raws)) \<and>
     holds_unless_absent (NewTimeoutSatisfier (vp_TargetService params) now)
       (cond_list (vp_TargetService params @ CondTimeoutSuffix) (decodeCaveats raws))"

lemma VerifyL402_ok_iff:
  assumes "\<And>ks. set (range_order ks) = set ks"
  shows "snd (VerifyL402 mo lt ss range_order now params s) = Inr () \<longleftrightarrow>
     (\<exists>i secret raws. l402_checks mo lt ss now params s i secret raws)"
proof -
  obtain s' r where g: "ss_GetSecret ss (sha256 (mac_Id mo (vp_Macaroon params))) s = (s', r)" by fastforce
  show ?thesis
  proof (cases "DecodeIdentifier (mac_Id mo (vp_Macaroon params))")
    case (Inl e)
    then show ?thesis by (simp add: VerifyL402_def l402_checks_def)
  next
    case (Inr i)
    with g show ?thesis
      by (cases r; cases "mac_VerifySignature mo (vp_Macaroon params) (projr r)")
        (auto simp: VerifyL402_def l402_checks_def VerifyCaveats_mint [OF assms])
  qed
qed

lemma VerifyL402_state:
  "fst (VerifyL402 mo lt ss range_order now params s) =
     (if \<exists>i. DecodeIdentifier (mac_Id mo (vp_Macaroon params)) = Inr i \<and>
             lnt_PreimageHash lt (vp_Preimage params) = PaymentHash i
      then fst (ss_GetSecret ss (sha256 (mac_Id mo (vp_Macaroon params))) s) else s)"
  by (auto simp: VerifyL402_def split: sum.splits prod.splits)

subsection \<open>Minting, then verifying\<close>

lemma decodeCaveats_encoded:
  "\<forall>c \<in> set cs. CHR ''='' \<notin> set (Condition c) \<Longrightarrow> decodeCaveats (map EncodeCaveat cs) = cs"
  by (induction cs) (simp_all add: decodeCaveats_def List.map_filter_simps Decode_EncodeCaveat)

text \<open>The caveat list of a new L402: the services, then restrictions.\<close>

lemma services_condition_holds:
  assumes "NewServicesCaveat services = Inr sc" and "\<And>s. s \<in> set services \<Longrightarrow> clean_name (Name s)"
  shows "condition_holds (NewServicesSatisfier t) [sc] \<longleftrightarrow> t \<in> Name ` set services"
proof -
  from assms(1) obtain v where v: "encodeServicesCaveatValue services = Inr v" "sc = \<lparr>Condition = CondServices, Value = v\<rparr>"
    by (auto simp: NewServicesCaveat_def rbind_eq_Inr)
  then have "services \<noteq> []" by (simp add: encodeServicesCaveatValue_ok)
  from decode_encodeServices [OF this assms(2) v(1)] have "decodeServicesCaveatValue v = Inr (map caveat_view services)"
    by blast
  then show ?thesis
    by (auto simp: condition_holds_def services_final_ok v(2) serviceNames_def caveat_view_def image_image)
qed

text \<open>What a mint that succeeds has done, whatever the store is.\<close>

lemma MintL402_ok:
  assumes lib: "macaroon_lib mo"
    and m: "MintL402 mo ss lim newChallenge rnd services (s, c) = ((s', c'), Inr (mac, req))"
  obtains h i k cavs where
    "newChallenge (fst (paymentDetailsForMaxPrice services)) (snd (paymentDetailsForMaxPrice services)) c = (c', Inr (req, h))"
    and "createUniqueIdentifier rnd h = Inr i"
    and "ss_NewSecret ss (sha256 i) h s = (s', Inr k)" and "baked mo k mac" and "mac_Id mo mac = i"
    and "mac_Caveats mo mac = map EncodeCaveat cavs"
    and "(if services \<noteq> [] then caveatsForServices lim services else Inr []) = Inr cavs"
proof -
  let ?pd = "paymentDetailsForMaxPrice services"
  obtain c1 r1 where nc: "newChallenge (fst ?pd) (snd ?pd) c = (c1, r1)" by fastforce
  with m obtain h where r1: "r1 = Inr (req, h)" and c1: "c1 = c'"
    by (auto simp: MintL402_def Let_def split: prod.splits sum.splits)
  with m nc obtain i where i: "createUniqueIdentifier rnd h = Inr i"
    by (cases "createUniqueIdentifier rnd h") (auto simp: MintL402_def split: prod.splits)
  obtain s1 r2 where ns: "ss_NewSecret ss (sha256 i) h s = (s1, r2)" by fastforce
  with m nc r1 i obtain k where r2: "r2 = Inr k"
    by (cases r2) (auto simp: MintL402_def split: prod.splits)
  with m nc r1 i ns obtain mac0 where mac0: "mac_New mo k i ''lsat'' = Inr mac0"
    by (cases "mac_New mo k i ''lsat''") (auto simp: MintL402_def split: prod.splits)
  with m nc r1 i ns r2 obtain cavs where
    cavs: "(if services \<noteq> [] then caveatsForServices lim services else Inr []) = Inr cavs"
    by (cases "if services \<noteq> [] then caveatsForServices lim services else Inr []")
      (auto simp: MintL402_def split: prod.splits)
  with m nc r1 i ns r2 mac0 have add: "AddFirstPartyCaveats mo mac0 cavs = Inr mac" and s1: "s1 = s'"
    by (auto simp: MintL402_def split: prod.splits sum.splits)
  from macaroon_lib_New [OF lib mac0] AddFirstPartyCaveats_effect [OF lib add]
    AddFirstPartyCaveats_baked [OF baked_new [OF mac0] add]
  show ?thesis using that [of h i k cavs] nc r1 c1 i ns r2 s1 cavs by simp
qed

locale minter = secret_store ss ok sec stl + service_limiter lim allowed
  for ss :: "'s secret_ops" and ok sec stl and lim :: limiter_ops and allowed :: "Caveat \<Rightarrow> bool"
begin

lemma caveatsForServices_ok:
  assumes "services \<noteq> []" and "\<forall>s \<in> set services. Name s \<noteq> []"
  obtains sc limits where "NewServicesCaveat services = Inr sc" and "Condition sc = CondServices"
    and "caveatsForServices lim services = Inr (sc # limits)" and "\<forall>c \<in> set limits. allowed c"
proof -
  obtain caps cons touts where l: "lim_Capabilities lim services = Inr caps" "lim_Constraints lim services = Inr cons"
    "lim_Timeouts lim services = Inr touts" "\<forall>c \<in> set (caps @ cons @ touts). allowed c"
    by (rule limits [of services])
  from assms encodeServicesCaveatValue_ok [of services] obtain v where
    sc: "NewServicesCaveat services = Inr \<lparr>Condition = CondServices, Value = v\<rparr>"
    by (auto simp: NewServicesCaveat_def rbind_eq_Inr)
  show ?thesis
    using that [OF sc, of "caps @ cons @ touts"] l by (simp add: caveatsForServices_def sc)
qed

text \<open>A mint that fails leaves no secret behind.\<close>

lemma MintL402_error:
  assumes "ok s" and m: "MintL402 mo ss lim newChallenge rnd services (s, c) = ((s', c'), Inl e)"
  shows "ok s' \<and> sec s' = sec s"
proof -
  let ?pd = "paymentDetailsForMaxPrice services"
  obtain c1 r1 where nc: "newChallenge (fst ?pd) (snd ?pd) c = (c1, r1)" by fastforce
  show ?thesis
  proof (cases r1)
    case (Inl e)
    with m nc assms(1) show ?thesis by (auto simp: MintL402_def split: prod.splits)
  next
    case (Inr qh)
    obtain q h where qh: "qh = (q, h)" by (cases qh)
    show ?thesis
    proof (cases "createUniqueIdentifier rnd h")
      case (Inl e)
      with m nc Inr qh assms(1) show ?thesis by (auto simp: MintL402_def split: prod.splits)
    next
      case i: (Inr i)
      obtain s1 r2 where ns: "ss_NewSecret ss (sha256 i) h s = (s1, r2)" by fastforce
      obtain s2 r3 where rv: "ss_RevokeSecret ss (sha256 i) s1 = (s2, r3)" by fastforce
      show ?thesis
      proof (cases r2)
        case (Inl e)
        with new_error [OF assms(1)] ns m nc Inr qh i assms(1) show ?thesis
          by (auto simp: MintL402_def Let_def split: prod.splits)
      next
        case k: (Inr k)
        from new_spec [OF assms(1)] ns k have s1: "ok s1" "sec s (sha256 i) = None" "sec s1 = (sec s)(sha256 i \<mapsto> k)"
          by auto
        from revoke_spec [OF s1(1) rv] s1 have s2: "ok s2" "sec s2 = sec s" by (auto simp: fun_eq_iff)
        from m nc Inr qh i ns k rv have "s' = s2"
          by (auto simp: MintL402_def Let_def split: prod.splits sum.splits)
        with s2 show ?thesis by simp
      qed
    qed
  qed
qed

lemma minted_accepted_gen:
  assumes lib: "macaroon_lib mo" and "ok s" and ne: "services \<noteq> []"
    and named: "\<forall>x \<in> set services. Name x \<noteq> []"
    and restr: "\<And>sc limits. caveatsForServices lim services = Inr (sc # limits) \<Longrightarrow> \<forall>c \<in> set limits. restricting c"
    and m: "MintL402 mo ss lim newChallenge rnd services (s, c) = ((s', c'), Inr (mac, req))"
    and nc: "newChallenge (fst (paymentDetailsForMaxPrice services)) (snd (paymentDetailsForMaxPrice services)) c
               = (c', Inr (req, h))" and len: "length h = 32"
    and ord: "\<And>ks. set (range_order ks) = set ks"
  shows "snd (VerifyL402 mo lt ss range_order now \<lparr>vp_Macaroon = mac, vp_Preimage = p, vp_TargetService = t\<rparr> s') = Inr ()
     \<longleftrightarrow> lnt_PreimageHash lt p = h \<and> condition_holds (NewServicesSatisfier t) [projr (NewServicesCaveat services)] \<and>
         holds_unless_absent (NewTimeoutSatisfier t now)
           (cond_list (t @ CondTimeoutSuffix) (projr (caveatsForServices lim services)))"
proof -
  obtain h' i k cavs where x: "newChallenge (fst (paymentDetailsForMaxPrice services)) (snd (paymentDetailsForMaxPrice services)) c
        = (c', Inr (req, h'))" "createUniqueIdentifier rnd h' = Inr i"
    "ss_NewSecret ss (sha256 i) h' s = (s', Inr k)" "baked mo k mac" "mac_Id mo mac = i"
    "mac_Caveats mo mac = map EncodeCaveat cavs"
    "(if services \<noteq> [] then caveatsForServices lim services else Inr []) = Inr cavs"
    by (rule MintL402_ok [OF lib m])
  from x(1) nc have h': "h' = h" by simp
  from caveatsForServices_ok [OF ne named] obtain sc limits where
    sc: "NewServicesCaveat services = Inr sc" "Condition sc = CondServices"
    and cs: "caveatsForServices lim services = Inr (sc # limits)" by blast
  have al: "\<forall>c \<in> set limits. restricting c" by (rule restr [OF cs])
  from cs x(7) ne have cavs: "cavs = sc # limits" by simp
  obtain tok where dec: "DecodeIdentifier i = Inr \<lparr>Version = 0, PaymentHash = h, TokenID = tok\<rparr>"
    using createUniqueIdentifier_ok [OF x(2)] h' len by blast
  have get: "snd (ss_GetSecret ss (sha256 i) s') = Inr k" using get_new [OF \<open>ok s\<close> x(3)] by simp
  have sig: "mac_VerifySignature mo mac k = Inr (map EncodeCaveat cavs)"
    using macaroon_lib_Verify [OF lib x(4)] x(6) by simp
  have decc: "decodeCaveats (map EncodeCaveat cavs) = cavs"
    using al sc(2) by (intro decodeCaveats_encoded) (auto simp: cavs restricting_def CondServices_def)
  have svc: "cond_list CondServices cavs = [sc]"
    using al sc(2) by (auto simp: cond_list_def cavs restricting_def filter_empty_conv)
  show ?thesis
    unfolding VerifyL402_ok_iff [OF ord] l402_checks_def
    using dec get sig decc svc by (auto simp: x(5) h' cs cavs sc(1) holds_unless_absent_def)
qed

lemma minted_accepted_iff:
  assumes "macaroon_lib mo" and "ok s" and "services \<noteq> []"
    and clean: "\<And>x. x \<in> set services \<Longrightarrow> clean_name (Name x)" and "\<And>c. allowed c \<Longrightarrow> restricting c"
    and "MintL402 mo ss lim newChallenge rnd services (s, c) = ((s', c'), Inr (mac, req))"
    and "newChallenge (fst (paymentDetailsForMaxPrice services)) (snd (paymentDetailsForMaxPrice services)) c
               = (c', Inr (req, h))" and "length h = 32"
    and "\<And>ks. set (range_order ks) = set ks"
  shows "snd (VerifyL402 mo lt ss range_order now \<lparr>vp_Macaroon = mac, vp_Preimage = p, vp_TargetService = t\<rparr> s') = Inr ()
     \<longleftrightarrow> lnt_PreimageHash lt p = h \<and> t \<in> Name ` set services \<and>
         holds_unless_absent (NewTimeoutSatisfier t now)
           (cond_list (t @ CondTimeoutSuffix) (projr (caveatsForServices lim services)))"
proof -
  have named: "\<forall>x \<in> set services. Name x \<noteq> []" using clean by (auto simp: clean_name_def)
  obtain sc limits where sc: "NewServicesCaveat services = Inr sc"
      "caveatsForServices lim services = Inr (sc # limits)" "\<forall>c \<in> set limits. allowed c"
    by (rule caveatsForServices_ok [OF assms(3) named])
  have "\<forall>c \<in> set limits'. restricting c" if "caveatsForServices lim services = Inr (sc' # limits')" for sc' limits'
  proof -
    from that [unfolded sc(2)] have "limits' = limits" by blast
    with sc(3) assms(5) show ?thesis by blast
  qed
  moreover have "condition_holds (NewServicesSatisfier t) [sc] \<longleftrightarrow> t \<in> Name ` set services"
    by (rule services_condition_holds [OF sc(1)]) (rule clean)
  ultimately show ?thesis
    using minted_accepted_gen [OF assms(1-3) named _ assms(6-9), of lt now p t] unfolding sc(1) sum.sel by blast
qed

end


text \<open>The mint over the database and the static limiter.\<close>

interpretation db_minter: minter "secrets_store_ops opts env rnd now" "secrets_ok opts env" secrets_of settled_of
    "static_limiter_ops l" "\<lambda>c. c \<in> limiter_caveats l"
  by unfold_locales

subsection \<open>Properties of the mint\<close>

text \<open>
  C6: an L402 that \<^verbatim>\<open>VerifyL402\<close> accepts for a service was bound to the hash of the presented
  preimage, was signed with the secret stored for its identifier, and every services caveat on
  it, not only the last one, lists the service, and every timeout caveat for the service lies in
  the future. This holds for every macaroon library and every secret store.
\<close>

theorem accepted_l402:
  assumes "\<And>ks. set (range_order ks) = set ks"
    and "snd (VerifyL402 mo lt ss range_order now \<lparr>vp_Macaroon = m, vp_Preimage = p, vp_TargetService = t\<rparr> s) = Inr ()"
  shows "\<exists>i secret raws. DecodeIdentifier (mac_Id mo m) = Inr i \<and> lnt_PreimageHash lt p = PaymentHash i \<and>
     snd (ss_GetSecret ss (sha256 (mac_Id mo m)) s) = Inr secret \<and> mac_VerifySignature mo m secret = Inr raws \<and>
     (\<forall>c \<in> set (decodeCaveats raws).
        (Condition c = CondServices \<longrightarrow>
           (\<exists>xs. decodeServicesCaveatValue (Value c) = Inr xs \<and> t \<in> serviceNames xs)) \<and>
        (Condition c = t @ CondTimeoutSuffix \<longrightarrow>
           (\<exists>v. parse_int (Value c) = Inr v \<and> time_before now (time_Unix v 0))))"
proof -
  from assms(2) [unfolded VerifyL402_ok_iff [OF assms(1)]] obtain i secret raws where
    c: "l402_checks mo lt ss now \<lparr>vp_Macaroon = m, vp_Preimage = p, vp_TargetService = t\<rparr> s i secret raws" by blast
  have "SatisfyFinal (NewServicesSatisfier t) x = Inr ()" if "x \<in> set (decodeCaveats raws)" "Condition x = CondServices" for x
    using c that services_sat.all_final [of t "cond_list CondServices (decodeCaveats raws)" x]
    by (auto simp: l402_checks_def holds_unless_absent_def cond_list_def filter_empty_conv)
  moreover have "SatisfyFinal (NewTimeoutSatisfier t now) x = Inr ()"
    if "x \<in> set (decodeCaveats raws)" "Condition x = t @ CondTimeoutSuffix" for x
    using c that timeout_sat.all_final [of t now "cond_list (t @ CondTimeoutSuffix) (decodeCaveats raws)" x]
    by (auto simp: l402_checks_def holds_unless_absent_def cond_list_def filter_empty_conv)
  ultimately show ?thesis
    using c unfolding l402_checks_def services_final_ok timeout_final_ok by auto
qed

text \<open>
  C7: an L402 minted over the database store for services whose names are clean, that is without the
  separators of the services caveat, is accepted for exactly those services, as long as the
  limiter's timeout for the service has not passed, and only with a preimage of the payment hash
  the challenger returned; the limiter's other caveats, which must not be services caveats
  themselves, never get in the way. For names with separators see the last property below.
\<close>

theorem minted_l402_accepted:
  assumes "macaroon_lib mo" and "healthy_tx env" and "0 < numRetries opts" and "wf_secrets tbl"
    and "services \<noteq> []" and "\<forall>x \<in> set services. clean_name (Name x)"
    and "\<forall>c \<in> limiter_caveats l. restricting c"
    and "MintL402 mo (secrets_store_ops opts env rnd created) (static_limiter_ops l) newChallenge tokenRnd services (tbl, c)
           = ((tbl', c'), Inr (mac, req))"
    and "newChallenge (fst (paymentDetailsForMaxPrice services)) (snd (paymentDetailsForMaxPrice services)) c
           = (c', Inr (req, h))" and "length h = 32"
    and "\<And>ks. set (range_order ks) = set ks"
  shows "snd (VerifyL402 mo lt (secrets_store_ops opts env rnd created) range_order now
            \<lparr>vp_Macaroon = mac, vp_Preimage = p, vp_TargetService = t\<rparr> tbl') = Inr ()
     \<longleftrightarrow> lnt_PreimageHash lt p = h \<and> t \<in> Name ` set services \<and>
         holds_unless_absent (NewTimeoutSatisfier t now)
           (cond_list (t @ CondTimeoutSuffix) (projr (caveatsForServices (static_limiter_ops l) services)))"
  by (rule db_minter.minted_accepted_iff [OF assms(1) _ assms(5) _ _ assms(8-11)])
    (use assms in \<open>auto simp: secrets_ok_def\<close>)

subsection \<open>Secrets under faults\<close>

text \<open>
  Whatever the database does, as long as no one else writes it: \<^verbatim>\<open>NewSecret\<close> adds at most its row,
  and surely when it succeeds; \<^verbatim>\<open>RevokeSecret\<close> takes at most the rows with the given id.
\<close>

lemma NewSecret_sole:
  assumes "sole_writer env" and "NewSecret opts env rnd created h p tbl = (tbl', r)"
  obtains (added) k where "h \<notin> sr_macaroon_id_hash ` set tbl"
      and "tbl' = tbl @ [\<lparr>sr_macaroon_id_hash = h, sr_payment_hash = p, sr_secret = k, sr_settled_at = None, sr_created_at = created\<rparr>]"
      and "is_ok r \<Longrightarrow> r = Inr k"
    | (none) "tbl' = tbl" and "\<not> is_ok r"
proof (cases rnd)
  case (Inl e)
  with assms(2) have "tbl' = tbl \<and> r = Inl e" by (simp add: NewSecret_def)
  with none show ?thesis by simp
next
  case (Inr b)
  let ?row = "\<lparr>sr_macaroon_id_hash = h, sr_payment_hash = p, sr_secret = to_array SecretSize b, sr_settled_at = None, sr_created_at = created\<rparr>"
  obtain t q where e: "ExecTx opts False env (InsertSecret ?row) tbl = (t, q)" by fastforce
  have r: "tbl' = t" "is_ok r \<longleftrightarrow> is_ok q" "is_ok r \<longrightarrow> r = Inr (to_array SecretSize b)"
    using assms(2) Inr e by (auto simp: NewSecret_def Let_def split: sum.splits)
  show ?thesis
    using assms(1) e
  proof (cases rule: ExecTx_sole)
    case (effect x)
    then show ?thesis using added [of "to_array SecretSize b"] r by (auto simp: InsertSecret_if split: if_splits)
  qed (use none r in simp)
qed

lemma RevokeSecret_sole:
  assumes "sole_writer env" and "RevokeSecret opts env h tbl = (tbl', r)"
  shows "tbl' = filter (\<lambda>r. sr_macaroon_id_hash r \<noteq> h) tbl \<or> tbl' = tbl \<and> \<not> is_ok r"
proof -
  obtain t q where e: "ExecTx opts False env (\<lambda>t. Inr (fst (DeleteSecretByIdHash h t), ())) tbl = (t, q)" by fastforce
  then have r: "tbl' = t" "is_ok r \<longleftrightarrow> is_ok q" using assms(2) by (auto simp: RevokeSecret_def split: sum.splits)
  show ?thesis
    using assms(1) e by (cases rule: ExecTx_sole) (auto simp: r DeleteSecretByIdHash_def)
qed

text \<open>The store as a mint uses it, whose two calls meet faults of their own.\<close>

definition faulty_store ::
    "txExecutorOptions \<Rightarrow> secrets_table tx_env \<Rightarrow> secrets_table tx_env \<Rightarrow> bytes result \<Rightarrow> time \<Rightarrow> secrets_table secret_ops" where
  "faulty_store opts env env' rnd created = (secrets_store_ops opts env rnd created)\<lparr>ss_RevokeSecret := RevokeSecret opts env'\<rparr>"

lemma faulty_store_ops [simp]:
  "ss_NewSecret (faulty_store opts env env' rnd created) = NewSecret opts env rnd created"
  "ss_RevokeSecret (faulty_store opts env env' rnd created) = RevokeSecret opts env'"
  by (simp_all add: faulty_store_def secrets_store_ops_def)

text \<open>
  C16: what a successful mint records. Whatever faults the database has, when a mint over it
  succeeds and no one else writes it, the table has exactly one row more: under the hash of the
  macaroon's identifier, which was not there before, the key that signs the macaroon, and the
  payment hash of the invoice handed out with it, without a settlement time; and that payment
  hash is the one in the identifier, beside a token id of the random bytes.
\<close>

theorem minted_secret_recorded:
  assumes "macaroon_lib mo" and "sole_writer env"
    and "MintL402 mo (faulty_store opts env env' rnd created) lim newChallenge tokenRnd services (tbl, c) = ((tbl', c'), Inr (mac, req))"
  shows "\<exists>h k b. newChallenge (fst (paymentDetailsForMaxPrice services)) (snd (paymentDetailsForMaxPrice services)) c = (c', Inr (req, h)) \<and>
     baked mo k mac \<and> tokenRnd = Inr b \<and>
     (length h = 32 \<longrightarrow> DecodeIdentifier (mac_Id mo mac) = Inr \<lparr>Version = 0, PaymentHash = h, TokenID = to_array 32 b\<rparr>) \<and>
     sha256 (mac_Id mo mac) \<notin> sr_macaroon_id_hash ` set tbl \<and>
     tbl' = tbl @ [\<lparr>sr_macaroon_id_hash = sha256 (mac_Id mo mac), sr_payment_hash = h, sr_secret = k,
                     sr_settled_at = None, sr_created_at = created\<rparr>]"
proof -
  obtain h i k cavs where m:
    "newChallenge (fst (paymentDetailsForMaxPrice services)) (snd (paymentDetailsForMaxPrice services)) c = (c', Inr (req, h))"
    "createUniqueIdentifier tokenRnd h = Inr i" "NewSecret opts env rnd created (sha256 i) h tbl = (tbl', Inr k)"
    "baked mo k mac" "mac_Id mo mac = i"
    by (rule MintL402_ok [OF assms(1,3)]) simp
  from m(2) obtain b where b: "tokenRnd = Inr b" by (auto simp: createUniqueIdentifier_eq rbind_eq_Inr)
  have "length h = 32 \<longrightarrow> DecodeIdentifier i = Inr \<lparr>Version = 0, PaymentHash = h, TokenID = to_array 32 b\<rparr>"
    using m(2) by (auto simp: createUniqueIdentifier_eq b DecodeIdentifier_ok_iff to_array_def)
  moreover from assms(2) m(3) have "sha256 i \<notin> sr_macaroon_id_hash ` set tbl \<and>
      tbl' = tbl @ [\<lparr>sr_macaroon_id_hash = sha256 i, sr_payment_hash = h, sr_secret = k, sr_settled_at = None, sr_created_at = created\<rparr>]"
    by (cases rule: NewSecret_sole) auto
  ultimately show ?thesis using m(1,4,5) b by metis
qed

text \<open>
  C26: what a failed mint leaves behind. Whatever faults the database has, when a mint fails and no
  one else writes the table, it is as before, or it has one row more: that of the new identifier,
  which was in no row before and is handed to nobody, without a settlement time. The row stays
  only if the store reported an error itself, when the secret was inserted or when it was to be
  revoked, an error that the mint ignores. Over a database without faults the table is as before.
\<close>

theorem failed_mint_secrets:
  assumes "sole_writer env" and "sole_writer env'"
    and "MintL402 mo (faulty_store opts env env' rnd created) lim newChallenge tokenRnd services (tbl, c) = ((tbl', c'), Inl e)"
  shows "(tbl' = tbl \<or>
     (\<exists>req h i k. newChallenge (fst (paymentDetailsForMaxPrice services)) (snd (paymentDetailsForMaxPrice services)) c = (c', Inr (req, h)) \<and>
        createUniqueIdentifier tokenRnd h = Inr i \<and> sha256 i \<notin> sr_macaroon_id_hash ` set tbl \<and>
        tbl' = tbl @ [\<lparr>sr_macaroon_id_hash = sha256 i, sr_payment_hash = h, sr_secret = k,
                        sr_settled_at = None, sr_created_at = created\<rparr>] \<and>
        (\<not> is_ok (snd (NewSecret opts env rnd created (sha256 i) h tbl)) \<or> \<not> is_ok (snd (RevokeSecret opts env' (sha256 i) tbl'))))) \<and>
     (healthy_tx env \<and> healthy_tx env' \<and> 0 < numRetries opts \<and> wf_secrets tbl \<longrightarrow> tbl' = tbl)"
proof -
  let ?pd = "paymentDetailsForMaxPrice services"
  let ?row = "\<lambda>i h k. \<lparr>sr_macaroon_id_hash = sha256 i, sr_payment_hash = h, sr_secret = k, sr_settled_at = None, sr_created_at = created\<rparr>"
  obtain c1 ch where nc: "newChallenge (fst ?pd) (snd ?pd) c = (c1, ch)" by fastforce
  consider (early) "tbl' = tbl" | (new) req h i where "ch = Inr (req, h)" "createUniqueIdentifier tokenRnd h = Inr i" "c1 = c'"
    "tbl' = fst (NewSecret opts env rnd created (sha256 i) h tbl) \<and> \<not> is_ok (snd (NewSecret opts env rnd created (sha256 i) h tbl)) \<or>
     tbl' = fst (RevokeSecret opts env' (sha256 i) (fst (NewSecret opts env rnd created (sha256 i) h tbl))) \<and>
       is_ok (snd (NewSecret opts env rnd created (sha256 i) h tbl))"
    using assms(3) nc by (auto simp: MintL402_def Let_def split: prod.splits sum.splits)
  then show ?thesis
  proof cases
    case new
    obtain t r where ns: "NewSecret opts env rnd created (sha256 i) h tbl = (t, r)" by fastforce
    obtain t' r' where rv: "RevokeSecret opts env' (sha256 i) t = (t', r')" by fastforce
    from assms(1) ns show ?thesis
    proof (cases rule: NewSecret_sole)
      case (added k)
      have gone: "filter (\<lambda>r. sr_macaroon_id_hash r \<noteq> sha256 i) t = tbl"
        using added(1) by (auto simp: added(2) filter_id_conv image_iff)
      with RevokeSecret_sole [OF assms(2) rv] have t': "t' = tbl \<or> t' = t \<and> \<not> is_ok r'" by simp
      have healthy: "is_ok r \<and> is_ok r'" if "healthy_tx env" "healthy_tx env'" "0 < numRetries opts" "wf_secrets tbl"
        using that ns rv added(2) NewSecret_healthy [of opts env tbl]
        by (auto simp: secrets_ok_def RevokeSecret_def Let_def ExecTx_write [OF that(2,3)] split: sum.splits if_splits)
      from new(4) ns rv consider "tbl' = t" "\<not> is_ok r" | "tbl' = t'" by auto
      then show ?thesis
      proof cases
        case 1
        then show ?thesis using nc new(1-3) ns added healthy by auto
      next
        case 2
        show ?thesis
        proof (cases "t' = tbl")
          case False
          with t' have t: "t' = t" "\<not> is_ok r'" by auto
          then have "\<not> is_ok (snd (RevokeSecret opts env' (sha256 i) tbl'))" using rv 2 by simp
          then show ?thesis using nc new(1-3) added(1,2) healthy t 2 by auto
        qed (use 2 in simp)
      qed
    next
      case none
      with new(4) ns show ?thesis by simp
    qed
  qed simp
qed

text \<open>
  C8: whoever holds an L402 can only restrict it: when the macaroon with further caveats is
  accepted for a service, so is the macaroon without them.
\<close>

theorem added_caveats_only_restrict:
  assumes "macaroon_lib mo" and "baked mo k m" and "AddFirstPartyCaveats mo m cs = Inr m'"
    and "snd (ss_GetSecret ss (sha256 (mac_Id mo m)) s) = Inr k"
    and "\<And>ks. set (range_order ks) = set ks"
    and "snd (VerifyL402 mo lt ss range_order now \<lparr>vp_Macaroon = m', vp_Preimage = p, vp_TargetService = t\<rparr> s) = Inr ()"
  shows "snd (VerifyL402 mo lt ss range_order now \<lparr>vp_Macaroon = m, vp_Preimage = p, vp_TargetService = t\<rparr> s) = Inr ()"
proof -
  let ?sats = "[NewServicesSatisfier t, NewTimeoutSatisfier t now]"
  from AddFirstPartyCaveats_effect [OF assms(1,3)] have i: "mac_Id mo m' = mac_Id mo m"
    and cv: "mac_Caveats mo m' = mac_Caveats mo m @ map EncodeCaveat cs" by simp_all
  have sig: "mac_VerifySignature mo m k = Inr (mac_Caveats mo m)"
    "mac_VerifySignature mo m' k = Inr (mac_Caveats mo m @ map EncodeCaveat cs)"
    using macaroon_lib_Verify [OF assms(1)] assms(2) AddFirstPartyCaveats_baked [OF assms(2,3)] cv by auto
  obtain s1 where g: "ss_GetSecret ss (sha256 (mac_Id mo m)) s = (s1, Inr k)"
    using assms(4) by (metis prod.collapse)
  have app: "decodeCaveats (a @ b) = decodeCaveats a @ decodeCaveats b" for a b
    by (simp add: decodeCaveats_def List.map_filter_def)
  have att: "attenuating x" if "x \<in> set ?sats" for x
    using that services_sat.attenuating_axioms [of t] timeout_sat.attenuating_axioms [of t now] by auto
  show ?thesis
    using assms(6) VerifyCaveats_prefix [of ?sats range_order, OF att assms(5), of "decodeCaveats (mac_Caveats mo m)" "decodeCaveats (map EncodeCaveat cs)"]
    by (auto simp: VerifyL402_def i g sig app split: sum.splits if_splits)
qed

text \<open>
  The price of an L402 is the largest price of its services, never less than zero, and the
  recipient is that of a service with this price; without a positive price there is no recipient.
\<close>

lemma l402_price_is_maximum:
  "case paymentDetailsForMaxPrice services of (recipient, price) \<Rightarrow>
     price = Max (insert 0 (Price ` set services)) \<and>
     (if price = 0 then recipient = []
      else \<exists>s \<in> set services. Price s = price \<and> RecipientLud16 s = recipient)"
proof -
  obtain r m where rm: "maxPrice_loop [] 0 services = (r, m)" by fastforce
  from maxPrice_loop_spec [OF rm] have *: "0 \<le> m" "\<forall>s \<in> set services. Price s \<le> m"
    "(r, m) = ([], 0) \<or> (\<exists>s \<in> set services. r = RecipientLud16 s \<and> m = Price s \<and> 0 < m)" by auto
  have "Max (insert 0 (Price ` set services)) = m"
    by (rule Max_eqI) (use * in auto)
  with * show ?thesis by (auto simp: paymentDetailsForMaxPrice_def rm)
qed

text \<open>
  C37: names are not escaped in the services caveat. An L402 minted for the one resource
  \<^verbatim>\<open>a:0,b\<close>, at the price of that resource, is accepted for the service \<^verbatim>\<open>b\<close>, whatever services,
  capabilities, constraints and timeouts the proxy is configured with: its limiter is keyed by
  services without a recipient, and a challenge is only made for one with a recipient. With
  dynamic prices the name ends in the path of the request, which the client chooses.
\<close>

theorem separators_in_name_grant_more:
  assumes "macaroon_lib mo" and "healthy_tx env" and "0 < numRetries opts" and "wf_secrets tbl"
    and "clean_name a" and "clean_name b" and "Name x = a @ '':0,'' @ b" and "RecipientLud16 x \<noteq> []"
    and "MintL402 mo (secrets_store_ops opts env rnd created) (static_limiter_ops (newStaticServiceLimiter clock configured))
           newChallenge tokenRnd [x] (tbl, c) = ((tbl', c'), Inr (mac, req))"
    and "newChallenge (fst (paymentDetailsForMaxPrice [x])) (snd (paymentDetailsForMaxPrice [x])) c
           = (c', Inr (req, lnt_PreimageHash lt p))" and "length (lnt_PreimageHash lt p) = 32"
    and "\<And>ks. set (range_order ks) = set ks"
  shows "snd (VerifyL402 mo lt (secrets_store_ops opts env rnd created) range_order now
            \<lparr>vp_Macaroon = mac, vp_Preimage = p, vp_TargetService = b\<rparr> tbl') = Inr ()"
proof -
  let ?lim = "static_limiter_ops (newStaticServiceLimiter clock configured)"
  have ok: "secrets_ok opts env tbl" using assms(2-4) by (simp add: secrets_ok_def)
  have named: "\<forall>y \<in> set [x]. Name y \<noteq> []" using assms(7) by simp
  obtain sc where sc: "NewServicesCaveat [x] = Inr sc" and cs: "Condition sc = CondServices"
    using db_minter.caveatsForServices_ok [where services = "[x]"] named by blast
  have cf: "caveatsForServices ?lim [x] = Inr [sc]"
    using limiter_unknown [OF assms(8), of clock configured] sc
    by (simp add: caveatsForServices_def static_limiter_ops_def)
  from sc obtain v where v: "encodeServicesCaveatValue [x] = Inr v" "sc = \<lparr>Condition = CondServices, Value = v\<rparr>"
    by (auto simp: NewServicesCaveat_def rbind_eq_Inr)
  have "x = \<lparr>Name = a @ '':0,'' @ b, Tier = Tier x, RecipientLud16 = RecipientLud16 x, Price = Price x\<rparr>"
    using assms(7) by (cases x) simp
  with v(1) have "encodeServicesCaveatValue
      [\<lparr>Name = a @ '':0,'' @ b, Tier = Tier x, RecipientLud16 = RecipientLud16 x, Price = Price x\<rparr>] = Inr v" by simp
  from encodeServices_injection [OF assms(5,6) this]
  have "condition_holds (NewServicesSatisfier b) [sc]"
    by (simp add: condition_holds_def services_final_ok v(2) serviceNames_def)
  moreover have "cond_list (b @ CondTimeoutSuffix) [sc] = []"
    using cs services_not_timeout [of b] by (simp add: cond_list_def)
  moreover have "\<forall>c \<in> set limits. restricting c" if "caveatsForServices ?lim [x] = Inr (sc' # limits)" for sc' limits
    using that cf by simp
  ultimately show ?thesis
    using db_minter.minted_accepted_gen [OF assms(1) ok _ named _ assms(9,10,11,12), of lt now p b] sc cf
    by (simp add: holds_unless_absent_def)
qed

subsection \<open>A concrete mint\<close>

definition sample_limiter :: staticServiceLimiter where
  "sample_limiter = newStaticServiceLimiter (\<lambda>i. (0, 0)) [sample_service]"

definition sample_l402_service :: Service where
  "sample_l402_service = \<lparr>Name = ''svc'', Tier = BaseTier, RecipientLud16 = ''u@d'', Price = 7\<rparr>"

definition sample_hash :: bytes where "sample_hash = replicate 32 (CHR ''h'')"

definition sample_challenger :: "nat new_challenge" where
  "sample_challenger r p c = (c + 1, Inr (''lnbc'', sample_hash))"

definition sample_secrets :: "secrets_table secret_ops" where
  "sample_secrets = secrets_store_ops defaultTxExecutorOptions sample_tx_env (Inr ''k'') (0, 0)"

definition sample_mint where
  "sample_mint lim = MintL402 sample_macaroon_ops sample_secrets lim sample_challenger (Inr ''t'') [sample_l402_service] ([], 0)"

definition sample_id :: bytes where
  "sample_id = [NUL, NUL] @ sample_hash @ to_array 32 ''t''"

definition sample_mac :: "bytes list" where
  "sample_mac = [to_array 32 ''k'', sample_id, ''services=svc:0'']"

lemma sample_secrets_ok: "secrets_ok defaultTxExecutorOptions sample_tx_env []"
  by (simp add: secrets_ok_def sample_tx_env_healthy defaultTxExecutorOptions_def DefaultNumTxRetries_def wf_secrets_def)

lemma sample_limits:
  "caveatsForServices (static_limiter_ops sample_limiter) [sample_l402_service]
     = Inr [\<lparr>Condition = CondServices, Value = ''svc:0''\<rparr>]"
proof -
  have "dec_nat 0 = ''0''" by (simp add: dec_nat.simps digit_char_def byte_of_def char_of_eq_iff)
  then show ?thesis
    by (simp add: caveatsForServices_def NewServicesCaveat_def encodeServicesCaveatValue_ok encodeServicesCaveatValue_def
        formatService_def sample_l402_service_def BaseTier_def static_limiter_ops_def ServiceCapabilities_eq
        ServiceConstraints_eq ServiceTimeouts_eq sample_limiter_def newStaticServiceLimiter_def limitService_def
        limiter_key_def sample_service_def List.map_filter_simps)
qed

lemma sample_secret_new:
  "ss_NewSecret sample_secrets h p [] = ([\<lparr>sr_macaroon_id_hash = h, sr_payment_hash = p, sr_secret = to_array 32 ''k'',
     sr_settled_at = None, sr_created_at = (0, 0)\<rparr>], Inr (to_array 32 ''k''))"
  by (simp add: sample_secrets_def secrets_store_ops_def NewSecret_healthy [OF sample_secrets_ok] Let_def)

lemma sample_mint_run:
  "sample_mint (static_limiter_ops sample_limiter) =
     (([\<lparr>sr_macaroon_id_hash = sha256 sample_id, sr_payment_hash = sample_hash, sr_secret = to_array 32 ''k'',
         sr_settled_at = None, sr_created_at = (0, 0)\<rparr>], 1), Inr (sample_mac, ''lnbc''))"
proof -
  have i: "createUniqueIdentifier (Inr ''t'') sample_hash = Inr sample_id"
    by (simp add: createUniqueIdentifier_eq sample_id_def)
  have n: "mac_New sample_macaroon_ops k i l = Inr [k, i]" for k i l by (simp add: sample_macaroon_ops_def)
  have a: "AddFirstPartyCaveats sample_macaroon_ops [to_array 32 ''k'', sample_id] [\<lparr>Condition = CondServices, Value = ''svc:0''\<rparr>]
      = Inr sample_mac"
    by (simp add: sample_macaroon_ops_def EncodeCaveat_def CondServices_def sample_mac_def)
  show ?thesis
    by (simp add: sample_mint_def MintL402_def paymentDetailsForMaxPrice_def sample_l402_service_def [symmetric]
        sample_challenger_def i sample_secret_new n sample_limits a Let_def del: AddFirstPartyCaveats.simps)
qed

lemma sample_limiter_restricting: "\<forall>c \<in> limiter_caveats sample_limiter. restricting c"
proof
  fix c assume "c \<in> limiter_caveats sample_limiter"
  then have "c \<in> config_caveats (0, 0) sample_service"
    using newStaticServiceLimiter_caveats [of c "\<lambda>i. (0, 0)" "[sample_service]"] by (auto simp: sample_limiter_def)
  then show "restricting c"
    by (auto simp: config_caveats_def sample_service_def NewCapabilitiesCaveat_def restricting_def
        CondCapabilitiesSuffix_def CondServices_def)
qed

definition sample_hash_ops :: lntypes_ops where
  "sample_hash_ops = sample_lntypes_ops (\<lambda>p. sample_hash)"

definition sample_tbl :: secrets_table where
  "sample_tbl = [\<lparr>sr_macaroon_id_hash = sha256 sample_id, sr_payment_hash = sample_hash, sr_secret = to_array 32 ''k'',
     sr_settled_at = None, sr_created_at = (0, 0)\<rparr>]"

lemma sample_tbl_ok: "secrets_ok defaultTxExecutorOptions sample_tx_env sample_tbl"
  using sample_secrets_ok by (simp add: secrets_ok_def wf_secrets_def sample_tbl_def)

lemma sample_get: "ss_GetSecret sample_secrets (sha256 sample_id) sample_tbl = (sample_tbl, Inr (to_array 32 ''k''))"
  using secrets_db.get_spec [OF sample_tbl_ok] by (simp add: sample_secrets_def secrets_of_def sample_tbl_def)

lemma sample_services_ok:
  "condition_holds (NewServicesSatisfier ''svc'') (replicate (Suc n) \<lparr>Condition = CondServices, Value = ''svc:0''\<rparr>)"
proof -
  have p: "parse_int ''0'' = Inr 0"
    by (simp add: parse_int_def digit_val_def byte_val_def in_int64_def)
  have "decodeServicesCaveatValue ''svc:0'' = Inr [\<lparr>Name = ''svc'', Tier = 0, RecipientLud16 = [], Price = 0\<rparr>]"
    by (simp add: decodeServicesCaveatValue_def decodeService_def p)
  then show ?thesis
    by (auto simp: condition_holds_def services_previous_ok services_final_ok serviceNames_def nth_Cons')
qed

lemma sample_verified:
  assumes "mac_Id sample_macaroon_ops m = sample_id"
    and "mac_VerifySignature sample_macaroon_ops m (to_array 32 ''k'') = Inr (replicate (Suc n) ''services=svc:0'')"
  shows "snd (VerifyL402 sample_macaroon_ops sample_hash_ops sample_secrets rev (0, 0)
     \<lparr>vp_Macaroon = m, vp_Preimage = p, vp_TargetService = ''svc''\<rparr> sample_tbl) = Inr ()"
proof -
  let ?c = "\<lparr>Condition = CondServices, Value = ''svc:0''\<rparr>"
  have "DecodeIdentifier sample_id = Inr \<lparr>Version = 0, PaymentHash = sample_hash, TokenID = to_array 32 ''t''\<rparr>"
    by (simp add: DecodeIdentifier_ok_iff sample_id_def sample_hash_def to_array_def)
  moreover have d: "DecodeCaveat ''services=svc:0'' = Inr ?c"
    by (simp add: DecodeCaveat_ok_iff CondServices_def)
  have "decodeCaveats (replicate j ''services=svc:0'') = replicate j ?c" for j
    by (induction j) (simp_all add: decodeCaveats_def List.map_filter_simps d)
  then have "decodeCaveats (replicate (Suc n) ''services=svc:0'') = replicate (Suc n) ?c" by blast
  moreover have "cond_list CondServices (replicate (Suc n) ?c) = replicate (Suc n) ?c"
    "cond_list (''svc'' @ CondTimeoutSuffix) (replicate (Suc n) ?c) = []"
    using services_not_timeout [of "''svc''"] by (auto simp: cond_list_def)
  ultimately have "l402_checks sample_macaroon_ops sample_hash_ops sample_secrets (0, 0)
      \<lparr>vp_Macaroon = m, vp_Preimage = p, vp_TargetService = ''svc''\<rparr> sample_tbl
      \<lparr>Version = 0, PaymentHash = sample_hash, TokenID = to_array 32 ''t''\<rparr> (to_array 32 ''k'')
      (replicate (Suc n) ''services=svc:0'')"
    using assms sample_services_ok [of n] sample_get
    by (simp add: l402_checks_def sample_hash_ops_def sample_lntypes_ops_def holds_unless_absent_def del: replicate.simps)
  then show ?thesis by (subst VerifyL402_ok_iff) auto
qed

lemma sample_accepted:
  "snd (VerifyL402 sample_macaroon_ops sample_hash_ops sample_secrets rev (0, 0)
     \<lparr>vp_Macaroon = sample_mac, vp_Preimage = ''p'', vp_TargetService = ''svc''\<rparr> sample_tbl) = Inr ()"
  by (rule sample_verified [of _ 0]) (simp_all add: sample_macaroon_ops_def sample_mac_def)

theorem minted_l402_accepted_witness:
  "snd (VerifyL402 sample_macaroon_ops sample_hash_ops sample_secrets rev (0, 0)
     \<lparr>vp_Macaroon = sample_mac, vp_Preimage = ''p'', vp_TargetService = ''svc''\<rparr>
     (fst (fst (sample_mint (static_limiter_ops sample_limiter))))) = Inr () \<and>
   snd (VerifyL402 sample_macaroon_ops sample_hash_ops sample_secrets rev (0, 0)
     \<lparr>vp_Macaroon = sample_mac, vp_Preimage = ''p'', vp_TargetService = ''other''\<rparr>
     (fst (fst (sample_mint (static_limiter_ops sample_limiter))))) \<noteq> Inr ()"
proof -
  note acc = minted_l402_accepted [OF sample_macaroon_lib sample_tx_env_healthy, of defaultTxExecutorOptions "[]"
      "[sample_l402_service]" sample_limiter "Inr ''k''" "(0, 0)" sample_challenger "Inr ''t''" 0
      _ 1 sample_mac "''lnbc''" sample_hash rev sample_hash_ops "(0, 0)" "''p''"]
  have t: "cond_list (x @ CondTimeoutSuffix) [\<lparr>Condition = CondServices, Value = ''svc:0''\<rparr>] = []" for x
    using services_not_timeout [of x] by (simp add: cond_list_def)
  show ?thesis
    using acc [of _ "''svc''"] acc [of _ "''other''"] sample_limiter_restricting sample_mint_run sample_secrets_ok
    by (simp add: sample_mint_def sample_secrets_def secrets_ok_def sample_l402_service_def clean_name_def
        sample_challenger_def sample_limits [unfolded sample_l402_service_def] t [of "''svc''", simplified] holds_unless_absent_def
        sample_hash_ops_def sample_lntypes_ops_def sample_hash_def)
qed

theorem accepted_l402_witness:
  "\<exists>i. DecodeIdentifier (mac_Id sample_macaroon_ops sample_mac) = Inr i \<and> sample_hash = PaymentHash i"
proof -
  have ok: "snd (VerifyL402 sample_macaroon_ops sample_hash_ops sample_secrets rev (0, 0)
      \<lparr>vp_Macaroon = sample_mac, vp_Preimage = ''p'', vp_TargetService = ''svc''\<rparr>
      sample_tbl) = Inr ()"
    by (rule sample_accepted)
  show ?thesis using accepted_l402 [OF set_rev ok] by (auto simp: sample_hash_ops_def sample_lntypes_ops_def)
qed

text \<open>A mint that fails for a service without a name, over a database that is gone when the secret is
  to be revoked: the row stays.\<close>

definition sample_gone_env :: "secrets_table tx_env" where
  "sample_gone_env = sample_tx_env\<lparr>te_Begin := (\<lambda>i opts. Some (External ''connection refused''))\<rparr>"

theorem failed_mint_secrets_witness:
  "\<exists>i k. fst (fst (MintL402 sample_macaroon_ops (faulty_store defaultTxExecutorOptions sample_tx_env sample_gone_env (Inr ''k'') (0, 0))
      (static_limiter_ops sample_limiter) sample_challenger (Inr ''t'') [sample_l402_service\<lparr>Name := []\<rparr>] ([], 0)))
   = [\<lparr>sr_macaroon_id_hash = sha256 i, sr_payment_hash = sample_hash, sr_secret = k, sr_settled_at = None, sr_created_at = (0, 0)\<rparr>]"
proof -
  let ?run = "MintL402 sample_macaroon_ops (faulty_store defaultTxExecutorOptions sample_tx_env sample_gone_env (Inr ''k'') (0, 0))
      (static_limiter_ops sample_limiter) sample_challenger (Inr ''t'') [sample_l402_service\<lparr>Name := []\<rparr>] ([], 0)"
  have i: "createUniqueIdentifier (Inr ''t'') sample_hash = Inr sample_id"
    by (simp add: createUniqueIdentifier_eq sample_id_def)
  have cav: "caveatsForServices (static_limiter_ops sample_limiter) [sample_l402_service\<lparr>Name := []\<rparr>]
      = Inl (Errorf ''missing service name'')"
    by (simp add: caveatsForServices_def NewServicesCaveat_def encodeServicesCaveatValue_def)
  have gone: "RevokeSecret defaultTxExecutorOptions sample_gone_env h t =
      (t, Inl (Wrap ''unable to revoke secret'' (External ''connection refused'')))" for h t
    by (simp add: RevokeSecret_def ExecTx_def defaultTxExecutorOptions_def DefaultNumTxRetries_def eval_nat_numeral
        sample_gone_env_def sample_tx_env_def)
  have "fst (fst ?run) \<noteq> [] \<and> (\<exists>e. snd ?run = Inl e)"
    using sample_secret_new [unfolded sample_secrets_def secrets_store_ops_def]
    by (simp add: MintL402_def paymentDetailsForMaxPrice_def sample_l402_service_def [symmetric] cav gone
        sample_challenger_def i Let_def sample_macaroon_ops_def)
  then obtain e where e: "?run = ((fst (fst ?run), snd (fst ?run)), Inl e)" "fst (fst ?run) \<noteq> []" by (metis prod.collapse)
  have "sole_writer sample_tx_env" "sole_writer sample_gone_env"
    by (simp_all add: sole_writer_def sample_tx_env_def sample_gone_env_def)
  from failed_mint_secrets [OF this e(1)] e(2) show ?thesis
    by (auto simp: sample_challenger_def)
qed

theorem minted_secret_recorded_witness:
  "\<exists>h k. fst (fst (MintL402 sample_macaroon_ops (faulty_store defaultTxExecutorOptions sample_tx_env sample_gone_env (Inr ''k'') (0, 0))
      (static_limiter_ops sample_limiter) sample_challenger (Inr ''t'') [sample_l402_service] ([], 0)))
   = [\<lparr>sr_macaroon_id_hash = sha256 (mac_Id sample_macaroon_ops sample_mac), sr_payment_hash = h, sr_secret = k,
        sr_settled_at = None, sr_created_at = (0, 0)\<rparr>] \<and>
   DecodeIdentifier (mac_Id sample_macaroon_ops sample_mac) = Inr \<lparr>Version = 0, PaymentHash = h, TokenID = to_array 32 ''t''\<rparr>"
proof -
  have same: "MintL402 sample_macaroon_ops (faulty_store opts env env' rnd created) lim nc t ss st =
      MintL402 sample_macaroon_ops (secrets_store_ops opts env rnd created) lim nc t ss st"
    if "snd (MintL402 sample_macaroon_ops (secrets_store_ops opts env rnd created) lim nc t ss st) = Inr x" for opts env env' rnd created lim nc t ss st x
    using that by (auto simp: MintL402_def faulty_store_def secrets_store_ops_def Let_def split: prod.splits sum.splits)
  obtain tbl' where run: "MintL402 sample_macaroon_ops (faulty_store defaultTxExecutorOptions sample_tx_env sample_gone_env (Inr ''k'') (0, 0))
      (static_limiter_ops sample_limiter) sample_challenger (Inr ''t'') [sample_l402_service] ([], 0) = ((tbl', 1), Inr (sample_mac, ''lnbc''))"
    using sample_mint_run same [OF arg_cong [where f = snd, OF sample_mint_run [unfolded sample_mint_def sample_secrets_def], unfolded snd_conv], of sample_gone_env] that
    unfolding sample_mint_def sample_secrets_def by simp
  have "sole_writer sample_tx_env" by (simp add: sole_writer_def sample_tx_env_def)
  from minted_secret_recorded [OF sample_macaroon_lib this run] run show ?thesis
    by (auto simp: sample_challenger_def sample_hash_def)
qed

definition sample_restricted :: "bytes list" where
  "sample_restricted = sample_mac @ [''services=svc:0'']"

lemma sample_restricted_accepted:
  "snd (VerifyL402 sample_macaroon_ops sample_hash_ops sample_secrets rev (0, 0)
     \<lparr>vp_Macaroon = sample_restricted, vp_Preimage = ''p'', vp_TargetService = ''svc''\<rparr> sample_tbl) = Inr ()"
  by (rule sample_verified [of _ 1]) (simp_all add: sample_macaroon_ops_def sample_mac_def sample_restricted_def)

theorem added_caveats_only_restrict_witness:
  "snd (VerifyL402 sample_macaroon_ops sample_hash_ops sample_secrets rev (0, 0)
     \<lparr>vp_Macaroon = sample_mac, vp_Preimage = ''p'', vp_TargetService = ''svc''\<rparr> sample_tbl) = Inr ()"
proof (rule added_caveats_only_restrict [OF sample_macaroon_lib, where k = "to_array 32 ''k''"
      and m' = sample_restricted and cs = "[\<lparr>Condition = CondServices, Value = ''svc:0''\<rparr>]"])
  have "mac_New sample_macaroon_ops (to_array 32 ''k'') sample_id ''lsat'' = Inr [to_array 32 ''k'', sample_id]"
    by (simp add: sample_macaroon_ops_def)
  then have "baked sample_macaroon_ops (to_array 32 ''k'') [to_array 32 ''k'', sample_id]" by (rule baked_new)
  moreover have "AddFirstPartyCaveats sample_macaroon_ops [to_array 32 ''k'', sample_id]
      [\<lparr>Condition = CondServices, Value = ''svc:0''\<rparr>] = Inr sample_mac"
    by (simp add: sample_macaroon_ops_def EncodeCaveat_def CondServices_def sample_mac_def)
  ultimately show "baked sample_macaroon_ops (to_array 32 ''k'') sample_mac" by (rule AddFirstPartyCaveats_baked)
  show "AddFirstPartyCaveats sample_macaroon_ops sample_mac [\<lparr>Condition = CondServices, Value = ''svc:0''\<rparr>]
      = Inr sample_restricted"
    by (simp add: sample_macaroon_ops_def EncodeCaveat_def CondServices_def sample_mac_def sample_restricted_def)
  show "snd (ss_GetSecret sample_secrets (sha256 (mac_Id sample_macaroon_ops sample_mac)) sample_tbl) = Inr (to_array 32 ''k'')"
    using sample_get by (simp add: sample_macaroon_ops_def sample_mac_def)
  show "snd (VerifyL402 sample_macaroon_ops sample_hash_ops sample_secrets rev (0, 0)
      \<lparr>vp_Macaroon = sample_restricted, vp_Preimage = ''p'', vp_TargetService = ''svc''\<rparr> sample_tbl) = Inr ()"
    by (rule sample_restricted_accepted)
qed simp

definition sample_odd_service :: Service where
  "sample_odd_service = \<lparr>Name = ''a:0,b'', Tier = BaseTier, RecipientLud16 = ''u@d'', Price = 1\<rparr>"

definition sample_odd_mint where
  "sample_odd_mint = MintL402 sample_macaroon_ops sample_secrets (static_limiter_ops sample_limiter) sample_challenger
     (Inr ''t'') [sample_odd_service] ([], 0)"

lemma sample_odd_run: "\<exists>tbl mac. sample_odd_mint = ((tbl, 1), Inr (mac, ''lnbc''))"
proof -
  have i: "createUniqueIdentifier (Inr ''t'') sample_hash = Inr sample_id"
    by (simp add: createUniqueIdentifier_eq sample_id_def)
  have "\<exists>cs. caveatsForServices (static_limiter_ops sample_limiter) [sample_odd_service] = Inr cs"
    by (simp add: caveatsForServices_def NewServicesCaveat_def encodeServicesCaveatValue_def sample_odd_service_def
        static_limiter_ops_def ServiceCapabilities_eq ServiceConstraints_eq ServiceTimeouts_eq)
  then obtain cs where cs: "caveatsForServices (static_limiter_ops sample_limiter) [sample_odd_service] = Inr cs" by blast
  have "\<exists>m. AddFirstPartyCaveats sample_macaroon_ops [k, j] cs = Inr m" for k j
  proof -
    have "2 \<le> length m \<Longrightarrow> \<exists>m'. AddFirstPartyCaveats sample_macaroon_ops m cs = Inr m'" for m
      by (induction cs arbitrary: m) (simp_all add: sample_macaroon_ops_def)
    then show ?thesis by simp
  qed
  then obtain m where m: "AddFirstPartyCaveats sample_macaroon_ops [to_array 32 ''k'', sample_id] cs = Inr m" by blast
  have n: "mac_New sample_macaroon_ops k i l = Inr [k, i]" for k i l by (simp add: sample_macaroon_ops_def)
  show ?thesis
    by (simp add: sample_odd_mint_def MintL402_def paymentDetailsForMaxPrice_def sample_odd_service_def [symmetric]
        sample_challenger_def i sample_secret_new cs m n Let_def del: AddFirstPartyCaveats.simps)
qed

theorem separators_in_name_grant_more_witness:
  "snd (VerifyL402 sample_macaroon_ops sample_hash_ops sample_secrets rev (0, 0)
     \<lparr>vp_Macaroon = fst (projr (snd sample_odd_mint)), vp_Preimage = ''p'', vp_TargetService = ''b''\<rparr>
     (fst (fst sample_odd_mint))) = Inr ()"
proof -
  obtain tbl mac where run: "sample_odd_mint = ((tbl, 1), Inr (mac, ''lnbc''))" using sample_odd_run by blast
  have "snd (VerifyL402 sample_macaroon_ops sample_hash_ops sample_secrets rev (0, 0)
      \<lparr>vp_Macaroon = mac, vp_Preimage = ''p'', vp_TargetService = ''b''\<rparr> tbl) = Inr ()"
    unfolding sample_secrets_def
    by (rule separators_in_name_grant_more [OF sample_macaroon_lib sample_tx_env_healthy, where a = "''a''"
          and x = sample_odd_service and tbl = "[]" and clock = "\<lambda>i. (0, 0)" and configured = "[sample_service]" and newChallenge = sample_challenger
          and tokenRnd = "Inr ''t''" and c = 0])
      (use sample_secrets_ok run in \<open>simp_all add: secrets_ok_def clean_name_def sample_odd_service_def
        sample_odd_mint_def sample_limiter_def sample_secrets_def sample_challenger_def sample_hash_ops_def sample_lntypes_ops_def sample_hash_def\<close>)
  then show ?thesis unfolding run by simp
qed

end
