(* ===== verification/Challenger.thy ===== *)
theory Challenger
  imports Lnurl Lsat_Header Secrets_Store Mint
begin

text \<open>
  \<^verbatim>\<open>aperture/challenger/lnproxy.go\<close>: the challenger. It makes a payment challenge by asking the
  recipient's server for an invoice and the lnproxy relay for a wrapped one, and it tracks the
  state of every invoice of the node in a map that one goroutine updates from the node's
  subscription while requests wait on it with a condition variable.

  Goroutines are modelled at the granularity of the mutex \<^verbatim>\<open>invoicesMtx\<close>: the reader polls
  \<^verbatim>\<open>quit\<close> in one step and handles what \<^verbatim>\<open>Recv\<close> returned in another; one step of a waiter is one
  turn of the loop around \<^verbatim>\<open>invoicesCond.Wait\<close>. Outside code is an argument: the node's answers (\<open>lnrpc_Invoice\<close>), the answers
  of the HTTP servers and the JSON and invoice decoders (\<open>challenge_env\<close>).
\<close>

subsection \<open>Invoices of the node\<close>

datatype InvoiceState = OPEN | SETTLED | CANCELED | ACCEPTED

record lnrpc_Invoice =
  RHash :: "bytes option"
  inv_State :: InvoiceState
  CreationDate :: int
  Expiry :: int
  SettleDate :: int
  AddIndex :: "64 word"
  SettleIndex :: "64 word"

definition invoiceIrrelevant :: "time \<Rightarrow> lnrpc_Invoice option \<Rightarrow> bool" where
  "invoiceIrrelevant now invoice =
     (case invoice of
        None \<Rightarrow> True
      | Some i \<Rightarrow>
          if inv_State i = CANCELED then True
          else
            (let creation = time_Unix (CreationDate i) 0;
                 expiration = time_add creation (seconds (Expiry i));
                 expired = time_before expiration now;
                 notSettled = (inv_State i = OPEN \<or> inv_State i = ACCEPTED)
             in expired \<and> notSettled))"

subsection \<open>State and start\<close>

type_synonym invoice_states = "bytes \<rightharpoonup> InvoiceState"

text \<open>Where the reader goroutine is: not started, at the top of its loop, in \<^verbatim>\<open>Recv\<close>, or returned.\<close>

datatype reader_phase = NotStarted | AtSelect | InRecv | Ended

text \<open>\<open>ch_errors\<close> is what the main goroutine received on \<^verbatim>\<open>errChan\<close>.\<close>

record 's LnproxyChallenger =
  invoiceStates :: invoice_states
  ch_secrets :: 's
  ch_reader :: reader_phase
  ch_quit :: bool
  ch_errors :: "string list"

text \<open>The loop of \<^verbatim>\<open>Start\<close> over the node's invoices, with the two subscription indices.\<close>

fun start_loop :: "lntypes_ops \<Rightarrow> time \<Rightarrow> lnrpc_Invoice list \<Rightarrow> 64 word \<times> 64 word \<times> invoice_states
    \<Rightarrow> (64 word \<times> 64 word \<times> invoice_states) result" where
  "start_loop lt now [] acc = Inr acc"
| "start_loop lt now (i # is) (addIndex, settleIndex, states) =
     (case RHash i of
        None \<Rightarrow> start_loop lt now is (addIndex, settleIndex, states)
      | Some rhash \<Rightarrow>
          let addIndex' = (if AddIndex i > addIndex then AddIndex i else addIndex);
              settleIndex' = (if SettleIndex i > settleIndex then SettleIndex i else settleIndex)
          in (case lnt_MakeHash lt rhash of
                Inl e \<Rightarrow> Inl (Errorf ''error parsing invoice hash'')
              | Inr hash \<Rightarrow>
                  if invoiceIrrelevant now (Some i) then start_loop lt now is (addIndex', settleIndex', states)
                  else start_loop lt now is (addIndex', settleIndex', states(hash \<mapsto> inv_State i))))"

text \<open>
  \<^verbatim>\<open>Start\<close>: \<open>listed\<close> is the answer of \<^verbatim>\<open>ListInvoices\<close>, \<open>subscribe\<close> that of
  \<^verbatim>\<open>SubscribeInvoices\<close> for the two indices. The reader goroutine runs afterwards.
\<close>

definition Challenger_Start ::
    "lntypes_ops \<Rightarrow> time \<Rightarrow> lnrpc_Invoice list result \<Rightarrow> (64 word \<Rightarrow> 64 word \<Rightarrow> unit result) \<Rightarrow> 's LnproxyChallenger
       \<Rightarrow> 's LnproxyChallenger \<times> unit result" where
  "Challenger_Start lt now listed subscribe ch =
     (case listed of
        Inl e \<Rightarrow> (ch, Inl e)
      | Inr invoices \<Rightarrow>
          (case start_loop lt now invoices (0, 0, invoiceStates ch) of
             Inl e \<Rightarrow> (ch, Inl e)
           | Inr (addIndex, settleIndex, states) \<Rightarrow>
               let ch' = ch\<lparr>invoiceStates := states\<rparr> in
               (case subscribe addIndex settleIndex of
                  Inl e \<Rightarrow> (ch', Inl e)
                | Inr _ \<Rightarrow> (ch'\<lparr>ch_reader := AtSelect\<rparr>, Inr ()))))"

definition NewLnproxyChallenger ::
    "bool \<Rightarrow> lntypes_ops \<Rightarrow> time \<Rightarrow> lnrpc_Invoice list result \<Rightarrow> (64 word \<Rightarrow> 64 word \<Rightarrow> unit result) \<Rightarrow> 's
       \<Rightarrow> 's LnproxyChallenger result" where
  "NewLnproxyChallenger hasGenInvoiceReq lt now listed subscribe store =
     (if \<not> hasGenInvoiceReq then Inl (Errorf ''genInvoiceReq cannot be nil'')
      else (case Challenger_Start lt now listed subscribe
                   \<lparr>invoiceStates = Map.empty, ch_secrets = store, ch_reader = NotStarted, ch_quit = False, ch_errors = []\<rparr> of
              (ch, Inl e) \<Rightarrow> Inl (Wrap ''unable to start challenger'' e)
            | (ch, Inr _) \<Rightarrow> Inr ch))"

text \<open>\<^verbatim>\<open>Stop\<close> cancels the subscription and closes \<^verbatim>\<open>quit\<close>, then waits for the goroutines: the reader
  ends when it polls \<^verbatim>\<open>quit\<close>, or when \<^verbatim>\<open>Recv\<close> returns the cancellation.\<close>

definition Challenger_Stop :: "'s LnproxyChallenger \<Rightarrow> 's LnproxyChallenger" where
  "Challenger_Stop ch = ch\<lparr>ch_quit := True\<rparr>"

subsection \<open>The reader goroutine\<close>

text \<open>What \<^verbatim>\<open>stream.Recv\<close> returned: end of file, another error (its text), or an invoice.\<close>

datatype recv = RecvEOF | RecvErr string | RecvInvoice lnrpc_Invoice

text \<open>The send on \<^verbatim>\<open>errChan\<close> does not block: without a receiver at hand the error is dropped.\<close>

definition signal_error :: "bool \<Rightarrow> string \<Rightarrow> 's LnproxyChallenger \<Rightarrow> 's LnproxyChallenger" where
  "signal_error receiver_ready e ch =
     (if receiver_ready then ch\<lparr>ch_errors := ch_errors ch @ [e], ch_reader := Ended\<rparr> else ch\<lparr>ch_reader := Ended\<rparr>)"

text \<open>The critical section: an error of the secret store is logged as critical and changes nothing here.\<close>

definition track_invoice :: "'s secret_ops \<Rightarrow> time \<Rightarrow> bytes \<Rightarrow> lnrpc_Invoice \<Rightarrow> 's LnproxyChallenger \<Rightarrow> 's LnproxyChallenger" where
  "track_invoice ss now paymentHash i ch =
     (if invoiceIrrelevant now (Some i) then ch\<lparr>invoiceStates := (invoiceStates ch)(paymentHash := None)\<rparr>
      else
        let ch' = ch\<lparr>invoiceStates := (invoiceStates ch)(paymentHash \<mapsto> inv_State i)\<rparr> in
        if inv_State i = SETTLED
        then ch'\<lparr>ch_secrets := fst (ss_SetSettledAt ss paymentHash (Some (time_Unix (SettleDate i) 0)) (ch_secrets ch))\<rparr>
        else ch')"

definition reader_poll :: "'s LnproxyChallenger \<Rightarrow> 's LnproxyChallenger" where
  "reader_poll ch =
     (if ch_reader ch \<noteq> AtSelect then ch
      else if ch_quit ch then ch\<lparr>ch_reader := Ended\<rparr> else ch\<lparr>ch_reader := InRecv\<rparr>)"

text \<open>The second component says whether the turn reached the \<^verbatim>\<open>Broadcast\<close>.\<close>

definition reader_recv ::
    "lntypes_ops \<Rightarrow> 's secret_ops \<Rightarrow> time \<Rightarrow> bool \<Rightarrow> recv \<Rightarrow> 's LnproxyChallenger \<Rightarrow> 's LnproxyChallenger \<times> bool" where
  "reader_recv lt ss now receiver_ready r ch =
     (if ch_reader ch \<noteq> InRecv then (ch, False)
      else
        (case r of
           RecvEOF \<Rightarrow> (signal_error receiver_ready ''EOF'' ch, False)
         | RecvErr e \<Rightarrow>
             if contains e ''context canceled'' then (ch\<lparr>ch_reader := Ended\<rparr>, False)
             else (signal_error receiver_ready e ch, False)
         | RecvInvoice i \<Rightarrow>
             (case RHash i of
                None \<Rightarrow> (ch\<lparr>ch_reader := AtSelect\<rparr>, False)
              | Some rhash \<Rightarrow>
                  (case lnt_MakeHash lt rhash of
                     Inl e \<Rightarrow> (ch\<lparr>ch_reader := Ended\<rparr>, False)
                   | Inr paymentHash \<Rightarrow> ((track_invoice ss now paymentHash i ch)\<lparr>ch_reader := AtSelect\<rparr>, True)))))"

subsection \<open>New challenges\<close>

definition trunc_div :: "int \<Rightarrow> int \<Rightarrow> int" where
  "trunc_div a b = (if 0 \<le> a then a div b else - ((- a) div b))"

definition getRoutingMsat :: "int \<Rightarrow> 64 word" where
  "getRoutingMsat amount_sats =
     (let routingMsat = word_of_int (trunc_div (wrap64 (amount_sats * 3)) 100) in
      if routingMsat < 10000 then 10000 else routingMsat)"

record ProxyParameters =
  pp_Invoice :: string
  pp_RoutingMsat :: "(64 word) option"
  pp_Description :: "string option"
  pp_DescriptionHash :: "string option"

text \<open>
  \<open>nc_LnproxyUrl\<close> is the environment variable as \<^verbatim>\<open>env.Parse\<close> returns it, \<open>nc_SpecUrl\<close> the URL with
  the path element \<^verbatim>\<open>spec\<close> joined, \<open>nc_Post\<close> the raw JSON value of the relay's answer,
  \<open>nc_Reason\<close> and \<open>nc_ProxyInvoice\<close> the fields the JSON decoder reads, \<open>nc_Decode\<close> the payment
  hash that \<^verbatim>\<open>zpay32.Decode\<close> found (a pointer, so it may be nil).
\<close>

record challenge_env =
  nc_Dotenv :: "unit result"
  nc_lnurl :: lnurl_env
  nc_Marshal :: "ProxyParameters \<Rightarrow> string result"
  nc_LnproxyUrl :: "string result"
  nc_SpecUrl :: "string \<Rightarrow> string result"
  nc_Post :: "string \<Rightarrow> string \<Rightarrow> string result result"
  nc_Reason :: "string \<Rightarrow> string result"
  nc_ProxyInvoice :: "string \<Rightarrow> string result"
  nc_Decode :: "string \<Rightarrow> bytes option result"

definition getCreatorInvoice :: "challenge_env \<Rightarrow> string \<Rightarrow> int \<Rightarrow> string result" where
  "getCreatorInvoice env lud16 price =
     (case NewLnurl lud16 of
        Inl e \<Rightarrow> Inl (Errorf ''error creating lnurl'')
      | Inr lu \<Rightarrow>
          (case GetInvoice (nc_lnurl env) lu price of
             Inl e \<Rightarrow> Inl (Errorf ''error getting creator invoice'')
           | Inr invoice \<Rightarrow> Inr invoice))"

definition requestWrappedInvoice :: "challenge_env \<Rightarrow> ProxyParameters \<Rightarrow> string result" where
  "requestWrappedInvoice env p =
     (case nc_Marshal env p of
        Inl e \<Rightarrow> Inl (Errorf ''failed to marshal spec parameter'')
      | Inr b \<Rightarrow>
     (case nc_LnproxyUrl env of
        Inl e \<Rightarrow> Inl (Panic ''env'')
      | Inr lnproxyUrl \<Rightarrow>
     (case nc_SpecUrl env lnproxyUrl of
        Inl e \<Rightarrow> Inl (Errorf ''failed to parse lnproxy url'')
      | Inr u \<Rightarrow>
     (case nc_Post env u b of
        Inl e \<Rightarrow> Inl e
      | Inr (Inl e) \<Rightarrow> Inl (Errorf ''error unmarshaling response'')
      | Inr (Inr rawJSON) \<Rightarrow>
          if contains rawJSON ''ERROR'' then
            (case nc_Reason env rawJSON of
               Inl e \<Rightarrow> Inl (Errorf ''error decoding error response'')
             | Inr reason \<Rightarrow> Inl (Errorf (''error response: '' @ reason)))
          else
            (case nc_ProxyInvoice env rawJSON of
               Inl e \<Rightarrow> Inl (Errorf ''error decoding success response'')
             | Inr wrapped \<Rightarrow> Inr wrapped)))))"

definition extractPaymentHash :: "challenge_env \<Rightarrow> string \<Rightarrow> bytes result" where
  "extractPaymentHash env invoice =
     (case nc_Decode env invoice of
        Inl e \<Rightarrow> Inl (Errorf ''error decoding invoice'')
      | Inr None \<Rightarrow> Inl (Panic ''nil payment hash'')
      | Inr (Some h) \<Rightarrow> Inr h)"

text \<open>\<^verbatim>\<open>fmt.Errorf\<close> with \<^verbatim>\<open>%v\<close>: a new error with a constant text; a panic goes through.\<close>

definition restate :: "string \<Rightarrow> 'a result \<Rightarrow> 'a result" where
  "restate m r = (case r of Inl (Panic p) \<Rightarrow> Inl (Panic p) | Inl e \<Rightarrow> Inl (Errorf m) | Inr x \<Rightarrow> Inr x)"

definition NewChallenge :: "challenge_env \<Rightarrow> string \<Rightarrow> int \<Rightarrow> (string \<times> bytes) result" where
  "NewChallenge env recipientLud16 price =
     (case nc_Dotenv env of
        Inl e \<Rightarrow> Inl (Panic ''godotenv'')
      | Inr _ \<Rightarrow>
     rbind (restate ''error getting creator invoice'' (getCreatorInvoice env recipientLud16 price)) (\<lambda>creatorInvoice.
     rbind (restate ''error requesting wrapped invoice'' (requestWrappedInvoice env
              \<lparr>pp_Invoice = creatorInvoice, pp_RoutingMsat = Some (getRoutingMsat price),
               pp_Description = None, pp_DescriptionHash = None\<rparr>)) (\<lambda>wrappedInvoice.
     rbind (restate ''error extracting payment hash'' (extractPaymentHash env wrappedInvoice)) (\<lambda>paymentHash.
       Inr (wrappedInvoice, paymentHash)))))"

text \<open>The challenger as the mint sees it: its own state does not change.\<close>

definition challenger_NewChallenge :: "challenge_env \<Rightarrow> 'c new_challenge" where
  "challenger_NewChallenge env recipientLud16 price c = (c, NewChallenge env recipientLud16 price)"

subsection \<open>Rights\<close>

definition VerifyRightsWithinExpiry ::
    "'s secret_ops \<Rightarrow> time \<Rightarrow> bytes \<Rightarrow> int \<Rightarrow> 's LnproxyChallenger \<Rightarrow> 's LnproxyChallenger \<times> unit result" where
  "VerifyRightsWithinExpiry ss now paymentHash duration ch =
     (case ss_GetSettledAt ss paymentHash (ch_secrets ch) of
        (s, Inl e) \<Rightarrow> (ch\<lparr>ch_secrets := s\<rparr>, Inl e)
      | (s, Inr None) \<Rightarrow> (ch\<lparr>ch_secrets := s\<rparr>, Inl (Errorf ''no settled time found''))
      | (s, Inr (Some settledAt)) \<Rightarrow>
          (ch\<lparr>ch_secrets := s\<rparr>,
           if time_before (time_add settledAt duration) now then Inl (Errorf ''L402 right expired'') else Inr ()))"

subsection \<open>Waiting for a state\<close>

text \<open>
  \<^verbatim>\<open>VerifyInvoiceStatus\<close>. The waiting goroutine is running (\<open>Checking\<close>: it holds, or is about to
  take, the mutex and will read the map), sleeping in \<^verbatim>\<open>Wait\<close>, or done with what it last read.
  A broadcast turns a sleeping waiter into one that will check again. The timer goroutine sets
  \<^verbatim>\<open>timeoutReached\<close> and broadcasts when the time is up or the challenger quits.
\<close>

datatype waiter_phase = Checking | Sleeping | Done "InvoiceState option"

record 's wait_state =
  ws_ch :: "'s LnproxyChallenger"
  ws_phase :: waiter_phase
  ws_timeoutReached :: bool

definition broadcast :: "'s wait_state \<Rightarrow> 's wait_state" where
  "broadcast w = (case ws_phase w of Sleeping \<Rightarrow> w\<lparr>ws_phase := Checking\<rparr> | _ \<Rightarrow> w)"

text \<open>One turn of the loop around \<^verbatim>\<open>Wait\<close>: read the map, then stop or sleep.\<close>

definition waiter_check :: "bytes \<Rightarrow> InvoiceState \<Rightarrow> 's wait_state \<Rightarrow> 's wait_state" where
  "waiter_check hash state w =
     (case ws_phase w of
        Checking \<Rightarrow>
          (let r = invoiceStates (ws_ch w) hash in
           if \<not> (r = Some state) \<and> \<not> ws_timeoutReached w then w\<lparr>ws_phase := Sleeping\<rparr>
           else w\<lparr>ws_phase := Done r\<rparr>)
      | _ \<Rightarrow> w)"

datatype wait_event = ReaderPoll | ReaderRecv time bool recv | Timer | Waiter | StopCalled

fun wait_step :: "lntypes_ops \<Rightarrow> 's secret_ops \<Rightarrow> bytes \<Rightarrow> InvoiceState \<Rightarrow> wait_event \<Rightarrow> 's wait_state \<Rightarrow> 's wait_state" where
  "wait_step lt ss hash state ReaderPoll w = w\<lparr>ws_ch := reader_poll (ws_ch w)\<rparr>"
| "wait_step lt ss hash state (ReaderRecv now rdy r) w =
     (case reader_recv lt ss now rdy r (ws_ch w) of
        (ch, True) \<Rightarrow> broadcast (w\<lparr>ws_ch := ch\<rparr>)
      | (ch, False) \<Rightarrow> w\<lparr>ws_ch := ch\<rparr>)"
| "wait_step lt ss hash state Timer w = broadcast (w\<lparr>ws_timeoutReached := True\<rparr>)"
| "wait_step lt ss hash state Waiter w = waiter_check hash state w"
| "wait_step lt ss hash state StopCalled w = w\<lparr>ws_ch := Challenger_Stop (ws_ch w)\<rparr>"

definition wait_init :: "'s LnproxyChallenger \<Rightarrow> 's wait_state" where
  "wait_init ch = \<lparr>ws_ch = ch, ws_phase = Checking, ws_timeoutReached = False\<rparr>"

text \<open>Run a schedule of events until the waiter is done.\<close>

fun wait_until :: "lntypes_ops \<Rightarrow> 's secret_ops \<Rightarrow> bytes \<Rightarrow> InvoiceState \<Rightarrow> wait_event list \<Rightarrow> 's wait_state \<Rightarrow> 's wait_state" where
  "wait_until lt ss hash state [] w = w"
| "wait_until lt ss hash state (ev # evs) w =
     (case ws_phase w of Done r \<Rightarrow> w | _ \<Rightarrow> wait_until lt ss hash state evs (wait_step lt ss hash state ev w))"

text \<open>The result the request gets, from what the waiter last read.\<close>

definition interpret_status :: "InvoiceState \<Rightarrow> InvoiceState option \<Rightarrow> unit result" where
  "interpret_status state r =
     (case r of
        None \<Rightarrow> Inl (Errorf ''no active or settled invoice found'')
      | Some s \<Rightarrow> if s \<noteq> state then Inl (Errorf ''invoice status not correct before timeout'') else Inr ())"

text \<open>The whole call over a schedule of events; without an answer it is still waiting.\<close>

definition VerifyInvoiceStatus ::
    "lntypes_ops \<Rightarrow> 's secret_ops \<Rightarrow> wait_event list \<Rightarrow> bytes \<Rightarrow> InvoiceState \<Rightarrow> 's LnproxyChallenger
       \<Rightarrow> 's LnproxyChallenger \<times> (unit result) option" where
  "VerifyInvoiceStatus lt ss evs hash state ch =
     (let w = wait_until lt ss hash state evs (wait_init ch) in
      (ws_ch w, case ws_phase w of Done r \<Rightarrow> Some (interpret_status state r) | _ \<Rightarrow> None))"

subsection \<open>Start\<close>

definition tracked :: "time \<Rightarrow> lnrpc_Invoice list \<Rightarrow> bytes \<Rightarrow> InvoiceState option" where
  "tracked now is h =
     map_option inv_State (List.find (\<lambda>i. RHash i = Some h \<and> \<not> invoiceIrrelevant now (Some i)) (rev is))"

lemma tracked_Cons:
  "tracked now (i # is) h =
     (case tracked now is h of
        Some st \<Rightarrow> Some st
      | None \<Rightarrow> if RHash i = Some h \<and> \<not> invoiceIrrelevant now (Some i) then Some (inv_State i) else None)"
  by (auto simp: tracked_def find_append split: option.splits)

lemma start_loop_states:
  assumes "lntypes_lib lt" and "start_loop lt now is (a, s, m) = Inr (a', s', m')"
  shows "m' h = (case tracked now is h of Some st \<Rightarrow> Some st | None \<Rightarrow> m h)"
  using assms(2)
proof (induction "is" arbitrary: a s m)
  case Nil
  then show ?case by (simp add: tracked_def)
next
  case (Cons i "is")
  show ?case
  proof (cases "RHash i")
    case None
    with Cons show ?thesis by (auto simp: tracked_Cons split: option.splits)
  next
    case (Some b)
    with Cons.prems obtain hash where mk: "lnt_MakeHash lt b = Inr hash"
      by (cases "lnt_MakeHash lt b") auto
    with assms(1) have "hash = b" by (auto simp: lntypes_lib_def)
    with Cons Some mk show ?thesis
      by (fastforce simp: tracked_Cons Let_def split: option.splits if_splits)
  qed
qed

lemma start_loop_indices:
  assumes "start_loop lt now is (a, s, m) = Inr (a', s', m')"
  shows "a \<le> a' \<and> s \<le> s' \<and> (\<forall>i \<in> set is. RHash i \<noteq> None \<longrightarrow> AddIndex i \<le> a' \<and> SettleIndex i \<le> s')"
  using assms
proof (induction "is" arbitrary: a s m)
  case (Cons i "is")
  show ?case
  proof (cases "RHash i")
    case None
    with Cons show ?thesis by auto
  next
    case (Some b)
    let ?a = "if AddIndex i > a then AddIndex i else a"
    let ?s = "if SettleIndex i > s then SettleIndex i else s"
    from Cons.prems Some obtain m2 where "start_loop lt now is (?a, ?s, m2) = Inr (a', s', m')"
      by (auto simp: Let_def split: sum.splits if_splits)
    from Cons.IH [OF this] show ?thesis by (auto split: if_splits)
  qed
qed simp

subsection \<open>The waiter\<close>

inductive wait_reach :: "lntypes_ops \<Rightarrow> 's secret_ops \<Rightarrow> bytes \<Rightarrow> InvoiceState \<Rightarrow> 's LnproxyChallenger \<Rightarrow> 's wait_state \<Rightarrow> bool"
  for lt ss hash state ch where
  wait_start: "wait_reach lt ss hash state ch (wait_init ch)"
| wait_next: "wait_reach lt ss hash state ch w \<Longrightarrow> wait_reach lt ss hash state ch (wait_step lt ss hash state ev w)"

lemma broadcast_simps [simp]:
  "ws_ch (broadcast w) = ws_ch w" "ws_timeoutReached (broadcast w) = ws_timeoutReached w"
  "ws_phase (broadcast w) = (if ws_phase w = Sleeping then Checking else ws_phase w)"
  by (auto simp: broadcast_def split: waiter_phase.splits)

lemma reader_poll_states [simp]: "invoiceStates (reader_poll ch) = invoiceStates ch"
  by (simp add: reader_poll_def)

lemma Stop_states [simp]: "invoiceStates (Challenger_Stop ch) = invoiceStates ch"
  by (simp add: Challenger_Stop_def)

text \<open>A turn of the reader that does not broadcast leaves the map and the secrets alone.\<close>

lemma reader_recv_silent:
  "reader_recv lt ss now rdy r ch = (ch', False) \<Longrightarrow>
     invoiceStates ch' = invoiceStates ch \<and> ch_secrets ch' = ch_secrets ch"
  by (auto simp: reader_recv_def signal_error_def split: if_splits recv.splits option.splits sum.splits)

lemma wait_step_phase:
  "ws_phase (wait_step lt ss hash state ev w) = Sleeping \<Longrightarrow>
     (ws_phase w = Sleeping \<and> invoiceStates (ws_ch (wait_step lt ss hash state ev w)) = invoiceStates (ws_ch w) \<and>
        ws_timeoutReached (wait_step lt ss hash state ev w) = ws_timeoutReached w) \<or>
     (invoiceStates (ws_ch (wait_step lt ss hash state ev w)) hash \<noteq> Some state \<and>
        \<not> ws_timeoutReached (wait_step lt ss hash state ev w))"
  by (cases ev)
    (auto simp: waiter_check_def Let_def reader_recv_silent split: waiter_phase.splits if_splits prod.splits bool.splits)

lemma wait_step_recv_ch:
  "ws_ch (wait_step lt ss hash state (ReaderRecv now rdy r) w) = fst (reader_recv lt ss now rdy r (ws_ch w))"
  by (auto split: prod.splits bool.splits)

text \<open>No wakeup is lost: a waiter sleeps only while there is nothing to report.\<close>

lemma no_lost_wakeup:
  assumes "wait_reach lt ss hash state ch w" and "ws_phase w = Sleeping"
  shows "invoiceStates (ws_ch w) hash \<noteq> Some state \<and> \<not> ws_timeoutReached w"
  using assms
proof (induction rule: wait_reach.induct)
  case wait_start
  then show ?case by (simp add: wait_init_def)
next
  case (wait_next w ev)
  with wait_step_phase [OF wait_next.prems] show ?case by auto
qed

lemma wait_until_reach:
  "wait_reach lt ss hash state ch w \<Longrightarrow> wait_reach lt ss hash state ch (wait_until lt ss hash state evs w)"
  by (induction evs arbitrary: w) (auto intro: wait_reach.intros split: waiter_phase.splits)

lemma wait_until_append:
  "wait_until lt ss hash state (evs @ evs') w = wait_until lt ss hash state evs' (wait_until lt ss hash state evs w)"
proof (induction evs arbitrary: w)
  case (Cons ev evs)
  have "wait_until lt ss hash state evs' w = w" if "ws_phase w = Done r" for r
    using that by (cases evs') simp_all
  with Cons show ?case by (auto split: waiter_phase.splits)
qed simp

text \<open>The schedule in which the time is up ends with an answer, whatever happened before.\<close>

lemma wait_until_timer:
  "\<exists>r. ws_phase (wait_until lt ss hash state (evs @ [Timer, Waiter]) (wait_init ch)) = Done r"
proof -
  let ?w = "wait_until lt ss hash state evs (wait_init ch)"
  have "\<exists>r. ws_phase (wait_until lt ss hash state [Timer, Waiter] w) = Done r" for w :: "'a wait_state"
    by (cases "ws_phase w") (auto simp: waiter_check_def Let_def broadcast_def)
  then show ?thesis by (simp only: wait_until_append)
qed

text \<open>What a waiter reports is what the map holds; a wrong state means that the time was up.\<close>

definition reports_map :: "bytes \<Rightarrow> InvoiceState \<Rightarrow> 's wait_state \<Rightarrow> bool" where
  "reports_map hash state w \<longleftrightarrow>
     (\<forall>r. ws_phase w = Done r \<longrightarrow> invoiceStates (ws_ch w) hash = r \<and> (r = Some state \<or> ws_timeoutReached w))"

lemma wait_until_reports:
  "reports_map hash state w \<Longrightarrow> reports_map hash state (wait_until lt ss hash state evs w)"
proof (induction evs arbitrary: w)
  case (Cons ev evs)
  show ?case
  proof (cases "\<exists>r. ws_phase w = Done r")
    case True
    with Cons.prems show ?thesis by auto
  next
    case False
    then have "reports_map hash state (wait_step lt ss hash state ev w)"
      by (cases ev) (auto simp: reports_map_def waiter_check_def Let_def
          split: waiter_phase.splits if_splits prod.splits bool.splits)
    with Cons.IH False show ?thesis by (auto split: waiter_phase.splits)
  qed
qed simp

lemma VerifyInvoiceStatus_ends:
  obtains ch' where "VerifyInvoiceStatus lt ss (evs @ [Timer, Waiter]) hash state ch =
     (ch', Some (interpret_status state (invoiceStates ch' hash)))"
proof -
  let ?w = "wait_until lt ss hash state (evs @ [Timer, Waiter]) (wait_init ch)"
  obtain r where r: "ws_phase ?w = Done r" using wait_until_timer by blast
  have "reports_map hash state (wait_init ch)" by (simp add: reports_map_def wait_init_def)
  from wait_until_reports [OF this, of lt ss "evs @ [Timer, Waiter]"] r
  have "invoiceStates (ws_ch ?w) hash = r" by (simp add: reports_map_def)
  with r show ?thesis by (intro that [of "ws_ch ?w"]) (simp add: VerifyInvoiceStatus_def Let_def)
qed

lemma interpret_status_ok [simp]: "interpret_status state r = Inr () \<longleftrightarrow> r = Some state"
  by (auto simp: interpret_status_def split: option.splits)

subsection \<open>Settlement times\<close>

context secret_store
begin

lemma rights_iff:
  assumes "ok (ch_secrets ch)"
  shows "VerifyRightsWithinExpiry ss now h d ch =
     (ch, case stl (ch_secrets ch) h of
            None \<Rightarrow> Inl (Wrap ''unable to get settled_at'' (Sentinel ErrSecretNotFound))
          | Some None \<Rightarrow> Inl (Errorf ''no settled time found'')
          | Some (Some t) \<Rightarrow> if time_before (time_add t d) now then Inl (Errorf ''L402 right expired'') else Inr ())"
  by (cases "stl (ch_secrets ch) h" rule: option.exhaust; simp add: VerifyRightsWithinExpiry_def settled_spec [OF assms]
      split: option.splits)

lemma set_fst:
  "ok s \<Longrightarrow> ok (fst (ss_SetSettledAt ss p t s)) \<and> sec (fst (ss_SetSettledAt ss p t s)) = sec s \<and>
     stl (fst (ss_SetSettledAt ss p t s)) = (\<lambda>q. if q = p \<and> stl s q \<noteq> None then Some t else stl s q)"
  using set_spec [of s p t "fst (ss_SetSettledAt ss p t s)" "snd (ss_SetSettledAt ss p t s)"] by simp

lemma reader_recv_secrets:
  assumes "ok (ch_secrets ch)"
  shows "ok (ch_secrets (fst (reader_recv lt ss now rdy r ch))) \<and>
     sec (ch_secrets (fst (reader_recv lt ss now rdy r ch))) = sec (ch_secrets ch)"
proof -
  have "ok (ch_secrets (track_invoice ss now h i ch)) \<and> sec (ch_secrets (track_invoice ss now h i ch)) = sec (ch_secrets ch)"
    for h i
    using set_fst [OF assms, of h "Some (time_Unix (SettleDate i) 0)"] assms by (simp add: track_invoice_def Let_def)
  then show ?thesis
    using assms by (auto simp: reader_recv_def signal_error_def split: recv.splits option.splits sum.splits)
qed

lemma wait_until_secrets:
  "ok (ch_secrets (ws_ch w)) \<Longrightarrow>
     ok (ch_secrets (ws_ch (wait_until lt ss hash state evs w))) \<and>
     sec (ch_secrets (ws_ch (wait_until lt ss hash state evs w))) = sec (ch_secrets (ws_ch w))"
proof (induction evs arbitrary: w)
  case (Cons ev evs)
  have "ok (ch_secrets (ws_ch (wait_step lt ss hash state ev w))) \<and>
      sec (ch_secrets (ws_ch (wait_step lt ss hash state ev w))) = sec (ch_secrets (ws_ch w))"
    using Cons.prems reader_recv_secrets [OF Cons.prems]
    by (cases ev; simp only: wait_step_recv_ch)
      (auto simp: reader_poll_def Challenger_Stop_def waiter_check_def Let_def split: waiter_phase.splits)
  with Cons.IH [of "wait_step lt ss hash state ev w"] Cons.prems show ?case by (auto split: waiter_phase.splits)
qed simp

text \<open>A settled invoice on the stream is recorded in the map and, with its time, in the store.\<close>

lemma settled_received:
  assumes "lntypes_lib lt" and "ok (ch_secrets ch)" and "ch_reader ch = InRecv" and "length h = 32"
    and "RHash i = Some h" and "inv_State i = SETTLED"
    and "reader_recv lt ss now rdy (RecvInvoice i) ch = (ch', b)"
  shows "b \<and> invoiceStates ch' h = Some SETTLED \<and>
     (stl (ch_secrets ch) h \<noteq> None \<longrightarrow> stl (ch_secrets ch') h = Some (Some (time_Unix (SettleDate i) 0)))"
proof -
  have "ch' = (track_invoice ss now h i ch)\<lparr>ch_reader := AtSelect\<rparr>" "b"
    using assms by (auto simp: reader_recv_def lntypes_lib_simps)
  moreover have "\<not> invoiceIrrelevant now (Some i)" using assms(6) by (simp add: invoiceIrrelevant_def)
  ultimately show ?thesis
    using assms(6) set_fst [OF assms(2), of h "Some (time_Unix (SettleDate i) 0)"]
    by (auto simp: track_invoice_def Let_def)
qed

text \<open>The reader keeps: a payment known as settled has a settlement time (if it has a secret).\<close>

definition recorded :: "'s LnproxyChallenger \<Rightarrow> bool" where
  "recorded ch \<longleftrightarrow> (\<forall>h. invoiceStates ch h = Some SETTLED \<longrightarrow> stl (ch_secrets ch) h \<noteq> Some None)"

lemma reader_recorded:
  assumes "ok (ch_secrets ch)" and "recorded ch"
  shows "recorded (fst (reader_recv lt ss now rdy r ch))"
proof -
  have "recorded (track_invoice ss now h i ch)" for h i
    using assms set_fst [OF assms(1), of h "Some (time_Unix (SettleDate i) 0)"]
    by (auto simp: recorded_def track_invoice_def Let_def)
  then show ?thesis
    using assms by (auto simp: reader_recv_def signal_error_def recorded_def split: recv.splits option.splits sum.splits)
qed

end

subsection \<open>The interface to the authenticator\<close>

text \<open>\<^verbatim>\<open>auth.InvoiceChecker\<close>.\<close>

record 'k checker_ops =
  chk_VerifyInvoiceStatus :: "bytes \<Rightarrow> InvoiceState \<Rightarrow> int \<Rightarrow> 'k \<Rightarrow> 'k \<times> unit result"
  chk_VerifyRightsWithinExpiry :: "bytes \<Rightarrow> int \<Rightarrow> 'k \<Rightarrow> 'k \<times> unit result"

text \<open>
  The challenger as a checker: \<open>evs\<close> is what happens during the wait, before the time is up. The
  schedule always ends with the timer, so the call always returns.
\<close>

definition challenger_checker :: "lntypes_ops \<Rightarrow> 's secret_ops \<Rightarrow> time \<Rightarrow> wait_event list \<Rightarrow> 's LnproxyChallenger checker_ops" where
  "challenger_checker lt ss now evs = \<lparr>
     chk_VerifyInvoiceStatus = (\<lambda>hash state timeout ch.
        case VerifyInvoiceStatus lt ss (evs @ [Timer, Waiter]) hash state ch of
          (ch', Some r) \<Rightarrow> (ch', r)
        | (ch', None) \<Rightarrow> (ch', Inl (Errorf ''still waiting''))),
     chk_VerifyRightsWithinExpiry = (\<lambda>hash duration ch. VerifyRightsWithinExpiry ss now hash duration ch) \<rparr>"

text \<open>
  What a checker promises: the first check succeeds exactly when the invoice is known in the
  wanted state as the check returns; the second exactly when a settlement time is on record that is
  not further back than the duration. Neither touches the secrets.
\<close>

locale invoice_checker =
  fixes chk :: "'k checker_ops"
    and now :: time
    and good :: "'k \<Rightarrow> bool"
    and states :: "'k \<Rightarrow> invoice_states"
    and secrets :: "'k \<Rightarrow> bytes \<rightharpoonup> bytes"
    and settled :: "'k \<Rightarrow> bytes \<rightharpoonup> time option"
  assumes status_spec: "good k \<Longrightarrow> chk_VerifyInvoiceStatus chk h st d k = (k', r) \<Longrightarrow>
      good k' \<and> secrets k' = secrets k \<and> (r = Inr () \<longleftrightarrow> states k' h = Some st)"
    and rights_spec: "good k \<Longrightarrow> chk_VerifyRightsWithinExpiry chk h d k = (k', r) \<Longrightarrow>
      k' = k \<and> (r = Inr () \<longleftrightarrow> (\<exists>t. settled k h = Some (Some t) \<and> \<not> time_before (time_add t d) now))"
begin

text \<open>Both checks in a row, as the authenticator makes them.\<close>

lemma paid_and_current:
  assumes "good k" and "chk_VerifyInvoiceStatus chk h SETTLED d k = (k1, r1)"
    and "chk_VerifyRightsWithinExpiry chk h e k1 = (k2, r2)"
  shows "good k2 \<and> (r1 = Inr () \<and> r2 = Inr () \<longleftrightarrow>
     states k2 h = Some SETTLED \<and> (\<exists>t. settled k2 h = Some (Some t) \<and> \<not> time_before (time_add t e) now))"
  using status_spec [OF assms(1,2)] rights_spec [of k1 h e k2 r2] assms(3) by auto

end

interpretation lnproxy_checker: invoice_checker
    "challenger_checker lt (secrets_store_ops opts env rnd created) now evs" now "\<lambda>ch. secrets_ok opts env (ch_secrets ch)"
    invoiceStates "\<lambda>ch. secrets_of (ch_secrets ch)" "\<lambda>ch. settled_of (ch_secrets ch)"
proof
  fix k h st d k' r
  assume ok: "secrets_ok opts env (ch_secrets k)"
    and c: "chk_VerifyInvoiceStatus (challenger_checker lt (secrets_store_ops opts env rnd created) now evs) h st d k = (k', r)"
  let ?w = "wait_until lt (secrets_store_ops opts env rnd created) h st (evs @ [Timer, Waiter]) (wait_init k)"
  obtain ch' where e: "VerifyInvoiceStatus lt (secrets_store_ops opts env rnd created) (evs @ [Timer, Waiter]) h st k =
      (ch', Some (interpret_status st (invoiceStates ch' h)))" by (rule VerifyInvoiceStatus_ends)
  then have "ch' = ws_ch ?w" by (simp add: VerifyInvoiceStatus_def Let_def)
  moreover from e c have "k' = ch'" "r = interpret_status st (invoiceStates ch' h)"
    by (auto simp: challenger_checker_def)
  ultimately show "secrets_ok opts env (ch_secrets k') \<and> secrets_of (ch_secrets k') = secrets_of (ch_secrets k) \<and>
      (r = Inr () \<longleftrightarrow> invoiceStates k' h = Some st)"
    using secrets_db.wait_until_secrets [of opts env "wait_init k"] ok by (simp add: wait_init_def)
next
  fix k h d k' r
  assume ok: "secrets_ok opts env (ch_secrets k)"
    and "chk_VerifyRightsWithinExpiry (challenger_checker lt (secrets_store_ops opts env rnd created) now evs) h d k = (k', r)"
  then show "k' = k \<and> (r = Inr () \<longleftrightarrow>
      (\<exists>t. settled_of (ch_secrets k) h = Some (Some t) \<and> \<not> time_before (time_add t d) now))"
    using secrets_db.rights_iff [of opts env k rnd created now h d]
    by (cases "settled_of (ch_secrets k) h" rule: option.exhaust)
      (auto simp: challenger_checker_def split: option.splits if_splits)
qed

subsection \<open>Properties of the challenger\<close>

lemma restate_ok [result_simps]: "restate m r = Inr x \<longleftrightarrow> r = Inr x"
  by (auto simp: restate_def split: sum.splits go_error.splits)

lemma getCreatorInvoice_ok:
  "getCreatorInvoice env a price = Inr c \<longleftrightarrow> (\<exists>lu. NewLnurl a = Inr lu \<and> GetInvoice (nc_lnurl env) lu price = Inr c)"
  by (auto simp: getCreatorInvoice_def split: sum.splits)

lemma requestWrappedInvoice_ok:
  "requestWrappedInvoice env p = Inr w \<longleftrightarrow>
     (\<exists>b url u raw. nc_Marshal env p = Inr b \<and> nc_LnproxyUrl env = Inr url \<and> nc_SpecUrl env url = Inr u \<and>
        nc_Post env u b = Inr (Inr raw) \<and> \<not> contains raw ''ERROR'' \<and> nc_ProxyInvoice env raw = Inr w)"
  by (auto simp: requestWrappedInvoice_def split: sum.splits)

lemma NewChallenge_ok:
  "NewChallenge env a price = Inr (w, h) \<longleftrightarrow>
     nc_Dotenv env = Inr () \<and>
     (\<exists>c. getCreatorInvoice env a price = Inr c \<and>
          requestWrappedInvoice env \<lparr>pp_Invoice = c, pp_RoutingMsat = Some (getRoutingMsat price),
            pp_Description = None, pp_DescriptionHash = None\<rparr> = Inr w) \<and>
     nc_Decode env w = Inr (Some h)"
  by (cases "nc_Dotenv env") (auto simp: NewChallenge_def result_simps extractPaymentHash_def split: sum.splits option.splits)

text \<open>
  C22: a challenge is the invoice that the relay returned, without an error text, for an invoice of
  the recipient's own server over exactly the price in millisatoshis; the payment hash that goes
  into the L402 is that of the invoice the client is asked to pay.
\<close>

theorem challenge_is_wrapped_invoice:
  assumes "NewChallenge env recipient price = Inr (wrapped, h)" and "0 \<le> price" and "price < 2 ^ 63 div 1000"
  shows "\<exists>name domain answer callback invoice request relay.
     recipient = name @ ''@'' @ domain \<and>
     le_Get (nc_lnurl env) (''https://'' @ domain @ ''/.well-known/lnurlp/'' @ name) = Inr (200, Inr answer) \<and>
     (\<exists>u. le_SetQuery (nc_lnurl env) (lr_Callback answer) ''amount'' (format_int (1000 * price)) = Inr u \<and>
          le_GetCallback (nc_lnurl env) u = Inr (200, Inr callback)) \<and> lc_Pr callback = invoice \<and>
     nc_Marshal env \<lparr>pp_Invoice = invoice, pp_RoutingMsat = Some (getRoutingMsat price),
        pp_Description = None, pp_DescriptionHash = None\<rparr> = Inr request \<and>
     (\<exists>u. nc_Post env u request = Inr (Inr relay)) \<and> \<not> contains relay ''ERROR'' \<and>
     nc_ProxyInvoice env relay = Inr wrapped \<and> nc_Decode env wrapped = Inr (Some h)"
proof -
  from assms(1) obtain c lu where lu: "NewLnurl recipient = Inr lu" and c: "GetInvoice (nc_lnurl env) lu price = Inr c"
    and w: "requestWrappedInvoice env \<lparr>pp_Invoice = c, pp_RoutingMsat = Some (getRoutingMsat price),
            pp_Description = None, pp_DescriptionHash = None\<rparr> = Inr wrapped" and h: "nc_Decode env wrapped = Inr (Some h)"
    by (auto simp: NewChallenge_ok getCreatorInvoice_ok)
  from lu obtain name domain where nd: "recipient = name @ ''@'' @ domain"
    "Lnurl_url lu = ''https://'' @ domain @ ''/.well-known/lnurlp/'' @ name" by (auto simp: NewLnurl_ok_iff)
  obtain body u cb where g: "le_Get (nc_lnurl env) (Lnurl_url lu) = Inr (200, Inr body)"
    "le_SetQuery (nc_lnurl env) (lr_Callback body) ''amount'' (format_int (1000 * price)) = Inr u"
    "le_GetCallback (nc_lnurl env) u = Inr (200, Inr cb)" "lc_Pr cb = c"
    using GetInvoice_ok [OF c] amount_msat_exact [OF assms(2,3)] by metis
  from w h nd g show ?thesis unfolding requestWrappedInvoice_ok by metis
qed

text \<open>
  The routing budget sent to the relay, in millisatoshis, is the number of satoshis that 3\%
  of the price makes, and at least 10000. It is thus ten satoshis for every price below 333334
  satoshis, and for larger prices a thirty-thousandth of the price: a percentage of satoshis is
  used as if it were millisatoshis.
\<close>

lemma routing_budget:
  assumes "0 \<le> price" and "price < 2 ^ 61"
  shows "uint (getRoutingMsat price) = max 10000 (3 * price div 100) \<and>
     (price < 333334 \<longrightarrow> getRoutingMsat price = 10000)"
proof -
  let ?w = "word_of_int (3 * price div 100) :: 64 word"
  have p: "trunc_div (wrap64 (price * 3)) 100 = 3 * price div 100"
    using assms by (simp add: wrap64_id in_int64_def trunc_div_def mult.commute)
  have "0 \<le> 3 * price div 100" "3 * price div 100 < 2 ^ 64" using assms by simp_all
  then have u: "uint ?w = 3 * price div 100" by (simp add: uint_word_of_int)
  then have lt: "?w < 10000 \<longleftrightarrow> 3 * price div 100 < 10000" by (simp add: word_less_def)
  have "3 * price div 100 < 10000" if "price < 333334" using that by linarith
  then show ?thesis using u lt by (auto simp: getRoutingMsat_def p Let_def)
qed

lemma routing_budget_example:
  "getRoutingMsat 300000 = 10000 \<and> uint (getRoutingMsat 10000000) = 300000"
  using routing_budget [of 300000] routing_budget [of 10000000] by simp

text \<open>
  C25: after the start the challenger knows, for every payment hash, the state of the last listed
  invoice with that hash that is neither canceled nor expired unpaid, and it subscribes with
  indices that no listed invoice exceeds.
\<close>

theorem challenger_start_tracks:
  assumes "lntypes_lib lt" and "NewLnproxyChallenger True lt now (Inr invoices) subscribe store = Inr ch"
  shows "(\<forall>h. invoiceStates ch h =
        map_option inv_State (List.find (\<lambda>i. RHash i = Some h \<and> \<not> invoiceIrrelevant now (Some i)) (rev invoices))) \<and>
     ch_secrets ch = store \<and>
     (\<exists>a s. subscribe a s = Inr () \<and>
        (\<forall>i \<in> set invoices. RHash i \<noteq> None \<longrightarrow> AddIndex i \<le> a \<and> SettleIndex i \<le> s))"
proof -
  from assms(2) obtain a s m where l: "start_loop lt now invoices (0, 0, Map.empty) = Inr (a, s, m)"
    and "subscribe a s = Inr ()" and ch: "invoiceStates ch = m" "ch_secrets ch = store"
    by (auto simp: NewLnproxyChallenger_def Challenger_Start_def Let_def split: sum.splits)
  moreover have "m h = map_option inv_State (List.find (\<lambda>i. RHash i = Some h \<and> \<not> invoiceIrrelevant now (Some i)) (rev invoices))" for h
    using start_loop_states [OF assms(1) l, of h] by (simp add: tracked_def split: option.splits)
  ultimately show ?thesis using start_loop_indices [OF l] by blast
qed

text \<open>
  C15: a request that waits for an invoice is never left sleeping when there is something to
  report: in every reachable state in which the invoice has the wanted state or the time is up, the
  waiter's next turn ends the wait, with the state the map holds at that moment unless it had
  ended before.
\<close>

theorem waiting_request_answered:
  assumes "wait_reach lt ss hash state ch w"
    and "invoiceStates (ws_ch w) hash = Some state \<or> ws_timeoutReached w"
  shows "\<exists>r. ws_phase (wait_step lt ss hash state Waiter w) = Done r \<and>
     (ws_phase w = Done r \<or> r = invoiceStates (ws_ch w) hash)"
  using no_lost_wakeup [OF assms(1)] assms(2)
  by (cases "ws_phase w") (auto simp: waiter_check_def Let_def)

text \<open>
  C17: the wait ends whatever the other goroutines do before the time is up, and the answer is
  positive exactly when the invoice has the wanted state as the call returns.
\<close>

theorem status_answer_is_current:
  "\<exists>ch'. VerifyInvoiceStatus lt ss (evs @ [Timer, Waiter]) hash state ch =
     (ch', Some (interpret_status state (invoiceStates ch' hash)))"
  using VerifyInvoiceStatus_ends by metis

text \<open>
  Once the node reports an invoice as settled, the payment of an L402 that the database knows
  is recognised: the invoice counts as settled and the rights hold from then on until the given
  duration after the settlement has passed.
\<close>

lemma settlement_starts_rights:
  assumes "lntypes_lib lt" and "secrets_ok opts env (ch_secrets ch)" and "settled_of (ch_secrets ch) h \<noteq> None"
    and "ch_reader ch = InRecv" and "length h = 32" and "RHash i = Some h" and "inv_State i = SETTLED"
  shows "let ch' = fst (reader_recv lt (secrets_store_ops opts env rnd created) now rdy (RecvInvoice i) ch) in
     invoiceStates ch' h = Some SETTLED \<and>
     (snd (VerifyRightsWithinExpiry (secrets_store_ops opts env rnd created) later h d ch') = Inr () \<longleftrightarrow>
        \<not> time_before (time_add (time_Unix (SettleDate i) 0) d) later)"
proof -
  let ?ss = "secrets_store_ops opts env rnd created"
  obtain ch' b where r: "reader_recv lt ?ss now rdy (RecvInvoice i) ch = (ch', b)" by fastforce
  from secrets_db.settled_received [OF assms(1,2,4-7) r] assms(3)
  have "invoiceStates ch' h = Some SETTLED" "settled_of (ch_secrets ch') h = Some (Some (time_Unix (SettleDate i) 0))"
    by auto
  moreover have "secrets_ok opts env (ch_secrets ch')"
    using secrets_db.reader_recv_secrets [OF assms(2), of lt rnd created now rdy "RecvInvoice i"] r by simp
  ultimately show ?thesis using secrets_db.rights_iff [of opts env ch' rnd created later h d] by (simp add: r)
qed

lemma reader_recv_rows:
  assumes "sole_writer env" and "\<forall>r \<in> set (ch_secrets ch). P r"
    and "\<And>i h row t. r = RecvInvoice i \<Longrightarrow> RHash i = Some h \<Longrightarrow> inv_State i = SETTLED \<Longrightarrow> P row \<Longrightarrow> sr_payment_hash row = h \<Longrightarrow>
      P (row\<lparr>sr_settled_at := t\<rparr>)"
    and "lntypes_lib lt"
  shows "\<forall>row \<in> set (ch_secrets (fst (reader_recv lt (secrets_store_ops opts env rnd now') now rdy r ch))). P row"
proof -
  have "\<forall>row \<in> set (ch_secrets (track_invoice (secrets_store_ops opts env rnd now') now h i ch)). P row"
    if "r = RecvInvoice i" "RHash i = Some h" for i h
    using assms(2) SetSettledAt_rows [where P = P and h = h, OF assms(1,2)] assms(3) [OF that]
    by (auto simp: track_invoice_def Let_def)
  note track = this
  have hash: "lnt_MakeHash lt b = Inr h \<Longrightarrow> h = b" for b h using assms(4) by (auto simp: lntypes_lib_def)
  show ?thesis using assms(2) track
    by (auto simp: reader_recv_def signal_error_def split: recv.splits option.splits sum.splits dest!: hash)
qed

subsection \<open>A settlement that was missed\<close>

text \<open>
  The life of the challenger after an invoice of hash \<open>h\<close> was settled while it was not running:
  starts and restarts, polls and receives of the reader, stops, and the mint's writes, over a
  database with any faults but no other writer. \<open>i\<close> is the invoice as the node has it from then
  on. The node lists it, and reports it with this state and these indices; it delivers an
  invoice to a subscription only if its add index or its settle index is past the index of the
  subscription, as documented for \<^verbatim>\<open>SubscribeInvoices\<close>.
\<close>

definition reported_as :: "bytes \<Rightarrow> lnrpc_Invoice \<Rightarrow> lnrpc_Invoice \<Rightarrow> bool" where
  "reported_as h i j \<longleftrightarrow> (RHash j = Some h \<longrightarrow>
     inv_State j = inv_State i \<and> AddIndex j = AddIndex i \<and> SettleIndex j = SettleIndex i)"

definition unsettled_rows :: "bytes \<Rightarrow> secrets_table \<Rightarrow> bool" where
  "unsettled_rows h tbl \<longleftrightarrow> (\<forall>r \<in> set tbl. sr_payment_hash r = h \<longrightarrow> sr_settled_at r = None)"

inductive missed_run :: "lntypes_ops \<Rightarrow> txExecutorOptions \<Rightarrow> bytes \<Rightarrow> lnrpc_Invoice \<Rightarrow> secrets_table LnproxyChallenger \<Rightarrow> 64 word \<Rightarrow> 64 word \<Rightarrow> bool"
  for lt opts h i where
  started: "unsettled_rows h tbl \<Longrightarrow> NewLnproxyChallenger True lt now (Inr listed) subscribe tbl = Inr ch \<Longrightarrow>
    start_loop lt now listed (0, 0, Map.empty) = Inr (a, s, m) \<Longrightarrow> i \<in> set listed \<Longrightarrow> \<forall>j \<in> set listed. reported_as h i j \<Longrightarrow>
    missed_run lt opts h i ch a s"
| restarted: "missed_run lt opts h i ch a s \<Longrightarrow> NewLnproxyChallenger True lt now (Inr listed) subscribe (ch_secrets ch) = Inr ch' \<Longrightarrow>
    start_loop lt now listed (0, 0, Map.empty) = Inr (a', s', m) \<Longrightarrow> i \<in> set listed \<Longrightarrow> \<forall>j \<in> set listed. reported_as h i j \<Longrightarrow>
    missed_run lt opts h i ch' a' s'"
| polled: "missed_run lt opts h i ch a s \<Longrightarrow> missed_run lt opts h i (reader_poll ch) a s"
| received: "missed_run lt opts h i ch a s \<Longrightarrow> sole_writer env \<Longrightarrow>
    \<forall>j. r = RecvInvoice j \<longrightarrow> reported_as h i j \<and> (a < AddIndex j \<or> s < SettleIndex j) \<Longrightarrow>
    missed_run lt opts h i (fst (reader_recv lt (secrets_store_ops opts env rnd created) now rdy r ch)) a s"
| stopped: "missed_run lt opts h i ch a s \<Longrightarrow> missed_run lt opts h i (Challenger_Stop ch) a s"
| minted: "missed_run lt opts h i ch a s \<Longrightarrow> sole_writer env \<Longrightarrow>
    missed_run lt opts h i (ch\<lparr>ch_secrets := fst (ss_NewSecret (secrets_store_ops opts env rnd created) idHash p (ch_secrets ch))\<rparr>) a s"
| revoked: "missed_run lt opts h i ch a s \<Longrightarrow> sole_writer env \<Longrightarrow>
    missed_run lt opts h i (ch\<lparr>ch_secrets := fst (ss_RevokeSecret (secrets_store_ops opts env rnd created) idHash (ch_secrets ch))\<rparr>) a s"

definition missed_inv :: "bytes \<Rightarrow> lnrpc_Invoice \<Rightarrow> secrets_table LnproxyChallenger \<Rightarrow> 64 word \<Rightarrow> 64 word \<Rightarrow> bool" where
  "missed_inv h i ch a s \<longleftrightarrow> unsettled_rows h (ch_secrets ch) \<and> invoiceStates ch h = Some SETTLED \<and> AddIndex i \<le> a \<and> SettleIndex i \<le> s"

lemma missed_inv_started:
  assumes "lntypes_lib lt" and "RHash i = Some h" and "inv_State i = SETTLED"
    and "unsettled_rows h tbl" and "NewLnproxyChallenger True lt now (Inr listed) subscribe tbl = Inr ch"
    and l: "start_loop lt now listed (0, 0, Map.empty) = Inr (a, s, m)" and "i \<in> set listed" and "\<forall>j \<in> set listed. reported_as h i j"
  shows "missed_inv h i ch a s"
proof -
  have ch: "invoiceStates ch = m" "ch_secrets ch = tbl"
    using assms(5) l by (auto simp: NewLnproxyChallenger_def Challenger_Start_def Let_def split: sum.splits)
  let ?P = "\<lambda>j. RHash j = Some h \<and> \<not> invoiceIrrelevant now (Some j)"
  have "?P i" using assms(2,3) by (simp add: invoiceIrrelevant_def)
  then obtain j where j: "List.find ?P (rev listed) = Some j"
    using assms(7) by (cases "List.find ?P (rev listed)") (auto simp: find_None_iff)
  from find_SomeD [OF j] have "j \<in> set listed" "RHash j = Some h" by simp_all
  then have "inv_State j = SETTLED" using assms(3,8) by (auto simp: reported_as_def)
  then have "m h = Some SETTLED" using start_loop_states [OF assms(1) l, of h] j by (simp add: tracked_def)
  then show ?thesis using start_loop_indices [OF l] assms(2,4,7) by (simp add: missed_inv_def ch)
qed

lemma missed_run_inv:
  assumes "missed_run lt opts h i ch a s" and "lntypes_lib lt" and "RHash i = Some h" and "inv_State i = SETTLED"
  shows "missed_inv h i ch a s"
  using assms(1)
proof induction
  case (started tbl now listed subscribe ch a s m)
  then show ?case using missed_inv_started [OF assms(2-4)] by blast
next
  case (restarted ch a s now listed subscribe ch' a' s' m)
  have "unsettled_rows h (ch_secrets ch)" using restarted.IH by (simp add: missed_inv_def)
  with restarted.hyps(2-5) show ?case using missed_inv_started [OF assms(2-4)] by blast
next
  case (received ch a s env r rnd created now rdy)
  have other: "RHash j \<noteq> Some h" if "r = RecvInvoice j" for j
    using received.hyps(3) received.IH that by (auto simp: missed_inv_def reported_as_def)
  have "\<forall>row \<in> set (ch_secrets (fst (reader_recv lt (secrets_store_ops opts env rnd created) now rdy r ch))).
      sr_payment_hash row = h \<longrightarrow> sr_settled_at row = None"
    by (rule reader_recv_rows [OF received.hyps(2) _ _ assms(2)])
      (use received.IH other in \<open>auto simp: missed_inv_def unsettled_rows_def\<close>)
  moreover have "invoiceStates (fst (reader_recv lt (secrets_store_ops opts env rnd created) now rdy r ch)) h = invoiceStates ch h"
    using other assms(2)
    by (auto simp: reader_recv_def signal_error_def track_invoice_def Let_def lntypes_lib_def split: recv.splits option.splits sum.splits)
  ultimately show ?case using received.IH by (simp add: missed_inv_def unsettled_rows_def)
next
  case (minted ch a s env rnd created idHash p)
  have "\<forall>row \<in> set (fst (ss_NewSecret (secrets_store_ops opts env rnd created) idHash p (ch_secrets ch))).
      sr_payment_hash row = h \<longrightarrow> sr_settled_at row = None"
    by (rule NewSecret_rows [OF minted.hyps(2)]) (use minted.IH in \<open>auto simp: missed_inv_def unsettled_rows_def\<close>)
  with minted.IH show ?case by (simp add: missed_inv_def unsettled_rows_def)
next
  case (revoked ch a s env rnd created idHash)
  have "\<forall>row \<in> set (fst (ss_RevokeSecret (secrets_store_ops opts env rnd created) idHash (ch_secrets ch))).
      sr_payment_hash row = h \<longrightarrow> sr_settled_at row = None"
    by (rule RevokeSecret_rows [OF revoked.hyps(2)]) (use revoked.IH in \<open>auto simp: missed_inv_def unsettled_rows_def\<close>)
  with revoked.IH show ?case by (simp add: missed_inv_def unsettled_rows_def)
qed (simp_all add: missed_inv_def reader_poll_def Challenger_Stop_def)

lemma unsettled_refused:
  assumes "sole_writer env" and "unsettled_rows h (ch_secrets ch)"
  shows "\<not> is_ok (snd (VerifyRightsWithinExpiry (secrets_store_ops opts env rnd created) later h d ch))"
proof -
  obtain t q where e: "ExecTx opts True env (get_settled_body h) (ch_secrets ch) = (t, q)" by force
  from assms(1) e have "q = Inr x \<Longrightarrow> x = None" for x
    by (cases rule: ExecTx_sole)
      (use assms(2) in \<open>auto simp: unsettled_rows_def get_settled_body_def GetSettledAtByPaymentHash_q_def
        split: option.splits if_splits dest!: find_SomeD\<close>)
  with e show ?thesis
    by (auto simp: VerifyRightsWithinExpiry_def secrets_store_ops_def GetSettledAtByPaymentHash_def split: sum.splits option.splits)
qed

text \<open>
  C0: an invoice that was settled while the challenger was not running is never honoured. From
  the start after it on, through any further restarts, updates of the node's subscription, and
  mints, over a database with any faults, the invoice is known as settled, yet the check of the
  rights refuses the paid L402 at any time and for any duration: the start does not record the
  settlement time, and every subscription begins after it.
\<close>

theorem settled_while_down_refused:
  assumes "lntypes_lib lt" and "RHash i = Some h" and "inv_State i = SETTLED"
    and "missed_run lt opts h i ch a s" and "sole_writer env"
  shows "invoiceStates ch h = Some SETTLED \<and>
     \<not> is_ok (snd (VerifyRightsWithinExpiry (secrets_store_ops opts env rnd created) later h d ch))"
  using missed_run_inv [OF assms(4,1-3)] unsettled_refused [OF assms(5)] by (simp add: missed_inv_def)

subsection \<open>A concrete challenger\<close>

definition sample_lnurl_env :: lnurl_env where
  "sample_lnurl_env = \<lparr>
     le_Get = (\<lambda>u. Inr (200, Inr \<lparr>lr_Status = ''OK'', lr_Tag = ''payRequest'', lr_Comment = 0, lr_Callback = ''cb'',
        lr_Metadata = [], lr_MinSendable = 1, lr_MaxSendable = 1000000,
        lr_PayerData = \<lparr>pd_Name_Mandatory = False, pd_Email_Mandatory = False, pd_Pubkey_Mandatory = False\<rparr>,
        lr_NostrPubkey = [], lr_AllowsNostr = False\<rparr>)),
     le_GetCallback = (\<lambda>u. Inr (200, Inr \<lparr>lc_Status = ''OK'', lc_SuccessAction_Tag = [], lc_SuccessAction_Message = [],
        lc_Verify = [], lc_Routes = [], lc_Pr = ''lnbc1'', lc_Reason = []\<rparr>)),
     le_SetQuery = (\<lambda>u k v. Inr (u @ ''?'' @ k @ ''='' @ v)) \<rparr>"

definition sample_challenge_env :: challenge_env where
  "sample_challenge_env = \<lparr> nc_Dotenv = Inr (), nc_lnurl = sample_lnurl_env, nc_Marshal = (\<lambda>p. Inr (pp_Invoice p)),
     nc_LnproxyUrl = Inr ''relay'', nc_SpecUrl = (\<lambda>u. Inr (u @ ''/spec'')), nc_Post = (\<lambda>u b. Inr (Inr (''wrapped-'' @ b))),
     nc_Reason = Inr, nc_ProxyInvoice = Inr, nc_Decode = (\<lambda>i. Inr (Some sample_hash)) \<rparr>"

lemma sample_challenge: "NewChallenge sample_challenge_env ''u@d'' 7 = Inr (''wrapped-lnbc1'', sample_hash)"
proof -
  have "GetInvoice sample_lnurl_env lu 7 = Inr ''lnbc1''" for lu
    unfolding GetInvoice_def by (simp add: sample_lnurl_env_def cong del: rbind_cong)
  moreover have "\<exists>lu. NewLnurl ''u@d'' = Inr lu" by (simp add: NewLnurl_def)
  ultimately have "getCreatorInvoice sample_challenge_env ''u@d'' 7 = Inr ''lnbc1''"
    by (auto simp: getCreatorInvoice_ok sample_challenge_env_def)
  moreover have "\<not> contains ''wrapped-lnbc1'' ''ERROR''" by (simp add: has_prefix_def)
  ultimately show ?thesis
    by (simp add: NewChallenge_ok requestWrappedInvoice_ok sample_challenge_env_def)
qed

theorem challenge_is_wrapped_invoice_witness:
  "\<exists>relay. nc_ProxyInvoice sample_challenge_env relay = Inr ''wrapped-lnbc1'' \<and> \<not> contains relay ''ERROR'' \<and>
     nc_Decode sample_challenge_env ''wrapped-lnbc1'' = Inr (Some sample_hash)"
  using challenge_is_wrapped_invoice [OF sample_challenge] by auto

definition sample_invoice :: lnrpc_Invoice where
  "sample_invoice = \<lparr>RHash = Some sample_hash, inv_State = SETTLED, CreationDate = 5, Expiry = 60, SettleDate = 7,
     AddIndex = 1, SettleIndex = 1\<rparr>"

definition sample_challenger_state :: "secrets_table LnproxyChallenger" where
  "sample_challenger_state = \<lparr>invoiceStates = [sample_hash \<mapsto> SETTLED], ch_secrets = sample_tbl, ch_reader = AtSelect,
     ch_quit = False, ch_errors = []\<rparr>"

lemma sample_started:
  "NewLnproxyChallenger True sample_hash_ops (0, 0) (Inr [sample_invoice]) (\<lambda>a s. Inr ()) sample_tbl
     = Inr sample_challenger_state"
  by (simp add: NewLnproxyChallenger_def Challenger_Start_def sample_invoice_def sample_hash_ops_def sample_lntypes_ops_def
      sample_hash_def invoiceIrrelevant_def sample_challenger_state_def)

lemma sample_hash_lib: "lntypes_lib sample_hash_ops"
  by (simp add: sample_hash_ops_def sample_lntypes_lib)

lemma sample_settled_of: "settled_of sample_tbl sample_hash = Some None"
  by (simp add: settled_of_def sample_tbl_def)

theorem challenger_start_tracks_witness:
  "invoiceStates sample_challenger_state sample_hash = Some SETTLED \<and> invoiceStates sample_challenger_state [] = None"
  using challenger_start_tracks [OF sample_hash_lib sample_started]
  by (simp add: sample_invoice_def invoiceIrrelevant_def sample_hash_def)

text \<open>Two invoices are listed; after the start the other one is settled too and its settlement
  received. The missed one stays refused.\<close>

definition sample_other_invoice :: lnrpc_Invoice where
  "sample_other_invoice = \<lparr>RHash = Some (replicate 32 (CHR ''o'')), inv_State = OPEN, CreationDate = 5, Expiry = 60, SettleDate = 0,
     AddIndex = 2, SettleIndex = 0\<rparr>"

theorem settled_while_down_refused_witness:
  "\<exists>ch. NewLnproxyChallenger True sample_hash_ops (0, 0) (Inr [sample_invoice, sample_other_invoice]) (\<lambda>a s. Inr ()) sample_tbl = Inr ch \<and>
     \<not> is_ok (snd (VerifyRightsWithinExpiry sample_secrets (0, 0) sample_hash (seconds 3600)
       (fst (reader_recv sample_hash_ops sample_secrets (0, 0) True
          (RecvInvoice (sample_other_invoice\<lparr>inv_State := SETTLED, SettleIndex := 2\<rparr>)) (reader_poll ch)))))"
proof -
  let ?j = "sample_other_invoice\<lparr>inv_State := SETTLED, SettleIndex := 2\<rparr>"
  obtain m where l: "start_loop sample_hash_ops (0, 0) [sample_invoice, sample_other_invoice] (0, 0, Map.empty) = Inr (2, 1, m)"
    by (cases "time_before (time_add (time_Unix 5 0) (seconds 60)) (0, 0)")
      (simp_all add: sample_invoice_def sample_other_invoice_def sample_hash_ops_def sample_lntypes_ops_def sample_hash_def
        invoiceIrrelevant_def Let_def)
  then obtain ch where n: "NewLnproxyChallenger True sample_hash_ops (0, 0) (Inr [sample_invoice, sample_other_invoice]) (\<lambda>a s. Inr ()) sample_tbl = Inr ch"
    by (simp add: NewLnproxyChallenger_def Challenger_Start_def)
  have u: "unsettled_rows sample_hash sample_tbl" by (simp add: unsettled_rows_def sample_tbl_def)
  have rep: "reported_as sample_hash sample_invoice sample_invoice" "reported_as sample_hash sample_invoice sample_other_invoice"
    "reported_as sample_hash sample_invoice ?j"
    by (simp_all add: reported_as_def sample_invoice_def sample_other_invoice_def sample_hash_def)
  have sole: "sole_writer sample_tx_env" by (simp add: sole_writer_def sample_tx_env_def)
  have "missed_run sample_hash_ops defaultTxExecutorOptions sample_hash sample_invoice ch 2 1"
    using rep by (intro missed_run.started [OF u n l]) auto
  then have "missed_run sample_hash_ops defaultTxExecutorOptions sample_hash sample_invoice
      (fst (reader_recv sample_hash_ops sample_secrets (0, 0) True (RecvInvoice ?j) (reader_poll ch))) 2 1"
    unfolding sample_secrets_def using rep(3)
    by (intro missed_run.received missed_run.polled sole) (auto simp: sample_other_invoice_def)
  from settled_while_down_refused [OF sample_hash_lib _ _ this sole] n show ?thesis
    by (auto simp: sample_invoice_def sample_secrets_def)
qed

lemma settlement_starts_rights_example:
  "snd (VerifyRightsWithinExpiry sample_secrets (time_Unix 3600 0) sample_hash (seconds 3600)
     (fst (reader_recv sample_hash_ops sample_secrets (0, 0) True (RecvInvoice sample_invoice)
        (sample_challenger_state\<lparr>ch_reader := InRecv\<rparr>)))) = Inr () \<and>
   snd (VerifyRightsWithinExpiry sample_secrets (time_Unix 3608 0) sample_hash (seconds 3600)
     (fst (reader_recv sample_hash_ops sample_secrets (0, 0) True (RecvInvoice sample_invoice)
        (sample_challenger_state\<lparr>ch_reader := InRecv\<rparr>)))) \<noteq> Inr ()"
proof -
  note ssr = settlement_starts_rights [OF sample_hash_lib, of defaultTxExecutorOptions sample_tx_env
      "sample_challenger_state\<lparr>ch_reader := InRecv\<rparr>" sample_hash sample_invoice "Inr ''k''" "(0, 0)" "(0, 0)" True _ "seconds 3600"]
  have h: "time_add (time_Unix (SettleDate sample_invoice) 0) (seconds 3600) = time_Unix 3607 0"
    by (simp add: sample_invoice_def time_Unix_def time_add_def sat_add_def wrap64_def seconds_def unix_to_internal_def)
  have "time_before (time_Unix 3607 0) (time_Unix 3608 0)" "\<not> time_before (time_Unix 3607 0) (time_Unix 3600 0)"
    by (simp_all add: time_Unix_def time_before_def wrap64_def unix_to_internal_def)
  then show ?thesis
    using ssr [of "time_Unix 3600 0"] ssr [of "time_Unix 3608 0"] sample_tbl_ok sample_settled_of h
    by (simp add: sample_secrets_def sample_challenger_state_def sample_invoice_def sample_hash_def Let_def)
qed

text \<open>A waiter that went to sleep before the invoice was known, woken by the reader.\<close>

theorem waiting_request_answered_witness:
  "let ch = sample_challenger_state\<lparr>invoiceStates := Map.empty, ch_reader := InRecv\<rparr>;
       asleep = wait_step sample_hash_ops sample_secrets sample_hash SETTLED Waiter (wait_init ch);
       woken = wait_step sample_hash_ops sample_secrets sample_hash SETTLED (ReaderRecv (0, 0) True (RecvInvoice sample_invoice)) asleep
   in ws_phase asleep = Sleeping \<and>
      ws_phase (wait_step sample_hash_ops sample_secrets sample_hash SETTLED Waiter woken) = Done (Some SETTLED)"
proof -
  let ?step = "wait_step sample_hash_ops sample_secrets sample_hash SETTLED"
  let ?ch = "sample_challenger_state\<lparr>invoiceStates := Map.empty, ch_reader := InRecv\<rparr>"
  let ?a = "?step Waiter (wait_init ?ch)"
  let ?w = "?step (ReaderRecv (0, 0) True (RecvInvoice sample_invoice)) ?a"
  have a: "?a = \<lparr>ws_ch = ?ch, ws_phase = Sleeping, ws_timeoutReached = False\<rparr>"
    by (simp add: wait_init_def waiter_check_def)
  have s: "invoiceStates (ws_ch ?w) sample_hash = Some SETTLED" and p: "ws_phase ?w = Checking"
    unfolding a by (simp_all add: reader_recv_def sample_challenger_state_def sample_invoice_def sample_hash_ops_def sample_lntypes_ops_def
        sample_hash_def track_invoice_def invoiceIrrelevant_def broadcast_def Let_def)
  have "wait_reach sample_hash_ops sample_secrets sample_hash SETTLED ?ch ?w" by (intro wait_next wait_start)
  from waiting_request_answered [OF this] s p have "ws_phase (?step Waiter ?w) = Done (Some SETTLED)"
    by (metis waiter_phase.distinct(3))
  moreover have "ws_phase ?a = Sleeping" unfolding a by simp
  ultimately show ?thesis unfolding Let_def by blast
qed

end
