(* ===== verification/Authenticator.thy ===== *)
theory Authenticator
  imports Challenger
begin

text \<open>
  \<^verbatim>\<open>aperture/auth\<close>: the authenticator in front of the backends, over the interfaces it is given, the
  minter (\<open>minter_ops\<close>) and the invoice checker (\<open>checker_ops\<close>). The interface the proxy uses is
  the record \<open>auth_ops\<close> with the contract \<open>authenticator\<close>; it is interpreted by the L402
  authenticator over the mint, the challenger and the secrets database, and by the mock.
\<close>

subsection \<open>Interfaces\<close>

record ('m, 'w) minter_ops =
  mn_MintL402 :: "Service list \<Rightarrow> 'w \<Rightarrow> 'w \<times> ('m \<times> string) result"
  mn_VerifyL402 :: "'m VerificationParams \<Rightarrow> 'w \<Rightarrow> 'w \<times> unit result"

text \<open>\<open>au_Fresh\<close> also returns the header map of the request, which the call changes.\<close>

record 'w auth_ops =
  au_Accept :: "http_header \<Rightarrow> string \<Rightarrow> 'w \<Rightarrow> 'w \<times> bool"
  au_FreshChallengeHeader :: "http_header \<Rightarrow> string \<Rightarrow> string \<Rightarrow> int \<Rightarrow> 'w \<Rightarrow> 'w \<times> http_header \<times> http_header result"

subsection \<open>The L402 authenticator\<close>

definition L402RightExpiryDuration :: int where
  "L402RightExpiryDuration = 3600 * 1000000000"

definition DefaultInvoiceLookupTimeout :: int where
  "DefaultInvoiceLookupTimeout = 3 * 1000000000"

definition Accept ::
    "'m macaroon_ops \<Rightarrow> lntypes_ops \<Rightarrow> ('m, 'w) minter_ops \<Rightarrow> 'w checker_ops \<Rightarrow> http_header \<Rightarrow> string \<Rightarrow> 'w \<Rightarrow> 'w \<times> bool" where
  "Accept mo lt mn chk header serviceName w =
     (case FromHeader mo lt header of
        Inl e \<Rightarrow> (w, False)
      | Inr (mac, preimage) \<Rightarrow>
     (case mn_VerifyL402 mn \<lparr>vp_Macaroon = mac, vp_Preimage = preimage, vp_TargetService = serviceName\<rparr> w of
        (w1, Inl e) \<Rightarrow> (w1, False)
      | (w1, Inr _) \<Rightarrow>
     (case chk_VerifyInvoiceStatus chk (lnt_PreimageHash lt preimage) SETTLED DefaultInvoiceLookupTimeout w1 of
        (w2, Inl e) \<Rightarrow> (w2, False)
      | (w2, Inr _) \<Rightarrow>
     (case chk_VerifyRightsWithinExpiry chk (lnt_PreimageHash lt preimage) L402RightExpiryDuration w2 of
        (w3, Inl e) \<Rightarrow> (w3, False)
      | (w3, Inr _) \<Rightarrow> (w3, True)))))"

definition WWW_Authenticate :: string where "WWW_Authenticate = ''WWW-Authenticate''"

definition challenge_text :: "bytes \<Rightarrow> string \<Rightarrow> string" where
  "challenge_text macBytes paymentRequest =
     ''L402 macaroon='' @ [CHR 0x22] @ b64_encode macBytes @ [CHR 0x22] @ '', invoice='' @ [CHR 0x22] @ paymentRequest @ [CHR 0x22]"

text \<open>
  A failed \<^verbatim>\<open>MarshalBinary\<close> is only logged and leaves no bytes. The header is the request's own
  map, changed in place.
\<close>

definition FreshChallengeHeader ::
    "'m macaroon_ops \<Rightarrow> ('m, 'w) minter_ops \<Rightarrow> http_header \<Rightarrow> string \<Rightarrow> string \<Rightarrow> int \<Rightarrow> 'w
       \<Rightarrow> 'w \<times> http_header \<times> http_header result" where
  "FreshChallengeHeader mo mn rHeader serviceName serviceRecipientLud16 servicePrice w =
     (case mn_MintL402 mn [\<lparr>Name = serviceName, Tier = BaseTier, RecipientLud16 = serviceRecipientLud16, Price = servicePrice\<rparr>] w of
        (w', Inl e) \<Rightarrow> (w', rHeader, Inl e)
      | (w', Inr (mac, paymentRequest)) \<Rightarrow>
          let macBytes = (case mac_MarshalBinary mo mac of Inl e \<Rightarrow> [] | Inr b \<Rightarrow> b);
              header = header_Set rHeader WWW_Authenticate (challenge_text macBytes paymentRequest)
          in (w', header, Inr header))"

definition lsat_auth_ops :: "'m macaroon_ops \<Rightarrow> lntypes_ops \<Rightarrow> ('m, 'w) minter_ops \<Rightarrow> 'w checker_ops \<Rightarrow> 'w auth_ops" where
  "lsat_auth_ops mo lt mn chk = \<lparr>au_Accept = Accept mo lt mn chk, au_FreshChallengeHeader = FreshChallengeHeader mo mn\<rparr>"

subsection \<open>The mock\<close>

definition Mock_Accept :: "http_header \<Rightarrow> string \<Rightarrow> bool" where
  "Mock_Accept header serviceName =
     (if header_Get header ''Authorization'' \<noteq> [] then True
      else if header_Get header ''Grpc-Metadata-macaroon'' \<noteq> [] then True
      else if header_Get header ''Macaroon'' \<noteq> [] then True
      else False)"

definition mock_challenge :: string where
  "mock_challenge = ''L402 macaroon='' @ [CHR 0x22] @ ''AGIAJEemVQUTEyNCR0exk7ek9'' @ ''0Cg=='' @ [CHR 0x22] @ '', invoice='' @ [CHR 0x22] @
     ''lnbc1500n1pw5kjhmpp5fu6xhthlt2vucm'' @ ''zkx6c7wtlh2r625r30cyjsfqhu8rsx4xpz5lwqdpa2fjkzep6yptk'' @
     ''sct5yp5hxgrrv96hx6twvusycn3qv9jx7ur5d9hkugr5dusx6cqzp'' @ ''gxqr23s79ruapxc4j5uskt4htly2salw4drq979d7rcela9wz02el'' @
     ''hypmdzmzlnxuknpgfyfm86pntt8vvkvffma5qc9n50h4mvqhngadq'' @ ''y3ngqjcym5a'' @ [CHR 0x22]"

definition Mock_FreshChallengeHeader :: "http_header \<Rightarrow> http_header" where
  "Mock_FreshChallengeHeader rHeader = header_Set rHeader WWW_Authenticate mock_challenge"

definition mock_auth_ops :: "'w auth_ops" where
  "mock_auth_ops = \<lparr>
     au_Accept = (\<lambda>header serviceName w. (w, Mock_Accept header serviceName)),
     au_FreshChallengeHeader = (\<lambda>rHeader n l p w. (w, Mock_FreshChallengeHeader rHeader, Inr (Mock_FreshChallengeHeader rHeader))) \<rparr>"

subsection \<open>The contract\<close>

text \<open>
  What the proxy relies on: a request is accepted exactly when its header entitles it to the service
  in the state the check leaves behind, and a challenge is the request's header map with one header set.
\<close>

locale authenticator =
  fixes au :: "'w auth_ops"
    and good :: "'w \<Rightarrow> bool"
    and entitled :: "http_header \<Rightarrow> string \<Rightarrow> 'w \<Rightarrow> bool"
  assumes accept_spec: "good w \<Longrightarrow> au_Accept au h s w = (w', b) \<Longrightarrow> good w' \<and> (b \<longleftrightarrow> entitled h s w')"
    and fresh_spec: "good w \<Longrightarrow> au_FreshChallengeHeader au h s l p w = (w', h', r) \<Longrightarrow>
      good w' \<and> (case r of Inl e \<Rightarrow> h' = h | Inr c \<Rightarrow> c = h' \<and> (\<exists>v. h' = header_Set h WWW_Authenticate v))"

interpretation mock_auth: authenticator mock_auth_ops "\<lambda>w. True" "\<lambda>h s w. Mock_Accept h s"
  by unfold_locales (auto simp: mock_auth_ops_def Mock_FreshChallengeHeader_def)

text \<open>The mint as a minter over the challenger's state, which holds the secrets.\<close>

definition mint_minter ::
    "'m macaroon_ops \<Rightarrow> lntypes_ops \<Rightarrow> 's secret_ops \<Rightarrow> limiter_ops \<Rightarrow> challenge_env \<Rightarrow> bytes result
       \<Rightarrow> (string list \<Rightarrow> string list) \<Rightarrow> time \<Rightarrow> ('m, 's LnproxyChallenger) minter_ops" where
  "mint_minter mo lt ss lim cenv rnd range_order now = \<lparr>
     mn_MintL402 = (\<lambda>services ch.
        case MintL402 mo ss lim (challenger_NewChallenge cenv) rnd services (ch_secrets ch, ()) of
          ((s, _), r) \<Rightarrow> (ch\<lparr>ch_secrets := s\<rparr>, r)),
     mn_VerifyL402 = (\<lambda>params ch.
        case VerifyL402 mo lt ss range_order now params (ch_secrets ch) of (s, r) \<Rightarrow> (ch\<lparr>ch_secrets := s\<rparr>, r)) \<rparr>"

definition l402_entitled ::
    "'m macaroon_ops \<Rightarrow> lntypes_ops \<Rightarrow> secrets_table secret_ops \<Rightarrow> time \<Rightarrow> time \<Rightarrow> http_header \<Rightarrow> string
       \<Rightarrow> secrets_table LnproxyChallenger \<Rightarrow> bool" where
  "l402_entitled mo lt ss now later header serviceName ch \<longleftrightarrow>
     (\<exists>mac preimage. FromHeader mo lt header = Inr (mac, preimage) \<and>
        (\<exists>i secret raws. l402_checks mo lt ss now
           \<lparr>vp_Macaroon = mac, vp_Preimage = preimage, vp_TargetService = serviceName\<rparr> (ch_secrets ch) i secret raws) \<and>
        invoiceStates ch (lnt_PreimageHash lt preimage) = Some SETTLED \<and>
        (\<exists>t. settled_of (ch_secrets ch) (lnt_PreimageHash lt preimage) = Some (Some t) \<and>
             \<not> time_before (time_add t L402RightExpiryDuration) later))"

text \<open>The states the authenticator works in: a healthy database and any order of map iteration.\<close>

definition auth_ok :: "txExecutorOptions \<Rightarrow> secrets_table tx_env \<Rightarrow> (string list \<Rightarrow> string list) \<Rightarrow> secrets_table LnproxyChallenger \<Rightarrow> bool" where
  "auth_ok opts env range_order ch \<longleftrightarrow> secrets_ok opts env (ch_secrets ch) \<and> (\<forall>ks. set (range_order ks) = set ks)"

abbreviation db_auth where
  "db_auth mo lt opts env rnd created lim cenv tokenRnd range_order now later evs \<equiv>
     lsat_auth_ops mo lt
       (mint_minter mo lt (secrets_store_ops opts env rnd created) lim cenv tokenRnd range_order now)
       (challenger_checker lt (secrets_store_ops opts env rnd created) later evs)"

text \<open>The checks on the L402 itself depend on the secrets only.\<close>

lemma l402_checks_secrets:
  assumes "secrets_ok opts env s" and "secrets_ok opts env s'" and "secrets_of s' = secrets_of s"
  shows "l402_checks mo lt (secrets_store_ops opts env rnd created) now params s' i k raws =
     l402_checks mo lt (secrets_store_ops opts env rnd created) now params s i k raws"
  using assms secrets_db.get_spec [OF assms(1)] secrets_db.get_spec [OF assms(2)] by (simp add: l402_checks_def)

lemma mint_verify:
  assumes "auth_ok opts env range_order ch"
  obtains r where "mn_VerifyL402 (mint_minter mo lt (secrets_store_ops opts env rnd created) lim cenv tokenRnd range_order now) params ch
       = (ch, r)"
    and "r = Inr () \<longleftrightarrow> (\<exists>i k raws. l402_checks mo lt (secrets_store_ops opts env rnd created) now params (ch_secrets ch) i k raws)"
proof -
  let ?ss = "secrets_store_ops opts env rnd created"
  obtain s r where v: "VerifyL402 mo lt ?ss range_order now params (ch_secrets ch) = (s, r)" by fastforce
  have "s = ch_secrets ch"
    using VerifyL402_state [of mo lt ?ss range_order now params "ch_secrets ch"] assms secrets_db.get_spec [of opts env "ch_secrets ch"]
    by (simp add: v auth_ok_def split: if_splits)
  moreover have "r = Inr () \<longleftrightarrow> (\<exists>i k raws. l402_checks mo lt ?ss now params (ch_secrets ch) i k raws)"
    using VerifyL402_ok_iff [of range_order mo lt ?ss now params "ch_secrets ch"] assms by (simp add: v auth_ok_def)
  ultimately show ?thesis using v by (intro that [of r]) (simp_all add: mint_minter_def)
qed

lemma db_accept:
  assumes ok: "auth_ok opts env range_order ch"
    and acc: "Accept mo lt (mint_minter mo lt (secrets_store_ops opts env rnd created) lim cenv tokenRnd range_order now)
       (challenger_checker lt (secrets_store_ops opts env rnd created) later evs) header serviceName ch = (ch', b)"
  shows "auth_ok opts env range_order ch' \<and>
     (b \<longleftrightarrow> l402_entitled mo lt (secrets_store_ops opts env rnd created) now later header serviceName ch')"
proof (cases "FromHeader mo lt header")
  case (Inl e)
  with ok acc show ?thesis by (simp add: Accept_def l402_entitled_def)
next
  case (Inr mp)
  obtain mac p where mp: "mp = (mac, p)" by (cases mp)
  let ?ss = "secrets_store_ops opts env rnd created"
  let ?chk = "challenger_checker lt ?ss later evs"
  let ?params = "\<lparr>vp_Macaroon = mac, vp_Preimage = p, vp_TargetService = serviceName\<rparr>"
  let ?h = "lnt_PreimageHash lt p"
  obtain r where v: "mn_VerifyL402 (mint_minter mo lt ?ss lim cenv tokenRnd range_order now) ?params ch = (ch, r)"
    and r: "r = Inr () \<longleftrightarrow> (\<exists>i k raws. l402_checks mo lt ?ss now ?params (ch_secrets ch) i k raws)"
    by (rule mint_verify [OF ok])
  show ?thesis
  proof (cases r)
    case (Inl e)
    with v r acc ok \<open>FromHeader mo lt header = Inr mp\<close> show ?thesis by (auto simp: Accept_def mp l402_entitled_def)
  next
    case u: (Inr u)
    obtain c1 r1 where s1: "chk_VerifyInvoiceStatus ?chk ?h SETTLED DefaultInvoiceLookupTimeout ch = (c1, r1)" by fastforce
    obtain c2 r2 where s2: "chk_VerifyRightsWithinExpiry ?chk ?h L402RightExpiryDuration c1 = (c2, r2)" by fastforce
    have okc: "secrets_ok opts env (ch_secrets ch)" using ok by (simp add: auth_ok_def)
    from lnproxy_checker.status_spec [OF okc s1]
    have k1: "secrets_ok opts env (ch_secrets c1)" "secrets_of (ch_secrets c1) = secrets_of (ch_secrets ch)"
      "r1 = Inr () \<longleftrightarrow> invoiceStates c1 ?h = Some SETTLED" by auto
    from lnproxy_checker.rights_spec [OF k1(1) s2]
    have k2: "c2 = c1" "r2 = Inr () \<longleftrightarrow> (\<exists>t. settled_of (ch_secrets c1) ?h = Some (Some t) \<and>
        \<not> time_before (time_add t L402RightExpiryDuration) later)" by blast+
    have chks: "\<exists>i k raws. l402_checks mo lt ?ss now ?params (ch_secrets c1) i k raws"
      using r u unfolding l402_checks_secrets [OF okc k1(1,2)] by simp
    have out: "ch' = c1 \<and> (b \<longleftrightarrow> r1 = Inr () \<and> r2 = Inr ())"
      using acc by (cases r1; cases r2) (auto simp: Accept_def Inr mp v u s1 s2 k2(1))
    have ent: "l402_entitled mo lt ?ss now later header serviceName c1 \<longleftrightarrow>
        invoiceStates c1 ?h = Some SETTLED \<and> (\<exists>t. settled_of (ch_secrets c1) ?h = Some (Some t) \<and>
          \<not> time_before (time_add t L402RightExpiryDuration) later)"
      unfolding l402_entitled_def Inr mp using chks by auto
    have "auth_ok opts env range_order c1" using ok k1(1) by (simp add: auth_ok_def)
    with out ent k1(3) k2(2) show ?thesis by blast
  qed
qed

lemma db_fresh:
  assumes ok: "auth_ok opts env range_order ch"
    and f: "FreshChallengeHeader mo (mint_minter mo lt (secrets_store_ops opts env rnd created) (static_limiter_ops l) cenv
       tokenRnd range_order now) header n lud p ch = (ch', h', r)"
  shows "auth_ok opts env range_order ch' \<and>
     (case r of Inl e \<Rightarrow> h' = header | Inr c \<Rightarrow> c = h' \<and> (\<exists>v. h' = header_Set header WWW_Authenticate v))"
proof -
  let ?svc = "\<lparr>Name = n, Tier = BaseTier, RecipientLud16 = lud, Price = p\<rparr>"
  obtain s c q where m: "MintL402 mo (secrets_store_ops opts env rnd created) (static_limiter_ops l)
      (challenger_NewChallenge cenv) tokenRnd [?svc] (ch_secrets ch, ()) = ((s, c), q)" by (metis prod.collapse)
  have so: "secrets_ok opts env (ch_secrets ch)" using ok by (simp add: auth_ok_def)
  have "secrets_ok opts env s"
  proof (cases q)
    case (Inl e)
    from db_minter.MintL402_error [OF so m [unfolded Inl]] show ?thesis by blast
  next
    case (Inr x)
    with m obtain h i k where "ss_NewSecret (secrets_store_ops opts env rnd created) (sha256 i) h (ch_secrets ch) = (s, Inr k)"
      by (auto simp: MintL402_def Let_def split: prod.splits sum.splits)
    with secrets_db.new_spec [OF so] show ?thesis by blast
  qed
  moreover have "ch' = ch\<lparr>ch_secrets := s\<rparr>"
    and "case r of Inl e \<Rightarrow> h' = header | Inr c \<Rightarrow> c = h' \<and> (\<exists>v. h' = header_Set header WWW_Authenticate v)"
    using f m by (auto simp: FreshChallengeHeader_def mint_minter_def Let_def split: sum.splits prod.splits)
  ultimately show ?thesis using ok by (simp add: auth_ok_def)
qed

interpretation db_authenticator: authenticator
    "db_auth mo lt opts env rnd created (static_limiter_ops l) cenv tokenRnd range_order now later evs"
    "auth_ok opts env range_order"
    "l402_entitled mo lt (secrets_store_ops opts env rnd created) now later"
proof
  fix w h s w' b
  assume ok: "auth_ok opts env range_order w"
    and "au_Accept (db_auth mo lt opts env rnd created (static_limiter_ops l) cenv tokenRnd range_order now later evs) h s w = (w', b)"
  then show "auth_ok opts env range_order w' \<and>
      b = l402_entitled mo lt (secrets_store_ops opts env rnd created) now later h s w'"
    unfolding lsat_auth_ops_def auth_ops.simps by (rule db_accept)
next
  fix w h s n p w' h' r
  assume ok: "auth_ok opts env range_order w"
    and "au_FreshChallengeHeader (db_auth mo lt opts env rnd created (static_limiter_ops l) cenv tokenRnd range_order now later evs)
       h s n p w = (w', h', r)"
  then show "auth_ok opts env range_order w' \<and>
      (case r of Inl e \<Rightarrow> h' = h | Inr c \<Rightarrow> c = h' \<and> (\<exists>v. h' = header_Set h WWW_Authenticate v))"
    unfolding lsat_auth_ops_def auth_ops.simps by (rule db_fresh)
qed

subsection \<open>Properties of the authenticator\<close>

text \<open>
  C3: the L402 authenticator lets a request through exactly when, as the check ends, the header
  carries a macaroon and a preimage such that the macaroon's identifier is bound to the hash of the
  preimage, the macaroon verifies with the secret stored for that identifier, its caveats hold for
  the service, the node has the invoice as settled, and its settlement is recorded and at most an
  hour old. Whatever the header is, nothing else gets through.
\<close>

theorem accept_iff_paid:
  assumes "secrets_ok opts env (ch_secrets ch)" and "\<And>ks. set (range_order ks) = set ks"
    and "ss = secrets_store_ops opts env rnd created"
    and "Accept mo lt (mint_minter mo lt ss lim cenv tokenRnd range_order now) (challenger_checker lt ss later evs)
           header serviceName ch = (ch', b)"
  shows "b \<longleftrightarrow> (\<exists>mac p i secret raws t. FromHeader mo lt header = Inr (mac, p) \<and>
     DecodeIdentifier (mac_Id mo mac) = Inr i \<and> PaymentHash i = lnt_PreimageHash lt p \<and>
     secrets_of (ch_secrets ch') (sha256 (mac_Id mo mac)) = Some secret \<and> mac_VerifySignature mo mac secret = Inr raws \<and>
     VerifyCaveats range_order (decodeCaveats raws) [NewServicesSatisfier serviceName, NewTimeoutSatisfier serviceName now] = Inr () \<and>
     invoiceStates ch' (lnt_PreimageHash lt p) = Some SETTLED \<and>
     settled_of (ch_secrets ch') (lnt_PreimageHash lt p) = Some (Some t) \<and>
     \<not> time_before (time_add t (seconds 3600)) later)"
proof -
  have ok: "auth_ok opts env range_order ch" using assms(1,2) by (simp add: auth_ok_def)
  from db_accept [OF ok assms(4) [unfolded assms(3)]]
  have b: "b \<longleftrightarrow> l402_entitled mo lt ss now later header serviceName ch'" and ok': "secrets_ok opts env (ch_secrets ch')"
    by (auto simp: auth_ok_def assms(3))
  have g: "snd (ss_GetSecret ss k (ch_secrets ch')) = Inr x \<longleftrightarrow> secrets_of (ch_secrets ch') k = Some x" for k x
    using secrets_db.get_spec [OF ok', of rnd created k] by (auto simp: assms(3) split: option.splits)
  have hour: "L402RightExpiryDuration = seconds 3600"
    by (simp add: L402RightExpiryDuration_def seconds_def wrap64_def)
  show ?thesis
    unfolding b l402_entitled_def l402_checks_def VerifyCaveats_mint [OF assms(2)] g hour by auto
qed

subsection \<open>A concrete request\<close>

text \<open>When nothing happens during the wait, the check leaves the state as it was.\<close>

lemma quiet_status:
  "chk_VerifyInvoiceStatus (challenger_checker lt ss now []) h st d ch = (ch, interpret_status st (invoiceStates ch h))"
  by (simp add: challenger_checker_def VerifyInvoiceStatus_def wait_init_def broadcast_def waiter_check_def)

lemma quiet_accept:
  assumes "auth_ok opts env range_order ch"
  shows "fst (Accept mo lt (mint_minter mo lt (secrets_store_ops opts env rnd created) lim cenv tokenRnd range_order now)
     (challenger_checker lt (secrets_store_ops opts env rnd created) later []) header serviceName ch) = ch"
proof -
  have v: "fst (mn_VerifyL402 (mint_minter mo lt (secrets_store_ops opts env rnd created) lim cenv tokenRnd range_order now) params ch) = ch"
    for params
    by (rule mint_verify [OF assms, of mo lt rnd created lim cenv tokenRnd now params]) simp
  have r: "fst (chk_VerifyRightsWithinExpiry (challenger_checker lt (secrets_store_ops opts env rnd created) later []) h d ch) = ch"
    for h d
    using assms secrets_db.rights_iff [of opts env ch rnd created later h d] by (simp add: challenger_checker_def auth_ok_def)
  show ?thesis
    using v r by (auto simp: Accept_def quiet_status split: sum.splits prod.splits) (metis fst_conv)+
qed

definition sample_paid_state :: "secrets_table LnproxyChallenger" where
  "sample_paid_state = sample_challenger_state\<lparr>ch_secrets := SetSettledAtByPaymentHash_q sample_hash (Some (time_Unix 7 0)) sample_tbl\<rparr>"

definition sample_auth_header :: http_header where
  "sample_auth_header = projr (SetHeader sample_macaroon_ops Map.empty sample_mac (hex_encode (replicate 32 (CHR ''p''))))"

definition sample_accept :: "time \<Rightarrow> string \<Rightarrow> bool" where
  "sample_accept later name = snd (Accept sample_macaroon_ops sample_hash_ops
     (mint_minter sample_macaroon_ops sample_hash_ops sample_secrets (static_limiter_ops sample_limiter) sample_challenge_env
        (Inr ''t'') rev (0, 0))
     (challenger_checker sample_hash_ops sample_secrets later []) sample_auth_header name sample_paid_state)"

lemma sample_paid_ok: "auth_ok defaultTxExecutorOptions sample_tx_env rev sample_paid_state"
  using sample_tbl_ok by (simp add: auth_ok_def sample_paid_state_def secrets_ok_def wf_secrets_settle)

lemma sample_from_header:
  "FromHeader sample_macaroon_ops sample_hash_ops sample_auth_header = Inr (sample_mac, replicate 32 (CHR ''p''))"
proof -
  have "mac_MarshalBinary sample_macaroon_ops sample_mac \<noteq> Inl e" for e
    by (simp add: sample_macaroon_ops_def sample_mac_def)
  then obtain h where h: "SetHeader sample_macaroon_ops Map.empty sample_mac
      (lnt_PreimageString sample_hash_ops (replicate 32 (CHR ''p''))) = Inr h"
    by (cases "mac_MarshalBinary sample_macaroon_ops sample_mac") (auto simp: SetHeader_def)
  from FromHeader_SetHeader [OF sample_macaroon_lib sample_hash_lib _ this] h show ?thesis
    by (simp add: sample_auth_header_def sample_hash_ops_def sample_lntypes_ops_def)
qed

lemma sample_paid_checks:
  "\<exists>i secret raws. DecodeIdentifier (mac_Id sample_macaroon_ops sample_mac) = Inr i \<and> PaymentHash i = sample_hash \<and>
     secrets_of sample_tbl (sha256 (mac_Id sample_macaroon_ops sample_mac)) = Some secret \<and>
     mac_VerifySignature sample_macaroon_ops sample_mac secret = Inr raws \<and>
     VerifyCaveats rev (decodeCaveats raws) [NewServicesSatisfier ''svc'', NewTimeoutSatisfier ''svc'' (0, 0)] = Inr ()"
proof -
  have ord: "\<And>ks :: string list. set (rev ks) = set ks" by simp
  from sample_accepted [unfolded VerifyL402_ok_iff [OF ord]] obtain i k raws where
    "l402_checks sample_macaroon_ops sample_hash_ops sample_secrets (0, 0)
       \<lparr>vp_Macaroon = sample_mac, vp_Preimage = ''p'', vp_TargetService = ''svc''\<rparr> sample_tbl i k raws" by blast
  then show ?thesis
    using secrets_db.get_spec [OF sample_tbl_ok, of "Inr ''k''" "(0, 0)"]
    unfolding l402_checks_def VerifyCaveats_mint [OF ord]
    by (intro exI [of _ i] exI [of _ k] exI [of _ raws])
      (auto simp: sample_secrets_def sample_hash_ops_def sample_lntypes_ops_def split: option.splits)
qed

theorem accept_iff_paid_witness:
  "sample_accept (time_Unix 3600 0) ''svc'' \<and> \<not> sample_accept (time_Unix 3608 0) ''svc''"
proof -
  let ?ss = "secrets_store_ops defaultTxExecutorOptions sample_tx_env (Inr ''k'') (0, 0)"
  have sec: "secrets_of (ch_secrets sample_paid_state) = secrets_of sample_tbl"
    and stl: "settled_of (ch_secrets sample_paid_state) sample_hash = Some (Some (time_Unix 7 0))"
    and inv: "invoiceStates sample_paid_state sample_hash = Some SETTLED"
    using sample_settled_of
    by (simp_all add: sample_paid_state_def secrets_of_settle settled_of_settle sample_challenger_state_def)
  have hash: "lnt_PreimageHash sample_hash_ops p = sample_hash" for p
    by (simp add: sample_hash_ops_def sample_lntypes_ops_def)
  have t: "time_add (time_Unix 7 0) (seconds 3600) = time_Unix 3607 0"
    "time_before (time_Unix 3607 0) (time_Unix 3608 0)" "\<not> time_before (time_Unix 3607 0) (time_Unix 3600 0)"
    by (simp_all add: time_Unix_def time_add_def sat_add_def wrap64_def seconds_def time_before_def unix_to_internal_def)
  have acc: "sample_accept later ''svc'' \<longleftrightarrow> \<not> time_before (time_Unix 3607 0) later" for later
  proof -
    let ?acc = "Accept sample_macaroon_ops sample_hash_ops
       (mint_minter sample_macaroon_ops sample_hash_ops ?ss (static_limiter_ops sample_limiter) sample_challenge_env
          (Inr ''t'') rev (0, 0)) (challenger_checker sample_hash_ops ?ss later []) sample_auth_header ''svc'' sample_paid_state"
    have run: "?acc = (sample_paid_state, snd ?acc)"
      using quiet_accept [OF sample_paid_ok] by (metis prod.collapse)
    have "secrets_ok defaultTxExecutorOptions sample_tx_env (ch_secrets sample_paid_state)"
      using sample_paid_ok by (simp add: auth_ok_def)
    from accept_iff_paid [OF this set_rev refl run] sample_paid_checks
    show ?thesis by (simp add: sample_accept_def sample_secrets_def sample_from_header hash sec stl inv t) blast
  qed
  show ?thesis unfolding acc using t by simp
qed

end
