(* ===== verification/Proxy.thy ===== *)
theory Proxy
  imports Authenticator Proxy_Service
begin

text \<open>
  \<^verbatim>\<open>aperture/proxy/proxy.go\<close>: the handler of every request. It matches a service, asks for
  authentication, a free request or a price, and answers with a challenge or hands the request to
  the reverse proxy with the changes of \<^verbatim>\<open>director\<close>.

  The proxy's state is the list of its services (which hold the freebie counters) and the state of
  the authenticator. What happens to a request is an \<open>outcome\<close>; a panic of the handler is one of
  them. The reverse proxy itself, \<^verbatim>\<open>httputil.ReverseProxy\<close>, is the Go library's: a forwarded
  request is the one \<^verbatim>\<open>director\<close> made, a response is passed on through \<open>ModifyResponse\<close>.
  \<open>range_keys\<close> is the order in which this run iterates over a header map.
\<close>

datatype outcome =
    Responded http_response
  | LocalService nat
  | Forwarded http_request
  | Panicked go_error

record 'w Proxy =
  px_localServices :: "(http_request \<Rightarrow> bool) list"
  px_services :: "proxy_Service list"
  px_auth :: 'w

record net_ops =
  net_SplitHostPort :: "string \<Rightarrow> string result"
  net_ParseIP :: "string \<Rightarrow> ip option"

definition IPv4zero :: ip where
  "IPv4zero = v4InV6Prefix @ replicate 4 NUL"

definition NewRemoteIPPrefixLog :: "net_ops \<Rightarrow> string \<Rightarrow> ip" where
  "NewRemoteIPPrefixLog net remoteAddr =
     (let remoteHost = (case net_SplitHostPort net remoteAddr of Inl e \<Rightarrow> ''0.0.0.0'' | Inr h \<Rightarrow> h)
      in (case net_ParseIP net remoteHost of None \<Rightarrow> IPv4zero | Some a \<Rightarrow> a))"

definition hdrContentType :: string where "hdrContentType = ''Content-Type''"
definition hdrGrpcStatus :: string where "hdrGrpcStatus = ''Grpc-Status''"
definition hdrGrpcMessage :: string where "hdrGrpcMessage = ''Grpc-Message''"
definition hdrTypeGrpc :: string where "hdrTypeGrpc = ''application/grpc''"

subsection \<open>Matching\<close>

text \<open>The index of the service that a request matches.\<close>

fun match_from :: "service_env \<Rightarrow> nat \<Rightarrow> proxy_Service list \<Rightarrow> http_request \<Rightarrow> nat option result" where
  "match_from env n [] req = Inr None"
| "match_from env n (service # services) req =
     rbind (MustMatch env (ps_HostRegexp service) (req_Host req)) (\<lambda>hostOk.
       if \<not> hostOk then match_from env (Suc n) services req
       else if ps_PathRegexp service = [] then Inr (Some n)
       else rbind (MustMatch env (ps_PathRegexp service) (req_Path req)) (\<lambda>pathOk.
         if \<not> pathOk then match_from env (Suc n) services req else Inr (Some n)))"

definition matchService :: "service_env \<Rightarrow> http_request \<Rightarrow> proxy_Service list \<Rightarrow> nat option result" where
  "matchService env req services = match_from env 0 services req"

subsection \<open>Direct responses\<close>

definition addCorsHeaders :: "http_header \<Rightarrow> http_header" where
  "addCorsHeaders h =
     header_Add (header_Add (header_Add (header_Add h
       ''Access-Control-Allow-Origin'' ''*'')
       ''Access-Control-Allow-Methods'' ''GET, POST, OPTIONS'')
       ''Access-Control-Expose-Headers'' ''WWW-Authenticate'')
       ''Access-Control-Allow-Headers'' ''Authorization, Grpc-Metadata-macaroon, WWW-Authenticate''"

text \<open>\<^verbatim>\<open>http.Error\<close>: a plain text with a line feed at its end.\<close>

definition http_Error :: "http_header \<Rightarrow> string \<Rightarrow> nat \<Rightarrow> http_response" where
  "http_Error w err code =
     \<lparr>resp_Status = code,
      resp_Header = header_Set (header_Set w ''Content-Type'' ''text/plain; charset=utf-8'') ''X-Content-Type-Options'' ''nosniff'',
      resp_Body = err @ [CHR 0x0A]\<rparr>"

definition sendDirectResponse :: "http_header \<Rightarrow> http_header \<Rightarrow> nat \<Rightarrow> string \<Rightarrow> http_response" where
  "sendDirectResponse w rHeader statusCode errInfo =
     (if has_prefix (header_Get rHeader hdrContentType) hdrTypeGrpc then
        \<lparr>resp_Status = 200,
         resp_Header = header_Set (header_Set w hdrGrpcStatus (format_int 13)) hdrGrpcMessage errInfo,
         resp_Body = []\<rparr>
      else http_Error w errInfo statusCode)"

text \<open>Copy a header map into the response; a field without values makes \<^verbatim>\<open>value[0]\<close> panic.\<close>

fun copy_values :: "http_header \<Rightarrow> string list \<Rightarrow> http_header \<Rightarrow> http_header result" where
  "copy_values header [] w = Inr w"
| "copy_values header (name # names) w =
     (case header name of
        Some (v # vs) \<Rightarrow> copy_values header names (fold (\<lambda>x w. header_Add w name x) vs (header_Set w name v))
      | _ \<Rightarrow> Inl (Panic ''index out of range''))"

definition handlePaymentRequired ::
    "'w auth_ops \<Rightarrow> (http_header \<Rightarrow> string list) \<Rightarrow> http_header \<Rightarrow> http_request \<Rightarrow> string \<Rightarrow> string \<Rightarrow> int \<Rightarrow> 'w \<Rightarrow> 'w \<times> outcome" where
  "handlePaymentRequired au range_keys w r serviceName serviceRecipientLud16 servicePrice a =
     (case au_FreshChallengeHeader au (addCorsHeaders (req_Header r)) serviceName serviceRecipientLud16 servicePrice a of
        (a', rHeader, Inl (Panic e)) \<Rightarrow> (a', Panicked (Panic e))
      | (a', rHeader, Inl e) \<Rightarrow> (a', Responded (sendDirectResponse w rHeader 500 ''challenge failure''))
      | (a', rHeader, Inr header) \<Rightarrow>
          (case copy_values header (range_keys header) w of
             Inl e \<Rightarrow> (a', Panicked e)
           | Inr w' \<Rightarrow> (a', Responded (sendDirectResponse w' rHeader 402 ''payment required''))))"

subsection \<open>The director\<close>

definition director :: "'m macaroon_ops \<Rightarrow> lntypes_ops \<Rightarrow> service_env \<Rightarrow> proxy_Service list \<Rightarrow> http_request \<Rightarrow> http_request result" where
  "director mo lt env services req =
     rbind (matchService env req services) (\<lambda>m.
       case m of
         None \<Rightarrow> Inr req
       | Some i \<Rightarrow>
           let target = services ! i;
               header = (case FromHeader mo lt (req_Header req) of
                           Inl e \<Rightarrow> req_Header req
                         | Inr (mac, preimage) \<Rightarrow>
                             (case SetHeader mo (req_Header req) mac (lnt_PreimageString lt preimage) of
                                Inl e \<Rightarrow> req_Header req
                              | Inr h \<Rightarrow> h));
               header' = fold (\<lambda>(name, value) h. header_Add h name value) (ps_Headers target) header
           in Inr (req\<lparr>req_Host := ps_Address target, req_URLHost := ps_Address target,
                      req_Scheme := ps_Protocol target, req_Header := header'\<rparr>))"

subsection \<open>Serving\<close>

fun find_local :: "nat \<Rightarrow> (http_request \<Rightarrow> bool) list \<Rightarrow> http_request \<Rightarrow> nat option" where
  "find_local n [] r = None"
| "find_local n (ls # lss) r = (if ls r then Some n else find_local (Suc n) lss r)"

text \<open>The end of \<^verbatim>\<open>ServeHTTP\<close>: the reverse proxy, which calls the director.\<close>

definition forward :: "'m macaroon_ops \<Rightarrow> lntypes_ops \<Rightarrow> service_env \<Rightarrow> http_request \<Rightarrow> 'w Proxy \<Rightarrow> 'w Proxy \<times> outcome" where
  "forward mo lt env r p =
     (case director mo lt env (px_services p) r of
        Inl e \<Rightarrow> (p, Panicked e)
      | Inr req \<Rightarrow> (p, Forwarded req))"

text \<open>Ask for the price; a price of zero lets the request through.\<close>

definition charge ::
    "'m macaroon_ops \<Rightarrow> lntypes_ops \<Rightarrow> service_env \<Rightarrow> 'w auth_ops \<Rightarrow> (http_header \<Rightarrow> string list) \<Rightarrow> http_header \<Rightarrow> http_request
       \<Rightarrow> proxy_Service \<Rightarrow> string \<Rightarrow> (GetPaymentDetailsResponse \<Rightarrow> int) \<Rightarrow> 'w Proxy \<Rightarrow> 'w Proxy \<times> outcome" where
  "charge mo lt env au range_keys w r target resourceName chargedPrice p =
     (case ps_pricer target of
        None \<Rightarrow> (p, Panicked (Panic ''nil pricer''))
      | Some pricer \<Rightarrow>
          (case GetPaymentDetails env pricer r of
             Inl e \<Rightarrow> (p, Responded (sendDirectResponse w (req_Header r) 500 ''failure fetching resource price''))
           | Inr paymentDetails \<Rightarrow>
               if pd_Price paymentDetails = 0 then forward mo lt env r p
               else (case handlePaymentRequired au range_keys w r resourceName (pd_RecipientLud16 paymentDetails)
                            (chargedPrice paymentDetails) (px_auth p) of
                       (a, out) \<Rightarrow> (p\<lparr>px_auth := a\<rparr>, out))))"

definition serve_matched ::
    "'m macaroon_ops \<Rightarrow> lntypes_ops \<Rightarrow> service_env \<Rightarrow> 'w auth_ops \<Rightarrow> (http_header \<Rightarrow> string list) \<Rightarrow> ip \<Rightarrow> http_header
       \<Rightarrow> http_request \<Rightarrow> nat \<Rightarrow> 'w Proxy \<Rightarrow> 'w Proxy \<times> outcome" where
  "serve_matched mo lt env au range_keys remoteIP w r i p =
     (let target = px_services p ! i; resourceName = ResourceName target (req_Path r) in
      case AuthRequired env target r of
        Inl e \<Rightarrow> (p, Panicked e)
      | Inr authLevel \<Rightarrow>
          if IsOn authLevel then
            (case au_Accept au (req_Header r) resourceName (px_auth p) of
               (a, True) \<Rightarrow> forward mo lt env r (p\<lparr>px_auth := a\<rparr>)
             | (a, False) \<Rightarrow>
                 charge mo lt env au range_keys w r target resourceName pd_Price (p\<lparr>px_auth := a\<rparr>))
          else if IsFreebie authLevel then
            (case au_Accept au (req_Header r) resourceName (px_auth p) of
               (a, True) \<Rightarrow> forward mo lt env r (p\<lparr>px_auth := a\<rparr>)
             | (a, False) \<Rightarrow>
                 let p1 = p\<lparr>px_auth := a\<rparr> in
                 (case ps_freebieDB target of
                    None \<Rightarrow> (p1, Panicked (Panic ''nil freebieDB''))
                  | Some db \<Rightarrow>
                      (case CanPass db remoteIP of
                         Inl e \<Rightarrow> (p1, Responded (sendDirectResponse w (req_Header r) 500 ''freebie DB failure''))
                       | Inr False \<Rightarrow>
                           charge mo lt env au range_keys w r target resourceName (\<lambda>d. ps_Price target) p1
                       | Inr True \<Rightarrow>
                           (case TallyFreebie db remoteIP of
                              (db', t) \<Rightarrow>
                                let p2 = p1\<lparr>px_services := (px_services p1)[i := target\<lparr>ps_freebieDB := Some db'\<rparr>]\<rparr> in
                                (case t of
                                   Inl e \<Rightarrow> (p2, Responded (sendDirectResponse w (req_Header r) 500 ''freebie DB failure''))
                                 | Inr _ \<Rightarrow> forward mo lt env r p2)))))
          else forward mo lt env r p)"

definition Proxy_ServeHTTP ::
    "'m macaroon_ops \<Rightarrow> lntypes_ops \<Rightarrow> net_ops \<Rightarrow> service_env \<Rightarrow> 'w auth_ops \<Rightarrow> (http_header \<Rightarrow> string list) \<Rightarrow> http_header
       \<Rightarrow> http_request \<Rightarrow> 'w Proxy \<Rightarrow> 'w Proxy \<times> outcome" where
  "Proxy_ServeHTTP mo lt net env au range_keys w r p =
     (let remoteIP = NewRemoteIPPrefixLog net (req_RemoteAddr r) in
      if req_Method r = ''OPTIONS'' then (p, Responded (sendDirectResponse (addCorsHeaders w) (req_Header r) 200 []))
      else (case matchService env r (px_services p) of
              Inl e \<Rightarrow> (p, Panicked e)
            | Inr None \<Rightarrow>
                (case find_local 0 (px_localServices p) r of
                   Some l \<Rightarrow> (p, LocalService l)
                 | None \<Rightarrow> (p, Responded (sendDirectResponse (addCorsHeaders w) (req_Header r) 500 [])))
            | Inr (Some i) \<Rightarrow> serve_matched mo lt env au range_keys remoteIP w r i p))"

subsection \<open>Set-up and shutdown\<close>

text \<open>\<open>appendPEM\<close> is \<^verbatim>\<open>AppendCertsFromPEM\<close>.\<close>

definition certPool :: "service_env \<Rightarrow> (bytes \<Rightarrow> bool) \<Rightarrow> proxy_Service list \<Rightarrow> unit result" where
  "certPool env appendPEM services =
     rcheck (\<lambda>service.
       if ps_TLSCertPath service = [] then Inr ()
       else rbind (se_ReadFile env (ps_TLSCertPath service)) (\<lambda>b.
              ensure (appendPEM b) (Errorf ''credentials: failed to append certificate''))) services"

text \<open>
  \<^verbatim>\<open>UpdateServices\<close> prepares the services it is given and builds a new reverse proxy, but leaves the
  proxy's own list of services alone; \<^verbatim>\<open>New\<close> has put the same list there before.
\<close>

definition UpdateServices :: "service_env \<Rightarrow> (bytes \<Rightarrow> bool) \<Rightarrow> proxy_Service list \<Rightarrow> 'w Proxy \<Rightarrow> ('w Proxy \<times> proxy_Service list) result" where
  "UpdateServices env appendPEM services p =
     rbind (prepareServices env services) (\<lambda>services'.
     rbind (certPool env appendPEM services') (\<lambda>_. Inr (p, services')))"

definition Proxy_New ::
    "service_env \<Rightarrow> (bytes \<Rightarrow> bool) \<Rightarrow> 'w \<Rightarrow> proxy_Service list \<Rightarrow> (http_request \<Rightarrow> bool) list \<Rightarrow> 'w Proxy result" where
  "Proxy_New env appendPEM auth services localServices =
     rbind (UpdateServices env appendPEM services
              \<lparr>px_localServices = localServices, px_services = services, px_auth = auth\<rparr>) (\<lambda>(p, services').
       Inr (p\<lparr>px_services := services'\<rparr>))"

text \<open>Every pricer is closed; the last error is returned.\<close>

fun close_pricers :: "service_env \<Rightarrow> proxy_Service list \<Rightarrow> unit result \<Rightarrow> unit result" where
  "close_pricers env [] returnErr = returnErr"
| "close_pricers env (s # ss) returnErr =
     (case ps_pricer s of
        None \<Rightarrow> Inl (Panic ''nil pricer'')
      | Some pricer \<Rightarrow>
          close_pricers env ss (case Pricer_Close env pricer of Inl e \<Rightarrow> Inl e | Inr _ \<Rightarrow> returnErr))"

definition Proxy_Close :: "service_env \<Rightarrow> 'w Proxy \<Rightarrow> unit result" where
  "Proxy_Close env p = close_pricers env (px_services p) (Inr ())"

subsection \<open>The transport\<close>

record backend_response =
  br_Header :: http_header
  br_Trailer :: "(string \<times> string list) list"

definition header_Values :: "http_header \<Rightarrow> string \<Rightarrow> string list" where
  "header_Values h k = (case h (canonical_key k) of None \<Rightarrow> [] | Some vs \<Rightarrow> vs)"

definition RoundTrip :: "backend_response option \<times> go_error option \<Rightarrow> backend_response option \<times> go_error option" where
  "RoundTrip next =
     (case next of
        (None, err) \<Rightarrow> (None, err)
      | (Some resp, err) \<Rightarrow>
          if br_Trailer resp = [] \<and> header_Values (br_Header resp) hdrGrpcStatus \<noteq> [] then
            (Some (resp\<lparr>br_Trailer := [(canonical_key hdrGrpcStatus, [header_Get (br_Header resp) hdrGrpcStatus]),
                                       (canonical_key hdrGrpcMessage, [header_Get (br_Header resp) hdrGrpcMessage])]\<rparr>), err)
          else (Some resp, err))"

definition ModifyResponse :: "backend_response \<Rightarrow> backend_response" where
  "ModifyResponse res = res\<lparr>br_Header := addCorsHeaders (br_Header res)\<rparr>"

subsection \<open>Which requests are forwarded\<close>

lemma match_from_bounds: "match_from env n services req = Inr (Some i) \<Longrightarrow> n \<le> i \<and> i < n + length services"
  by (induction env n services req rule: match_from.induct)
    (fastforce simp: rbind_eq_Inr split: if_splits)+

lemma matchService_bounds: "matchService env req services = Inr (Some i) \<Longrightarrow> i < length services"
  using match_from_bounds [of env 0 services req i] by (simp add: matchService_def)

lemma forward_Forwarded:
  "forward mo lt env r p = (p', Forwarded req) \<longleftrightarrow> p' = p \<and> director mo lt env (px_services p) r = Inr req"
  by (auto simp: forward_def split: sum.splits)

lemma handlePaymentRequired_not_forwarded:
  "handlePaymentRequired au range_keys w r n l c a \<noteq> (a', Forwarded req)"
  by (auto simp: handlePaymentRequired_def split: prod.splits sum.splits go_error.splits)

lemma charge_Forwarded:
  assumes "charge mo lt env au range_keys w r target n f p = (p', Forwarded req)"
  shows "forward mo lt env r p = (p', Forwarded req) \<and>
     (\<exists>pricer d. ps_pricer target = Some pricer \<and> GetPaymentDetails env pricer r = Inr d \<and> pd_Price d = 0)"
  using assms handlePaymentRequired_not_forwarded [of au range_keys w r n _ _ "px_auth p"]
  by (auto simp: charge_def split: option.splits sum.splits if_splits prod.splits)

text \<open>Changing a freebie counter does not change which service matches.\<close>

lemma match_from_freebie:
  "match_from env n (services[i := (services ! i)\<lparr>ps_freebieDB := db\<rparr>]) req = match_from env n services req"
proof (induction env n services req arbitrary: i rule: match_from.induct)
  case (2 env n service services req)
  show ?case
  proof (cases i)
    case 0
    then show ?thesis by (simp cong: if_cong)
  next
    case (Suc j)
    show ?thesis
      using "2.IH"(1,2) [where i = j] by (simp add: Suc cong: rbind_cong if_cong)
  qed
qed simp

lemma director_ok:
  "director mo lt env services r = Inr req \<Longrightarrow> matchService env r services = Inr (Some i) \<Longrightarrow>
     req_URLHost req = ps_Address (services ! i) \<and> req_Host req = ps_Address (services ! i) \<and>
     req_Scheme req = ps_Protocol (services ! i) \<and> req_Path req = req_Path r \<and> req_Method req = req_Method r"
  by (auto simp: director_def Let_def)

text \<open>The reasons for which a request may pass.\<close>

definition free_of_charge :: "service_env \<Rightarrow> proxy_Service \<Rightarrow> http_request \<Rightarrow> bool" where
  "free_of_charge env target r \<longleftrightarrow>
     (\<exists>pricer d. ps_pricer target = Some pricer \<and> GetPaymentDetails env pricer r = Inr d \<and> pd_Price d = 0)"

definition has_freebie :: "proxy_Service \<Rightarrow> ip \<Rightarrow> bool" where
  "has_freebie target a \<longleftrightarrow> (\<exists>db. ps_freebieDB target = Some db \<and> currentCount db a < numFreebies db)"

context authenticator
begin

lemma serve_matched_forwarded:
  assumes "good (px_auth p)"
    and "serve_matched mo lt env au range_keys a w r i p = (p', Forwarded req)"
    and "matchService env r (px_services p) = Inr (Some i)"
  shows "\<exists>level. AuthRequired env (px_services p ! i) r = Inr level \<and>
     ((\<not> IsOn level \<and> \<not> IsFreebie level) \<or>
      entitled (req_Header r) (ResourceName (px_services p ! i) (req_Path r)) (px_auth p') \<or>
      free_of_charge env (px_services p ! i) r \<or>
      (IsFreebie level \<and> has_freebie (px_services p ! i) a)) \<and>
     (\<exists>services. director mo lt env services r = Inr req \<and> matchService env r services = Inr (Some i) \<and>
        ps_Address (services ! i) = ps_Address (px_services p ! i) \<and> ps_Protocol (services ! i) = ps_Protocol (px_services p ! i))"
proof -
  let ?t = "px_services p ! i"
  from assms(2) obtain level where level: "AuthRequired env ?t r = Inr level"
    by (cases "AuthRequired env ?t r") (auto simp: serve_matched_def)
  obtain st b where acc: "au_Accept au (req_Header r) (ResourceName ?t (req_Path r)) (px_auth p) = (st, b)" by fastforce
  note ent = accept_spec [OF assms(1) acc]
  have i: "i < length (px_services p)" by (rule matchService_bounds [OF assms(3)])
  have same: "matchService env r ((px_services p)[i := ?t\<lparr>ps_freebieDB := Some db\<rparr>]) = Inr (Some i)" for db
    using assms(3) by (simp add: matchService_def match_from_freebie)
  consider (off) "\<not> IsOn level \<and> \<not> IsFreebie level" "forward mo lt env r p = (p', Forwarded req)"
    | (paid) "b" "forward mo lt env r (p\<lparr>px_auth := st\<rparr>) = (p', Forwarded req)"
    | (free) f where "charge mo lt env au range_keys w r ?t (ResourceName ?t (req_Path r)) f (p\<lparr>px_auth := st\<rparr>) = (p', Forwarded req)"
    | (freebie) db where "IsFreebie level" "ps_freebieDB ?t = Some db" "currentCount db a < numFreebies db"
        "forward mo lt env r (p\<lparr>px_auth := st, px_services := (px_services p)[i := ?t\<lparr>ps_freebieDB := Some (fst (TallyFreebie db a))\<rparr>]\<rparr>)
           = (p', Forwarded req)"
    using assms(2) unfolding serve_matched_def Let_def level acc
    by (cases b) (auto simp: CanPass_def TallyFreebie_def Let_def split: if_splits option.splits bool.splits)
  then show ?thesis
  proof cases
    case off
    then show ?thesis using level assms(3) by (auto simp: forward_Forwarded)
  next
    case paid
    then show ?thesis using level ent assms(3) by (auto simp: forward_Forwarded)
  next
    case free
    from charge_Forwarded [OF this] show ?thesis using level assms(3) by (auto simp: forward_Forwarded free_of_charge_def)
  next
    case freebie
    then show ?thesis using level same [of "fst (TallyFreebie db a)"] i
      by (auto simp: forward_Forwarded has_freebie_def intro!: exI [of _ "(px_services p)[i := ?t\<lparr>ps_freebieDB := Some (fst (TallyFreebie db a))\<rparr>]"])
  qed
qed

lemma serve_forwarded:
  assumes "good (px_auth p)"
    and "Proxy_ServeHTTP mo lt net env au range_keys w r p = (p', Forwarded req)"
  obtains i level where "matchService env r (px_services p) = Inr (Some i)" and "i < length (px_services p)"
    and "req_URLHost req = ps_Address (px_services p ! i)" and "req_Scheme req = ps_Protocol (px_services p ! i)"
    and "AuthRequired env (px_services p ! i) r = Inr level"
    and "(\<not> IsOn level \<and> \<not> IsFreebie level) \<or>
      entitled (req_Header r) (ResourceName (px_services p ! i) (req_Path r)) (px_auth p') \<or>
      free_of_charge env (px_services p ! i) r \<or>
      (IsFreebie level \<and> has_freebie (px_services p ! i) (NewRemoteIPPrefixLog net (req_RemoteAddr r)))"
proof -
  from assms(2) obtain i where m: "matchService env r (px_services p) = Inr (Some i)"
    and s: "serve_matched mo lt env au range_keys (NewRemoteIPPrefixLog net (req_RemoteAddr r)) w r i p = (p', Forwarded req)"
    by (auto simp: Proxy_ServeHTTP_def Let_def split: if_splits sum.splits option.splits)
  from serve_matched_forwarded [OF assms(1) s m] obtain level services where
    l: "AuthRequired env (px_services p ! i) r = Inr level"
    "(\<not> IsOn level \<and> \<not> IsFreebie level) \<or>
      entitled (req_Header r) (ResourceName (px_services p ! i) (req_Path r)) (px_auth p') \<or>
      free_of_charge env (px_services p ! i) r \<or>
      (IsFreebie level \<and> has_freebie (px_services p ! i) (NewRemoteIPPrefixLog net (req_RemoteAddr r)))"
    and d: "director mo lt env services r = Inr req" "matchService env r services = Inr (Some i)"
      "ps_Address (services ! i) = ps_Address (px_services p ! i)" "ps_Protocol (services ! i) = ps_Protocol (px_services p ! i)"
    by blast
  from director_ok [OF d(1,2)] d(3,4) matchService_bounds [OF m] show ?thesis using that [OF m _ _ _ l] by simp
qed

end

subsection \<open>Header maps\<close>

text \<open>A header map as the HTTP server makes them: canonical names, no field without values.\<close>

definition wf_header :: "http_header \<Rightarrow> bool" where
  "wf_header h \<longleftrightarrow> (\<forall>k vs. h k = Some vs \<longrightarrow> canonical_key k = k \<and> vs \<noteq> [])"

text \<open>An order of iteration over a map: its keys, each once.\<close>

definition key_order :: "(http_header \<Rightarrow> string list) \<Rightarrow> http_header \<Rightarrow> bool" where
  "key_order range_keys h \<longleftrightarrow> distinct (range_keys h) \<and> set (range_keys h) = dom h"

lemma fold_header_Add:
  assumes "canonical_key k = k" and "w k = Some us"
  shows "fold (\<lambda>x w. header_Add w k x) vs w = w(k \<mapsto> us @ vs)"
  using assms(2)
proof (induction vs arbitrary: w us)
  case Nil
  then show ?case by (simp add: fun_upd_idem)
next
  case (Cons v vs)
  have "header_Add w k v = w(k \<mapsto> us @ [v])" using Cons.prems assms(1) by (simp add: header_Add_def)
  with Cons.IH [of "w(k \<mapsto> us @ [v])" "us @ [v]"] show ?case by (simp add: fun_upd_def cong: if_cong)
qed

lemma copy_values_ok:
  assumes "\<forall>k \<in> set ks. canonical_key k = k \<and> (\<exists>v vs. h k = Some (v # vs))" and "distinct ks"
  shows "copy_values h ks w = Inr (\<lambda>k. if k \<in> set ks then h k else w k)"
  using assms
proof (induction ks arbitrary: w)
  case (Cons k ks)
  from Cons.prems(1) obtain v vs where k: "canonical_key k = k" "h k = Some (v # vs)" by auto
  have "fold (\<lambda>x w. header_Add w k x) vs (header_Set w k v) = w(k \<mapsto> v # vs)"
    using fold_header_Add [OF k(1), of "header_Set w k v" "[v]" vs] k(1) by (simp add: header_Set_def)
  then show ?case
    using Cons k by (auto simp: fun_eq_iff)
qed simp

lemma copy_header:
  assumes "wf_header h" and "key_order range_keys h"
  shows "copy_values h (range_keys h) w = Inr (w ++ h)"
proof -
  have "\<forall>k \<in> set (range_keys h). canonical_key k = k \<and> (\<exists>v vs. h k = Some (v # vs))"
    using assms unfolding wf_header_def key_order_def
    by (metis domD list.exhaust)
  from copy_values_ok [OF this, of w] assms(2) show ?thesis
    by (auto simp: key_order_def map_add_def fun_eq_iff split: option.splits)
qed

lemma wf_header_Add: "wf_header h \<Longrightarrow> canonical_key k = k \<Longrightarrow> wf_header (header_Add h k v)"
  by (auto simp: wf_header_def header_Add_def)

lemma wf_header_Set: "wf_header h \<Longrightarrow> canonical_key k = k \<Longrightarrow> wf_header (header_Set h k v)"
  by (auto simp: wf_header_def header_Set_def)

lemma canonical_literals [simp]:
  "canonical_key ''Access-Control-Allow-Origin'' = ''Access-Control-Allow-Origin''"
  "canonical_key ''Access-Control-Allow-Methods'' = ''Access-Control-Allow-Methods''"
  "canonical_key ''Access-Control-Expose-Headers'' = ''Access-Control-Expose-Headers''"
  "canonical_key ''Access-Control-Allow-Headers'' = ''Access-Control-Allow-Headers''"
  "canonical_key ''Content-Type'' = ''Content-Type''"
  "canonical_key ''X-Content-Type-Options'' = ''X-Content-Type-Options''"
  "canonical_key ''Grpc-Status'' = ''Grpc-Status''"
  "canonical_key ''Grpc-Message'' = ''Grpc-Message''"
  "canonical_key ''Authorization'' = ''Authorization''"
  by (simp_all add: canonical_key_def is_token_char_def upper_char_def lower_char_def byte_val_def byte_of_def char_of_eq_iff)

text \<open>The canonical form of \<^verbatim>\<open>WWW-Authenticate\<close> has lower-case letters.\<close>

lemma canonical_www [simp]: "canonical_key WWW_Authenticate = ''Www-Authenticate''" "canonical_key ''Www-Authenticate'' = ''Www-Authenticate''"
  by (simp_all add: WWW_Authenticate_def canonical_key_def is_token_char_def upper_char_def lower_char_def byte_val_def byte_of_def char_of_eq_iff)

lemma addCors_wf: "wf_header h \<Longrightarrow> wf_header (addCorsHeaders h)"
  by (simp add: addCorsHeaders_def wf_header_Add)

lemma header_Add_keeps: "\<exists>us. h k = Some (v # us) \<Longrightarrow> \<exists>us. header_Add h j x k = Some (v # us)"
  by (auto simp: header_Add_def)

lemma addCors_keeps: "h k = Some (v # vs) \<Longrightarrow> \<exists>us. addCorsHeaders h k = Some (v # us)"
  unfolding addCorsHeaders_def by (intro header_Add_keeps) simp

lemma addCors_Get:
  "canonical_key k \<notin> {''Access-Control-Allow-Origin'', ''Access-Control-Allow-Methods'', ''Access-Control-Expose-Headers'',
     ''Access-Control-Allow-Headers''} \<Longrightarrow> addCorsHeaders h (canonical_key k) = h (canonical_key k)"
  by (simp add: addCorsHeaders_def header_Add_def)

subsection \<open>Properties of the proxy\<close>

text \<open>
  C1: a request reaches a backend only for a reason. It goes to the address of the first service it
  matches, and that service requires neither payment nor a free request for it, or the request's
  header entitles it to the resource (a valid L402 that was paid within the hour), or the price of
  the resource is zero, or the client's network has a free request left.
\<close>

theorem forwarded_requests_justified:
  assumes "auth_ok opts tenv range_order (px_auth p)"
    and "Proxy_ServeHTTP mo lt net env
           (db_auth mo lt opts tenv rnd created (static_limiter_ops l) cenv tokenRnd range_order now later evs)
           range_keys w r p = (p', Forwarded req)"
  shows "\<exists>i level. matchService env r (px_services p) = Inr (Some i) \<and> i < length (px_services p) \<and>
     req_URLHost req = ps_Address (px_services p ! i) \<and> req_Scheme req = ps_Protocol (px_services p ! i) \<and>
     AuthRequired env (px_services p ! i) r = Inr level \<and>
     ((\<not> IsOn level \<and> \<not> IsFreebie level) \<or>
      l402_entitled mo lt (secrets_store_ops opts tenv rnd created) now later (req_Header r)
        (ResourceName (px_services p ! i) (req_Path r)) (px_auth p') \<or>
      free_of_charge env (px_services p ! i) r \<or>
      (IsFreebie level \<and> has_freebie (px_services p ! i) (NewRemoteIPPrefixLog net (req_RemoteAddr r))))"
  using db_authenticator.serve_forwarded [OF assms] by metis

lemma sendDirectResponse_other:
  "k \<notin> {''Content-Type'', ''X-Content-Type-Options'', ''Grpc-Status'', ''Grpc-Message''} \<Longrightarrow>
     resp_Header (sendDirectResponse w h code e) k = w k"
  by (simp add: sendDirectResponse_def http_Error_def header_Set_def hdrGrpcStatus_def hdrGrpcMessage_def)

lemma sendDirectResponse_status:
  "if has_prefix (header_Get h hdrContentType) hdrTypeGrpc
   then resp_Status (sendDirectResponse w h code e) = 200 \<and>
        header_Get (resp_Header (sendDirectResponse w h code e)) hdrGrpcStatus = format_int 13 \<and>
        header_Get (resp_Header (sendDirectResponse w h code e)) hdrGrpcMessage = e
   else resp_Status (sendDirectResponse w h code e) = code \<and> resp_Body (sendDirectResponse w h code e) = e @ [CHR 0x0A]"
  by (simp add: sendDirectResponse_def http_Error_def header_Get_def header_Set_def hdrGrpcStatus_def hdrGrpcMessage_def)

text \<open>How the proxy reaches the challenge: a protected service, or one with free requests that has none
  left for the client, and a request that is not accepted.\<close>

definition refused :: "net_ops \<Rightarrow> service_env \<Rightarrow> 'w auth_ops \<Rightarrow> http_request \<Rightarrow> 'w Proxy \<Rightarrow> nat \<Rightarrow> string \<Rightarrow> 'w \<Rightarrow> bool" where
  "refused net env au r p i level a \<longleftrightarrow>
     req_Method r \<noteq> ''OPTIONS'' \<and> matchService env r (px_services p) = Inr (Some i) \<and>
     AuthRequired env (px_services p ! i) r = Inr level \<and>
     (IsOn level \<or> IsFreebie level \<and>
        (\<exists>db. ps_freebieDB (px_services p ! i) = Some db \<and> CanPass db (NewRemoteIPPrefixLog net (req_RemoteAddr r)) = Inr False)) \<and>
     au_Accept au (req_Header r) (ResourceName (px_services p ! i) (req_Path r)) (px_auth p) = (a, False)"

text \<open>The price that the challenge asks for: with free requests the configured one.\<close>

definition charged :: "string \<Rightarrow> proxy_Service \<Rightarrow> GetPaymentDetailsResponse \<Rightarrow> int" where
  "charged level target d = (if IsOn level then pd_Price d else ps_Price target)"

lemma serve_refused:
  assumes "refused net env au r p i level a"
  shows "Proxy_ServeHTTP mo lt net env au range_keys w r p =
     charge mo lt env au range_keys w r (px_services p ! i) (ResourceName (px_services p ! i) (req_Path r))
       (charged level (px_services p ! i)) (p\<lparr>px_auth := a\<rparr>)"
proof (cases "IsOn level")
  case True
  then have "charged level (px_services p ! i) = pd_Price" by (simp add: charged_def fun_eq_iff)
  with True assms show ?thesis by (simp add: refused_def Proxy_ServeHTTP_def serve_matched_def Let_def)
next
  case False
  then have "charged level (px_services p ! i) = (\<lambda>d. ps_Price (px_services p ! i))" by (simp add: charged_def fun_eq_iff)
  with False assms show ?thesis by (auto simp: refused_def Proxy_ServeHTTP_def serve_matched_def Let_def)
qed

text \<open>The response with a challenge.\<close>

definition challenge_response :: "http_header \<Rightarrow> string \<Rightarrow> http_response \<Rightarrow> bool" where
  "challenge_response hdr challenge resp \<longleftrightarrow>
     header_Get (resp_Header resp) WWW_Authenticate = challenge \<and>
     (if has_prefix (header_Get hdr hdrContentType) hdrTypeGrpc
      then resp_Status resp = 200 \<and> header_Get (resp_Header resp) hdrGrpcStatus = format_int 13 \<and>
           header_Get (resp_Header resp) hdrGrpcMessage = ''payment required''
      else resp_Status resp = 402 \<and> resp_Body resp = ''payment required'' @ [CHR 0x0A]) \<and>
     (\<forall>k v vs. k \<notin> {''Www-Authenticate'', ''Content-Type'', ''X-Content-Type-Options'', ''Grpc-Status'', ''Grpc-Message''} \<and>
        hdr k = Some (v # vs) \<longrightarrow> (\<exists>us. resp_Header resp k = Some (v # us)))"

lemma challenge_responseI:
  assumes "h = header_Set (addCorsHeaders hdr) WWW_Authenticate challenge"
  shows "challenge_response hdr challenge (sendDirectResponse (w ++ h) h 402 ''payment required'')"
proof -
  let ?resp = "sendDirectResponse (w ++ h) h 402 ''payment required''"
  have ct: "header_Get h hdrContentType = header_Get hdr hdrContentType"
    by (simp add: assms header_Get_def header_Set_def hdrContentType_def addCorsHeaders_def header_Add_def)
  have www: "(w ++ h) ''Www-Authenticate'' = Some [challenge]" by (simp add: assms header_Set_def)
  have echo: "\<exists>us. (w ++ h) k = Some (v # us)" if "hdr k = Some (v # vs)" "k \<noteq> ''Www-Authenticate''" for k v vs
    using addCors_keeps [of hdr k v vs] that by (auto simp: assms header_Set_def map_add_def)
  have chal: "header_Get (resp_Header ?resp) WWW_Authenticate = challenge"
    using www by (simp add: header_Get_def sendDirectResponse_other)
  have all: "\<forall>k v vs. k \<notin> {''Www-Authenticate'', ''Content-Type'', ''X-Content-Type-Options'', ''Grpc-Status'', ''Grpc-Message''} \<and>
      hdr k = Some (v # vs) \<longrightarrow> (\<exists>us. resp_Header ?resp k = Some (v # us))"
  proof (intro allI impI, elim conjE)
    fix k v vs
    assume k: "k \<notin> {''Www-Authenticate'', ''Content-Type'', ''X-Content-Type-Options'', ''Grpc-Status'', ''Grpc-Message''}"
      and "hdr k = Some (v # vs)"
    with echo [of k v vs] sendDirectResponse_other [of k "w ++ h" h 402 "''payment required''"]
    show "\<exists>us. resp_Header ?resp k = Some (v # us)" by simp
  qed
  note status = sendDirectResponse_status [of h "w ++ h" 402 "''payment required''", unfolded ct]
  show ?thesis unfolding challenge_response_def by (rule conjI [OF chal], rule conjI [OF status all])
qed

lemma handlePaymentRequired_ok:
  assumes "au_FreshChallengeHeader au (addCorsHeaders (req_Header r)) name lud price a = (a', h, Inr h)"
    and "h = header_Set (addCorsHeaders (req_Header r)) WWW_Authenticate challenge"
    and "wf_header (req_Header r)" and "key_order range_keys h"
  shows "\<exists>resp. handlePaymentRequired au range_keys w r name lud price a = (a', Responded resp) \<and>
     challenge_response (req_Header r) challenge resp"
proof -
  have wf: "wf_header h"
    unfolding assms(2) by (auto simp: wf_header_def header_Set_def addCors_wf [OF assms(3), unfolded wf_header_def])
  have copy: "copy_values h (range_keys h) w = Inr (w ++ h)" by (rule copy_header [OF wf assms(4)])
  then have "handlePaymentRequired au range_keys w r name lud price a =
      (a', Responded (sendDirectResponse (w ++ h) h 402 ''payment required''))"
    by (simp add: handlePaymentRequired_def assms(1))
  with challenge_responseI [OF assms(2)] show ?thesis by blast
qed

text \<open>
  C23: a request that is not accepted by a protected service, or by one without a free request left,
  and that has a price, is answered by what the mint of the proxy does. When it makes an L402 for
  the resource, the response is the challenge with its macaroon and invoice: the status 402, or for
  a gRPC client the gRPC status 13 with the message that the client interceptor looks for. Every
  header field of the request comes back in it, credentials and cookies included. When the mint
  fails, the response is an internal error; when it panics, so does the handler.
\<close>

theorem unpaid_request_challenged:
  assumes "au = lsat_auth_ops mo lt (mint_minter mo lt ss lim cenv tokenRnd range_order now) chk"
    and "refused net env au r p i level a"
    and "ps_pricer (px_services p ! i) = Some pricer" and "GetPaymentDetails env pricer r = Inr d" and "pd_Price d \<noteq> 0"
    and "wf_header (req_Header r)"
    and "\<forall>h. dom h = insert ''Www-Authenticate'' (dom (addCorsHeaders (req_Header r))) \<longrightarrow> key_order range_keys h"
    and "MintL402 mo ss lim (challenger_NewChallenge cenv) tokenRnd
           [\<lparr>Name = ResourceName (px_services p ! i) (req_Path r), Tier = BaseTier, RecipientLud16 = pd_RecipientLud16 d,
              Price = charged level (px_services p ! i) d\<rparr>] (ch_secrets a, ()) = ((s, u), minted)"
  shows "case minted of
       Inr (mac, req) \<Rightarrow> \<exists>resp.
         Proxy_ServeHTTP mo lt net env au range_keys w r p = (p\<lparr>px_auth := a\<lparr>ch_secrets := s\<rparr>\<rparr>, Responded resp) \<and>
         challenge_response (req_Header r)
           (challenge_text (case mac_MarshalBinary mo mac of Inl e \<Rightarrow> [] | Inr b \<Rightarrow> b) req) resp
     | Inl e \<Rightarrow> Proxy_ServeHTTP mo lt net env au range_keys w r p = (p\<lparr>px_auth := a\<lparr>ch_secrets := s\<rparr>\<rparr>,
         if \<exists>x. e = Panic x then Panicked e
         else Responded (sendDirectResponse w (addCorsHeaders (req_Header r)) 500 ''challenge failure''))"
proof -
  let ?t = "px_services p ! i" and ?hdr = "addCorsHeaders (req_Header r)"
  have serve: "Proxy_ServeHTTP mo lt net env au range_keys w r p =
      (case handlePaymentRequired au range_keys w r (ResourceName ?t (req_Path r)) (pd_RecipientLud16 d) (charged level ?t d) a of
         (a', out) \<Rightarrow> (p\<lparr>px_auth := a'\<rparr>, out))"
    using assms(3-5) by (simp add: serve_refused [OF assms(2)] charge_def split: prod.split)
  show ?thesis
  proof (cases minted)
    case (Inl e)
    then have "au_FreshChallengeHeader au ?hdr (ResourceName ?t (req_Path r)) (pd_RecipientLud16 d) (charged level ?t d) a
        = (a\<lparr>ch_secrets := s\<rparr>, ?hdr, Inl e)"
      using assms(8) by (simp add: assms(1) lsat_auth_ops_def FreshChallengeHeader_def mint_minter_def)
    then show ?thesis by (cases e) (simp_all add: Inl serve handlePaymentRequired_def)
  next
    case (Inr mr)
    obtain mac req where mr: "mr = (mac, req)" by (cases mr)
    let ?c = "challenge_text (case mac_MarshalBinary mo mac of Inl e \<Rightarrow> [] | Inr b \<Rightarrow> b) req"
    let ?h = "header_Set ?hdr WWW_Authenticate ?c"
    have fresh: "au_FreshChallengeHeader au ?hdr (ResourceName ?t (req_Path r)) (pd_RecipientLud16 d) (charged level ?t d) a
        = (a\<lparr>ch_secrets := s\<rparr>, ?h, Inr ?h)"
      using assms(8) by (simp add: assms(1) lsat_auth_ops_def FreshChallengeHeader_def mint_minter_def Inr mr Let_def)
    have "dom ?h = insert ''Www-Authenticate'' (dom ?hdr)" by (simp add: header_Set_def)
    with assms(7) have "key_order range_keys ?h" by blast
    from handlePaymentRequired_ok [OF fresh refl assms(6) this, of w]
    show ?thesis by (auto simp: Inr mr serve)
  qed
qed

text \<open>A service without dynamic prices has no recipient, so no challenge can be made for it.\<close>

lemma NewChallenge_no_recipient:
  "nc_Dotenv cenv = Inr () \<Longrightarrow> NewChallenge cenv [] price = Inl (Errorf ''error getting creator invoice'')"
  by (simp add: NewChallenge_def getCreatorInvoice_def NewLnurl_def restate_def)

lemma MintL402_no_challenge:
  assumes "newChallenge (fst (paymentDetailsForMaxPrice services)) (snd (paymentDetailsForMaxPrice services)) c = (c', Inl e)"
  shows "MintL402 mo ss lim newChallenge rnd services (s, c) = ((s, c'), Inl e)"
  using assms by (cases "paymentDetailsForMaxPrice services") (simp add: MintL402_def)

lemma Fresh_no_recipient:
  assumes "nc_Dotenv cenv = Inr ()"
  shows "FreshChallengeHeader mo (mint_minter mo lt ss lim cenv tokenRnd range_order now) h name [] price ch
     = (ch, h, Inl (Errorf ''error getting creator invoice''))"
proof -
  let ?svc = "\<lparr>Name = name, Tier = BaseTier, RecipientLud16 = [], Price = price\<rparr>"
  have "fst (paymentDetailsForMaxPrice [?svc]) = []" by (simp add: paymentDetailsForMaxPrice_def)
  then have "challenger_NewChallenge cenv (fst (paymentDetailsForMaxPrice [?svc])) (snd (paymentDetailsForMaxPrice [?svc])) ()
      = ((), Inl (Errorf ''error getting creator invoice''))"
    by (simp add: challenger_NewChallenge_def NewChallenge_no_recipient [OF assms])
  then have "MintL402 mo ss lim (challenger_NewChallenge cenv) tokenRnd [?svc] (s, ()) =
      ((s, ()), Inl (Errorf ''error getting creator invoice''))" for s
    by (rule MintL402_no_challenge)
  then show ?thesis by (simp add: FreshChallengeHeader_def mint_minter_def)
qed

text \<open>
  C38: a service with a static price can never be paid for. Preparation gives it a pricer without a
  recipient, so the challenger, when it can load its \<^verbatim>\<open>.env\<close> file, refuses the empty lightning
  address, and every request that is not accepted, and for which no free request is left, is
  answered with an internal error instead of a challenge.
\<close>

theorem static_price_unpayable:
  assumes "prepared env (px_services p ! i)" and "\<not> pc_Enabled (ps_DynamicPrice (px_services p ! i))"
    and "refused net env au r p i level a" and "nc_Dotenv cenv = Inr ()"
    and "au = lsat_auth_ops mo lt (mint_minter mo lt ss lim cenv tokenRnd range_order now) chk"
  shows "Proxy_ServeHTTP mo lt net env au range_keys w r p =
     (p\<lparr>px_auth := a\<rparr>, Responded (sendDirectResponse w (addCorsHeaders (req_Header r)) 500 ''challenge failure''))"
proof -
  from assms(1,2) have "ps_pricer (px_services p ! i) = Some (DefaultPricer [] (ps_Price (px_services p ! i)))"
    and "ps_Price (px_services p ! i) \<noteq> 0" by (auto simp: prepared_def)
  then show ?thesis
    unfolding serve_refused [OF assms(3)]
    by (simp add: charge_def handlePaymentRequired_def assms(5) lsat_auth_ops_def Fresh_no_recipient [OF assms(4)])
qed

text \<open>What the configured header fields do to the fields that a request already has: nothing.\<close>

lemma fold_add_keeps:
  "\<exists>us. h k = Some (v # us) \<Longrightarrow> \<exists>us. fold (\<lambda>(name, value) h. header_Add h name value) xs h k = Some (v # us)"
proof (induction xs arbitrary: h)
  case (Cons x xs)
  have "\<exists>us. header_Add h (fst x) (snd x) k = Some (v # us)" by (rule header_Add_keeps) (rule Cons.prems)
  then show ?case using Cons.IH [of "header_Add h (fst x) (snd x)"] by (simp add: case_prod_beta)
qed simp

lemma fold_add_Get:
  "header_Get h k \<noteq> [] \<Longrightarrow> header_Get (fold (\<lambda>(name, value) h. header_Add h name value) xs h) k = header_Get h k"
  using fold_add_keeps [of h "canonical_key k" "header_Get h k" xs]
  by (auto simp: header_Get_def split: option.splits list.splits)

text \<open>
  C24: the backend is given the client's credentials in the standard form: whatever the configured
  header fields are, the forwarded request carries the same macaroon and preimage that the proxy
  read. A configured field does not replace one of the same name that the client sent: the client's
  value stays first.
\<close>

theorem forwarded_credentials:
  assumes "macaroon_lib mo" and "lntypes_lib lt" and "director mo lt env services r = Inr req"
    and "matchService env r services = Inr (Some i)"
    and "FromHeader mo lt (req_Header r) = Inr (mac, preimage)" and "mac_MarshalBinary mo mac = Inr bs"
  shows "FromHeader mo lt (req_Header req) = Inr (mac, preimage) \<and>
     (\<forall>k. canonical_key k \<noteq> HeaderAuthorization \<and> header_Get (req_Header r) k \<noteq> [] \<longrightarrow>
        header_Get (req_Header req) k = header_Get (req_Header r) k)"
proof -
  let ?v = "''L402 '' @ b64_encode bs @ '':'' @ hex_encode preimage"
  let ?h = "header_Set (req_Header r) HeaderAuthorization ?v"
  have len: "length preimage = 32" by (rule FromHeader_preimage_length [OF assms(2,5)])
  have set: "SetHeader mo h mac (lnt_PreimageString lt preimage) = Inr (header_Set h HeaderAuthorization ?v)" for h
    by (simp add: SetHeader_def assms(6) lntypes_lib_simps [OF assms(2)])
  have req: "req_Header req = fold (\<lambda>(name, value) h. header_Add h name value) (ps_Headers (services ! i)) ?h"
    using assms(3,4) by (auto simp: director_def Let_def assms(5) set)
  have "header_Get (req_Header req) HeaderAuthorization = ?v"
    unfolding req by (subst fold_add_Get) simp_all
  then have "FromHeader mo lt (req_Header req) = FromHeader mo lt (header_Set (req_Header req) HeaderAuthorization ?v)"
    by (simp add: FromHeader_def)
  moreover have "canonical_key HeaderAuthorization = HeaderAuthorization" by (simp add: HeaderAuthorization_def)
  ultimately show ?thesis
    using FromHeader_SetHeader [OF assms(1,2) len set, of "req_Header req"]
    unfolding req by (auto simp: fold_add_Get header_Get_Set_other)
qed

subsection \<open>A concrete proxy\<close>

definition sample_net :: net_ops where
  "sample_net = \<lparr>net_SplitHostPort = (\<lambda>a. Inr a), net_ParseIP = (\<lambda>a. None)\<rparr>"

definition sample_request :: http_request where
  "sample_request = \<lparr>req_Method = ''GET'', req_Host = ''h'', req_Path = ''/p'', req_Scheme = [], req_URLHost = [],
     req_RemoteAddr = ''1.2.3.4:5'', req_Header = Map.empty\<rparr>"

definition sample_proxy :: "proxy_Service \<Rightarrow> secrets_table LnproxyChallenger Proxy" where
  "sample_proxy s = \<lparr>px_localServices = [], px_services = [s], px_auth = sample_paid_state\<rparr>"

definition sample_lsat_auth :: "time \<Rightarrow> secrets_table LnproxyChallenger auth_ops" where
  "sample_lsat_auth later =
     db_auth sample_macaroon_ops sample_hash_ops defaultTxExecutorOptions sample_tx_env (Inr ''k'') (0, 0)
       (static_limiter_ops sample_limiter) sample_challenge_env (Inr ''t'') rev (0, 0) later []"

abbreviation sample_serve :: "time \<Rightarrow> proxy_Service \<Rightarrow> http_request \<Rightarrow> secrets_table LnproxyChallenger Proxy \<times> outcome" where
  "sample_serve later s r \<equiv> Proxy_ServeHTTP sample_macaroon_ops sample_hash_ops sample_net sample_service_env (sample_lsat_auth later)
     (\<lambda>h. []) Map.empty r (sample_proxy s)"

lemma sample_on: "AuthRequired sample_service_env sample_prepared sample_request = Inr ''on''" "IsOn ''on''"
  by (simp_all add: AuthRequired_def sample_prepared_def sample_service_def MustMatch_def sample_service_env_def
      sample_request_def IsOn_def to_lower_def lower_char_def byte_val_def)

lemma sample_matched: "matchService sample_service_env sample_request [sample_prepared] = Inr (Some 0)"
  by (simp add: matchService_def MustMatch_def sample_service_env_def sample_prepared_def sample_service_def sample_request_def)

lemma sample_unauthenticated: "FromHeader mo lt (req_Header sample_request) = Inl (Errorf ''no auth header provided'')"
  by (simp add: FromHeader_def sample_request_def header_Get_def)

lemma sample_refused:
  "refused sample_net sample_service_env (sample_lsat_auth later) sample_request (sample_proxy sample_prepared) 0 ''on'' sample_paid_state"
  using sample_on sample_matched
  by (simp add: refused_def sample_proxy_def sample_lsat_auth_def lsat_auth_ops_def Accept_def sample_unauthenticated)
    (simp add: sample_request_def)

theorem static_price_unpayable_witness:
  "snd (sample_serve (0, 0) sample_prepared sample_request) =
     Responded (sendDirectResponse Map.empty (addCorsHeaders Map.empty) 500 ''challenge failure'')"
proof -
  have p: "prepared sample_service_env (px_services (sample_proxy sample_prepared) ! 0)"
    by (simp add: sample_proxy_def prepared_def sample_prepared_def sample_service_def sample_service_env_def sample_not_freebie
        maxServicePrice_def)
  have st: "\<not> pc_Enabled (ps_DynamicPrice (px_services (sample_proxy sample_prepared) ! 0))"
    by (simp add: sample_proxy_def sample_prepared_def sample_service_def)
  have env: "nc_Dotenv sample_challenge_env = Inr ()" by (simp add: sample_challenge_env_def)
  have hdr: "req_Header sample_request = Map.empty" by (simp add: sample_request_def)
  show ?thesis using static_price_unpayable [OF p st sample_refused env sample_lsat_auth_def] by (simp only: snd_conv hdr)
qed

definition sample_open_challenger :: "secrets_table LnproxyChallenger" where
  "sample_open_challenger = \<lparr>invoiceStates = Map.empty, ch_secrets = [], ch_reader = InRecv, ch_quit = False, ch_errors = []\<rparr>"

lemma sample_mint_env:
  assumes "NewChallenge env ''u@d'' 7 = Inr (''wrapped-lnbc1'', sample_hash)"
  shows "MintL402 sample_macaroon_ops sample_secrets (static_limiter_ops sample_limiter) (challenger_NewChallenge env)
     (Inr ''t'') [sample_l402_service] ([], ()) =
     (([\<lparr>sr_macaroon_id_hash = sha256 sample_id, sr_payment_hash = sample_hash, sr_secret = to_array 32 ''k'',
         sr_settled_at = None, sr_created_at = (0, 0)\<rparr>], ()), Inr (sample_mac, ''wrapped-lnbc1''))"
proof -
  have i: "createUniqueIdentifier (Inr ''t'') sample_hash = Inr sample_id"
    by (simp add: createUniqueIdentifier_eq sample_id_def)
  have n: "mac_New sample_macaroon_ops k i l = Inr [k, i]" for k i l by (simp add: sample_macaroon_ops_def)
  have a: "AddFirstPartyCaveats sample_macaroon_ops [to_array 32 ''k'', sample_id] [\<lparr>Condition = CondServices, Value = ''svc:0''\<rparr>]
      = Inr sample_mac"
    by (simp add: sample_macaroon_ops_def EncodeCaveat_def CondServices_def sample_mac_def)
  have pd: "paymentDetailsForMaxPrice [sample_l402_service] = (''u@d'', 7)"
    by (simp add: paymentDetailsForMaxPrice_def sample_l402_service_def)
  show ?thesis
    by (simp add: MintL402_def pd challenger_NewChallenge_def assms i sample_secret_new n sample_limits a Let_def
        del: AddFirstPartyCaveats.simps)
qed

text \<open>A service with dynamic prices, whose price server asks for seven satoshis for \<^verbatim>\<open>u@d\<close>, and a
  request without a credential: the challenge has the wrapped invoice.\<close>

definition sample_dynamic :: proxy_Service where
  "sample_dynamic = sample_prepared\<lparr>ps_DynamicPrice := \<lparr>pc_Enabled = True, pc_GRPCAddress = ''localhost:8083'', pc_Insecure = True, pc_TLSCertPath = []\<rparr>,
     ps_pricer := Some (GRPCPricer ''localhost:8083'')\<rparr>"

definition sample_priced_proxy :: "secrets_table LnproxyChallenger Proxy" where
  "sample_priced_proxy = \<lparr>px_localServices = [], px_services = [sample_dynamic], px_auth = sample_open_challenger\<rparr>"

definition sample_keys :: "http_header \<Rightarrow> string list" where
  "sample_keys h = [''Access-Control-Allow-Origin'', ''Access-Control-Allow-Methods'', ''Access-Control-Expose-Headers'',
     ''Access-Control-Allow-Headers'', ''Www-Authenticate'']"

lemma sample_named_mint:
  assumes "n \<noteq> []"
  shows "\<exists>s mac. MintL402 sample_macaroon_ops sample_secrets (static_limiter_ops sample_limiter) (challenger_NewChallenge sample_challenge_env)
     (Inr ''t'') [\<lparr>Name = n, Tier = BaseTier, RecipientLud16 = ''u@d'', Price = 7\<rparr>] ([], ()) = ((s, ()), Inr (mac, ''wrapped-lnbc1''))"
proof -
  let ?svc = "\<lparr>Name = n, Tier = BaseTier, RecipientLud16 = ''u@d'', Price = 7\<rparr>"
  have i: "createUniqueIdentifier (Inr ''t'') sample_hash = Inr sample_id"
    by (simp add: createUniqueIdentifier_eq sample_id_def)
  obtain cs where cs: "caveatsForServices (static_limiter_ops sample_limiter) [?svc] = Inr cs"
    using db_minter.caveatsForServices_ok [where l = sample_limiter and services = "[?svc]"] assms by fastforce
  have "2 \<le> length m \<Longrightarrow> \<exists>m'. AddFirstPartyCaveats sample_macaroon_ops m cs = Inr m'" for m
    by (induction cs arbitrary: m) (simp_all add: sample_macaroon_ops_def)
  then obtain m where m: "AddFirstPartyCaveats sample_macaroon_ops [to_array 32 ''k'', sample_id] cs = Inr m" by fastforce
  have nw: "mac_New sample_macaroon_ops k i l = Inr [k, i]" for k i l by (simp add: sample_macaroon_ops_def)
  have pd: "paymentDetailsForMaxPrice [?svc] = (''u@d'', 7)" by (simp add: paymentDetailsForMaxPrice_def)
  show ?thesis
    by (simp add: MintL402_def pd challenger_NewChallenge_def sample_challenge i sample_secret_new nw cs m Let_def
        del: AddFirstPartyCaveats.simps)
qed

theorem unpaid_request_challenged_witness:
  "\<exists>resp mb. snd (Proxy_ServeHTTP sample_macaroon_ops sample_hash_ops sample_net sample_service_env (sample_lsat_auth (0, 0))
       sample_keys Map.empty sample_request sample_priced_proxy) = Responded resp \<and>
     resp_Status resp = 402 \<and> header_Get (resp_Header resp) WWW_Authenticate = challenge_text mb ''wrapped-lnbc1''"
proof -
  have t: "px_services sample_priced_proxy ! 0 = sample_dynamic" by (simp add: sample_priced_proxy_def)
  have m: "matchService sample_service_env sample_request (px_services sample_priced_proxy) = Inr (Some 0)"
    by (simp add: matchService_def MustMatch_def sample_service_env_def sample_dynamic_def sample_prepared_def sample_service_def
        sample_request_def sample_priced_proxy_def)
  have lv: "AuthRequired sample_service_env sample_dynamic sample_request = Inr ''on''"
    by (simp add: AuthRequired_def sample_dynamic_def sample_prepared_def sample_service_def MustMatch_def sample_service_env_def
        sample_request_def)
  have ref: "refused sample_net sample_service_env (sample_lsat_auth (0, 0)) sample_request sample_priced_proxy 0 ''on'' sample_open_challenger"
    using sample_on(2) m lv
    by (simp add: refused_def t sample_lsat_auth_def lsat_auth_ops_def Accept_def sample_unauthenticated)
      (simp add: sample_priced_proxy_def sample_request_def)
  have pr: "ps_pricer (px_services sample_priced_proxy ! 0) = Some (GRPCPricer ''localhost:8083'')" by (simp add: t sample_dynamic_def)
  have d: "GetPaymentDetails sample_service_env (GRPCPricer ''localhost:8083'') sample_request = Inr \<lparr>pd_RecipientLud16 = ''u@d'', pd_Price = 7\<rparr>"
    by (simp add: sample_service_env_def)
  have wf: "wf_header (req_Header sample_request)" by (simp add: wf_header_def sample_request_def)
  have "dom (addCorsHeaders (req_Header sample_request)) = {''Access-Control-Allow-Origin'', ''Access-Control-Allow-Methods'',
      ''Access-Control-Expose-Headers'', ''Access-Control-Allow-Headers''}"
    by (auto simp: addCorsHeaders_def header_Add_def sample_request_def split: if_splits)
  then have ko: "\<forall>h. dom h = insert ''Www-Authenticate'' (dom (addCorsHeaders (req_Header sample_request))) \<longrightarrow> key_order sample_keys h"
    by (simp add: key_order_def sample_keys_def insert_commute)
  have price: "charged ''on'' sample_dynamic \<lparr>pd_RecipientLud16 = ''u@d'', pd_Price = 7\<rparr> = 7" using sample_on(2) by (simp add: charged_def)
  obtain s mac where mint: "MintL402 sample_macaroon_ops sample_secrets (static_limiter_ops sample_limiter) (challenger_NewChallenge sample_challenge_env)
     (Inr ''t'') [\<lparr>Name = ResourceName sample_dynamic (req_Path sample_request), Tier = BaseTier, RecipientLud16 = ''u@d'', Price = 7\<rparr>] ([], ())
     = ((s, ()), Inr (mac, ''wrapped-lnbc1''))"
    using sample_named_mint [of "ResourceName sample_dynamic (req_Path sample_request)"]
    by (auto simp: ResourceName_def sample_dynamic_def sample_prepared_def sample_service_def)
  have "header_Get (req_Header sample_request) hdrContentType = []" by (simp add: sample_request_def header_Get_def)
  then have ng: "\<not> has_prefix (header_Get (req_Header sample_request) hdrContentType) hdrTypeGrpc"
    by (simp add: has_prefix_def hdrTypeGrpc_def)
  from unpaid_request_challenged [OF sample_lsat_auth_def ref pr d _ wf ko, of s "()" "Inr (mac, ''wrapped-lnbc1'')" Map.empty] mint ng
  show ?thesis
    by (auto simp: t price sample_open_challenger_def sample_secrets_def challenge_response_def simp del: split_paired_Ex)
qed

definition sample_free_request :: http_request where
  "sample_free_request = sample_request\<lparr>req_Path := ''/free''\<rparr>"

theorem forwarded_requests_justified_witness:
  "\<exists>req. snd (sample_serve (0, 0) sample_prepared sample_free_request) = Forwarded req \<and> req_URLHost req = ''127.0.0.1:1''"
proof -
  have m: "matchService sample_service_env sample_free_request [sample_prepared] = Inr (Some 0)"
    by (simp add: matchService_def MustMatch_def sample_service_env_def sample_prepared_def sample_service_def
        sample_request_def sample_free_request_def)
  have a: "AuthRequired sample_service_env sample_prepared sample_free_request = Inr LevelOff"
    by (simp add: AuthRequired_def sample_prepared_def sample_service_def MustMatch_def sample_service_env_def
        sample_free_request_def)
  have l: "\<not> IsOn LevelOff" "\<not> IsFreebie LevelOff"
    by (simp_all add: LevelOff_def IsOn_def IsFreebie_def to_lower_def lower_char_def byte_val_def has_prefix_def)
  have "req_Method sample_free_request \<noteq> ''OPTIONS''" by (simp add: sample_free_request_def sample_request_def)
  with m a l have "\<exists>req. sample_serve (0, 0) sample_prepared sample_free_request = (sample_proxy sample_prepared, Forwarded req)"
    by (simp add: Proxy_ServeHTTP_def sample_proxy_def serve_matched_def forward_def director_def Let_def)
  then obtain req where f: "sample_serve (0, 0) sample_prepared sample_free_request = (sample_proxy sample_prepared, Forwarded req)"
    by blast
  have ok: "auth_ok defaultTxExecutorOptions sample_tx_env rev (px_auth (sample_proxy sample_prepared))"
    using sample_paid_ok by (simp add: sample_proxy_def)
  from forwarded_requests_justified [OF ok f [unfolded sample_lsat_auth_def]] m
  have "req_URLHost req = ps_Address sample_prepared" by (auto simp: sample_proxy_def)
  then show ?thesis using f by (simp add: sample_prepared_def sample_service_def)
qed

theorem forwarded_credentials_witness:
  "\<exists>req. director sample_macaroon_ops sample_hash_ops sample_service_env [sample_prepared]
       (sample_request\<lparr>req_Header := sample_auth_header\<rparr>) = Inr req \<and>
     FromHeader sample_macaroon_ops sample_hash_ops (req_Header req) = Inr (sample_mac, replicate 32 (CHR ''p''))"
proof -
  let ?r = "sample_request\<lparr>req_Header := sample_auth_header\<rparr>"
  have m: "matchService sample_service_env ?r [sample_prepared] = Inr (Some 0)"
    by (simp add: matchService_def MustMatch_def sample_service_env_def sample_prepared_def sample_service_def sample_request_def)
  then obtain req where d: "director sample_macaroon_ops sample_hash_ops sample_service_env [sample_prepared] ?r = Inr req"
    by (simp add: director_def Let_def)
  have h: "FromHeader sample_macaroon_ops sample_hash_ops (req_Header ?r) = Inr (sample_mac, replicate 32 (CHR ''p''))"
    using sample_from_header by simp
  obtain bs where b: "mac_MarshalBinary sample_macaroon_ops sample_mac = Inr bs"
    by (simp add: sample_macaroon_ops_def sample_mac_def)
  from forwarded_credentials [OF sample_macaroon_lib sample_hash_lib d m h b] d show ?thesis by blast
qed

end
