(* ===== verification/Hashmail_Pipe.thy ===== *)
theory Hashmail_Pipe
  imports Go_Encoding
begin

text \<open>
  The data path of a mailbox stream, \<^verbatim>\<open>aperture/hashmail_server.go\<close>: \<^verbatim>\<open>WriteMsg\<close> writes a message
  behind its length into a pipe, a goroutine copies the pipe into a second one, another reads
  that one through a buffer of 4096 bytes and hands the collected bytes to \<^verbatim>\<open>ReadNextMsg\<close>.

  An \<^verbatim>\<open>io.Pipe\<close> has no buffer: a \<^verbatim>\<open>Read\<close> returns as much of the current \<^verbatim>\<open>Write\<close> as fits and never
  joins two writes. The copying goroutine reads through the 32768 bytes of \<^verbatim>\<open>io.Copy\<close>, a multiple of
  4096, so a frame arrives at the reader as \<open>reads_of\<close> the frame whatever its size.
  The variable-length integers of the lnd package \<^verbatim>\<open>tlv\<close> are a parameter.
\<close>

definition DefaultBufSize :: nat where "DefaultBufSize = 4096"
definition CopyBufSize :: nat where "CopyBufSize = 32768"

record tlv_ops =
  tlv_WriteVarInt :: "nat \<Rightarrow> bytes result"
  tlv_ReadVarInt :: "bytes \<Rightarrow> (nat \<times> bytes) result"

text \<open>What the package documents: a 64-bit number is written, with at least one byte, and read back.\<close>

definition tlv_lib :: "tlv_ops \<Rightarrow> bool" where
  "tlv_lib tlv \<longleftrightarrow>
     (\<forall>n < 2 ^ 64. \<exists>b. tlv_WriteVarInt tlv n = Inr b \<and> b \<noteq> [] \<and> (\<forall>r. tlv_ReadVarInt tlv (b @ r) = Inr (n, r)))"

text \<open>The bytes of one \<^verbatim>\<open>WriteMsg\<close>; \<open>wait\<close> is the rate limiter's answer.\<close>

definition WriteMsg :: "tlv_ops \<Rightarrow> unit result \<Rightarrow> bytes \<Rightarrow> bytes result" where
  "WriteMsg tlv wait msg =
     rbind wait (\<lambda>_.
     rbind (tlv_WriteVarInt tlv (length msg mod 2 ^ 64)) (\<lambda>buf. Inr (buf @ msg)))"

text \<open>One write, cut into the reads of a reader with a buffer of \<open>n\<close> bytes.\<close>

function cut_reads :: "nat \<Rightarrow> bytes \<Rightarrow> bytes list" where
  "cut_reads n bs = (if n = 0 \<or> bs = [] then [] else take n bs # cut_reads n (drop n bs))"
  by pat_completeness auto
termination
  by (relation "measure (\<lambda>(n, bs). length bs)") (auto simp: length_greater_0_conv [symmetric] simp del: length_greater_0_conv)

declare cut_reads.simps [simp del]

text \<open>A frame through both pipes.\<close>

definition reads_of :: "bytes \<Rightarrow> bytes list" where
  "reads_of fr = concat (map (cut_reads DefaultBufSize) (cut_reads CopyBufSize fr))"

text \<open>
  The reading goroutine: it appends to what it has while its buffer was filled and hands over the
  bytes after the first read that did not fill it. The second component is what it still holds.
\<close>

fun collect :: "bytes \<Rightarrow> bytes list \<Rightarrow> bytes list \<times> bytes" where
  "collect c [] = ([], c)"
| "collect c (r # rs) =
     (if length r = DefaultBufSize then collect (c @ r) rs
      else (case collect [] rs of (cs, held) \<Rightarrow> ((c @ r) # cs, held)))"

text \<open>\<^verbatim>\<open>ReadNextMsg\<close> on a chunk of bytes: the length, then at most that many bytes of the chunk.\<close>

definition ReadNextMsg :: "tlv_ops \<Rightarrow> bytes \<Rightarrow> bytes result" where
  "ReadNextMsg tlv b = rbind (tlv_ReadVarInt tlv b) (\<lambda>(msgLen, rest). Inr (take msgLen rest))"

text \<open>What arrives for a sequence of messages: those handed over, and the bytes still held.\<close>

definition delivered :: "tlv_ops \<Rightarrow> bytes list \<Rightarrow> bytes result list \<times> bytes" where
  "delivered tlv frames =
     (case collect [] (concat (map reads_of frames)) of (cs, held) \<Rightarrow> (map (ReadNextMsg tlv) cs, held))"

subsection \<open>Cutting\<close>

lemma cut_Nil [simp]: "cut_reads n [] = []"
  by (simp add: cut_reads.simps)

lemma cut_short: "bs \<noteq> [] \<Longrightarrow> length bs \<le> n \<Longrightarrow> cut_reads n bs = [bs]"
  by (cases bs; subst cut_reads.simps) auto

lemma cut_append: "0 < n \<Longrightarrow> length a = n \<Longrightarrow> cut_reads n (a @ bs) = a # cut_reads n bs"
  by (subst cut_reads.simps) auto

lemma cut_append_multiple:
  "0 < n \<Longrightarrow> length a = k * n \<Longrightarrow> cut_reads n (a @ b) = cut_reads n a @ cut_reads n b"
proof (induction k arbitrary: a)
  case (Suc k)
  have "length (take n a) = n" using Suc.prems by simp
  then have "cut_reads n (take n a @ (drop n a @ b)) = take n a # cut_reads n (drop n a @ b)"
    and "cut_reads n (take n a @ drop n a) = take n a # cut_reads n (drop n a)"
    using Suc.prems(1) by (simp_all only: cut_append)
  moreover have "take n a @ (drop n a @ b) = a @ b" by (simp only: append_assoc [symmetric] append_take_drop_id)
  ultimately show ?case using Suc.IH [of "drop n a"] Suc.prems by simp
qed simp

text \<open>The first pipe's buffer does not show.\<close>

lemma reads_of_cut: "reads_of fr = cut_reads DefaultBufSize fr"
proof -
  have "concat (map (cut_reads DefaultBufSize) (cut_reads n fr)) = cut_reads DefaultBufSize fr" if "n = CopyBufSize" for n
    using that
  proof (induction n fr rule: cut_reads.induct)
    case (1 n bs)
    show ?case
    proof (cases "bs = [] \<or> length bs \<le> n")
      case True
      with "1.prems" show ?thesis
        by (cases "bs = []") (simp_all add: cut_short CopyBufSize_def)
    next
      case False
      then have "cut_reads n bs = take n bs # cut_reads n (drop n bs)"
        using "1.prems" by (subst cut_reads.simps) (simp add: CopyBufSize_def)
      moreover have "cut_reads DefaultBufSize (take n bs @ drop n bs) = cut_reads DefaultBufSize (take n bs) @ cut_reads DefaultBufSize (drop n bs)"
        using False "1.prems" by (intro cut_append_multiple [where k = 8]) (simp_all add: DefaultBufSize_def CopyBufSize_def)
      ultimately show ?thesis
        using "1.IH" "1.prems" False by (simp add: CopyBufSize_def)
    qed
  qed
  then show ?thesis by (simp add: reads_of_def)
qed

subsection \<open>Collecting\<close>

text \<open>A write whose length is not a multiple of the buffer's ends a chunk; one whose length is does not.\<close>

lemma collect_cut_partial:
  assumes "length bs mod DefaultBufSize \<noteq> 0"
  shows "collect c (cut_reads DefaultBufSize bs @ rs) = (case collect [] rs of (cs, held) \<Rightarrow> ((c @ bs) # cs, held))"
  using assms
proof (induction bs arbitrary: c rule: measure_induct_rule [where f = length])
  case (less bs)
  have ne: "bs \<noteq> []" using less.prems by auto
  show ?case
  proof (cases "length bs < DefaultBufSize")
    case True
    then show ?thesis using ne by (simp add: cut_short)
  next
    case False
    then have l: "length (take DefaultBufSize bs) = DefaultBufSize" by simp
    have m: "length (drop DefaultBufSize bs) mod DefaultBufSize \<noteq> 0"
      using less.prems False by (simp add: le_mod_geq)
    have "cut_reads DefaultBufSize bs = take DefaultBufSize bs # cut_reads DefaultBufSize (drop DefaultBufSize bs)"
      using ne by (subst cut_reads.simps) (simp add: DefaultBufSize_def)
    moreover have "length (drop DefaultBufSize bs) < length bs" using ne by (simp add: DefaultBufSize_def)
    ultimately show ?thesis using less.IH [of "drop DefaultBufSize bs" "c @ take DefaultBufSize bs"] l m by simp
  qed
qed

lemma collect_cut_full:
  assumes "length bs = k * DefaultBufSize"
  shows "collect c (cut_reads DefaultBufSize bs @ rs) = collect (c @ bs) rs"
  using assms
proof (induction k arbitrary: bs c)
  case (Suc k)
  have l: "length (take DefaultBufSize bs) = DefaultBufSize" using Suc.prems by simp
  have "cut_reads DefaultBufSize (take DefaultBufSize bs @ drop DefaultBufSize bs)
      = take DefaultBufSize bs # cut_reads DefaultBufSize (drop DefaultBufSize bs)"
    by (rule cut_append) (simp add: DefaultBufSize_def, rule l)
  then have "cut_reads DefaultBufSize bs = take DefaultBufSize bs # cut_reads DefaultBufSize (drop DefaultBufSize bs)" by simp
  with Suc.IH [of "drop DefaultBufSize bs" "c @ take DefaultBufSize bs"] Suc.prems l show ?case by simp
qed simp

lemma delivered_Cons:
  assumes "length fr mod DefaultBufSize \<noteq> 0"
  shows "delivered tlv (fr # frs) = (case delivered tlv frs of (ms, held) \<Rightarrow> (ReadNextMsg tlv fr # ms, held))"
  using collect_cut_partial [OF assms, of "[]"] by (simp add: delivered_def reads_of_cut split: prod.splits)

lemma ReadNextMsg_frame:
  assumes "tlv_lib tlv" and "length msg < 2 ^ 64" and "WriteMsg tlv (Inr ()) msg = Inr fr"
  shows "ReadNextMsg tlv (fr @ extra) = Inr msg"
proof -
  from assms(1,2) obtain b where b: "tlv_WriteVarInt tlv (length msg) = Inr b"
    "\<forall>r. tlv_ReadVarInt tlv (b @ r) = Inr (length msg, r)" unfolding tlv_lib_def by blast
  with assms(2,3) have "fr = b @ msg" by (simp add: WriteMsg_def)
  with b(2) show ?thesis by (simp add: ReadNextMsg_def)
qed

subsection \<open>Properties\<close>

text \<open>
  C21: messages arrive in the order in which they were written, each of them whole, as long as no
  frame (the message and its length prefix) has a length that is a multiple of the reader's buffer;
  larger messages than the buffers are put together again.
\<close>

theorem mailbox_delivers_in_order:
  assumes "tlv_lib tlv" and "list_all2 (\<lambda>msg fr. length msg < 2 ^ 64 \<and> WriteMsg tlv (Inr ()) msg = Inr fr) msgs frames"
    and "\<forall>fr \<in> set frames. length fr mod DefaultBufSize \<noteq> 0"
  shows "delivered tlv frames = (map Inr msgs, [])"
  using assms(2,3)
proof (induction rule: list_all2_induct)
  case Nil
  then show ?case by (simp add: delivered_def)
next
  case (Cons msg msgs fr frames)
  then show ?case using ReadNextMsg_frame [OF assms(1), of msg fr "[]"] by (simp add: delivered_Cons)
qed

text \<open>
  A frame whose length is a multiple of 4096 is held back until the next message comes, and that
  next message is lost: both are handed over as one chunk, of which only the first message is read.
\<close>

lemma full_buffer_loses_next:
  assumes "tlv_lib tlv" and "length m1 < 2 ^ 64" and "WriteMsg tlv (Inr ()) m1 = Inr f1"
    and "length f1 mod DefaultBufSize = 0" and "length f2 mod DefaultBufSize \<noteq> 0"
  shows "delivered tlv [f1] = ([], f1) \<and> delivered tlv [f1, f2] = ([Inr m1], [])"
proof -
  from assms(4) obtain k where k: "length f1 = k * DefaultBufSize" by (metis dvd_def mod_0_imp_dvd mult.commute)
  from collect_cut_full [OF k, of "[]" "[]"] have "delivered tlv [f1] = ([], f1)"
    by (simp add: delivered_def reads_of_cut)
  moreover have "collect [] (cut_reads DefaultBufSize f1 @ cut_reads DefaultBufSize f2 @ []) = ([f1 @ f2], [])"
    using collect_cut_full [OF k, of "[]" "cut_reads DefaultBufSize f2 @ []"] collect_cut_partial [OF assms(5), of f1 "[]"] by simp
  ultimately show ?thesis
    using ReadNextMsg_frame [OF assms(1-3), of f2] by (simp add: delivered_def reads_of_cut)
qed

subsection \<open>An instance of the hypotheses\<close>

definition sample_tlv :: tlv_ops where
  "sample_tlv = \<lparr>tlv_WriteVarInt = (\<lambda>n. Inr (be_bytes 8 n)),
     tlv_ReadVarInt = (\<lambda>b. rbind (read_full 8 b) (\<lambda>(h, r). Inr (be_val h, r)))\<rparr>"

lemma sample_tlv_lib: "tlv_lib sample_tlv"
proof -
  have "be_bytes 8 n \<noteq> []" for n using length_be_bytes [of 8 n] by (metis length_0_conv zero_neq_numeral)
  then show ?thesis by (auto simp: tlv_lib_def sample_tlv_def read_full_append)
qed

lemma sample_frame: "length msg < 2 ^ 64 \<Longrightarrow> WriteMsg sample_tlv (Inr ()) msg = Inr (be_bytes 8 (length msg) @ msg)"
  by (simp add: WriteMsg_def sample_tlv_def)

theorem mailbox_delivers_in_order_witness:
  "delivered sample_tlv [be_bytes 8 5000 @ replicate 5000 (CHR ''a''), be_bytes 8 1 @ ''b'']
     = ([Inr (replicate 5000 (CHR ''a'')), Inr ''b''], [])"
  using mailbox_delivers_in_order [OF sample_tlv_lib, of "[replicate 5000 (CHR ''a''), ''b'']"]
  by (simp add: sample_frame DefaultBufSize_def)

lemma full_buffer_loses_next_example:
  "delivered sample_tlv [be_bytes 8 4088 @ replicate 4088 (CHR ''a''), be_bytes 8 1 @ ''b'']
     = ([Inr (replicate 4088 (CHR ''a''))], [])"
proof -
  have f: "WriteMsg sample_tlv (Inr ()) (replicate 4088 (CHR ''a'')) = Inr (be_bytes 8 4088 @ replicate 4088 (CHR ''a''))"
    by (simp add: sample_frame)
  show ?thesis
    using full_buffer_loses_next [OF sample_tlv_lib _ f, of "be_bytes 8 1 @ ''b''"] by (simp add: DefaultBufSize_def)
qed

end
