(* ===== verification/Hashmail.thy ===== *)
theory Hashmail
  imports Hashmail_Pipe
begin

text \<open>
  \<^verbatim>\<open>aperture/hashmail_server.go\<close>: the mailbox server. Mailboxes live in a map from identifiers to
  streams; a stream hands out its read side and its write side to one user each, and is torn down by
  a request or by a timer that runs while neither side is in use.

  Streams are objects: the map holds references into a heap of streams, so that a stream that was
  removed from the map but is still held by a handler is not confused with a new one of the same
  identifier. The callback of a timer that has fired runs later, as a step of its own, because it
  has to wait for the server's lock; \<open>hm_pending\<close> holds the callbacks that have not run yet.
  A mutex makes what it guards one step. Taking a side and giving it back are two steps each, as in
  the code: the channel operation, and then the update of the occupancy under the lock of the status,
  with other handlers in between. The look-up holds the server's lock for reading over both of its
  steps, which keeps out the operations that lock it for writing; giving back holds no lock between
  them. Metrics are not modelled.
\<close>

type_synonym streamID = bytes

definition newStreamID :: "bytes \<Rightarrow> streamID" where
  "newStreamID i = to_array 64 i"

definition baseID :: "streamID \<Rightarrow> bytes" where
  "baseID s = to_array 16 (take 16 s)"

definition isOdd :: "streamID \<Rightarrow> bool" where
  "isOdd s = odd (byte_val (s ! 63))"

subsection \<open>Occupancy\<close>

record streamStatus =
  disabled :: bool
  staleTimeout :: int
  staleTimer :: bool
  readStreamOccupied :: bool
  writeStreamOccupied :: bool

definition newStreamStatus :: "int \<Rightarrow> streamStatus" where
  "newStreamStatus timeout =
     (if timeout < 0 then \<lparr>disabled = True, staleTimeout = 0, staleTimer = False, readStreamOccupied = False, writeStreamOccupied = False\<rparr>
      else \<lparr>disabled = False, staleTimeout = timeout, staleTimer = True, readStreamOccupied = False, writeStreamOccupied = False\<rparr>)"

definition status_stop :: "streamStatus \<Rightarrow> streamStatus" where
  "status_stop s = (if disabled s then s else s\<lparr>staleTimer := False\<rparr>)"

definition streamTaken :: "bool \<Rightarrow> streamStatus \<Rightarrow> streamStatus" where
  "streamTaken read s =
     (if disabled s then s
      else (if read then s\<lparr>readStreamOccupied := True\<rparr> else s\<lparr>writeStreamOccupied := True\<rparr>)\<lparr>staleTimer := False\<rparr>)"

definition streamReturned :: "bool \<Rightarrow> streamStatus \<Rightarrow> streamStatus" where
  "streamReturned read s =
     (if disabled s then s
      else
        let s' = (if read then s\<lparr>readStreamOccupied := False\<rparr> else s\<lparr>writeStreamOccupied := False\<rparr>) in
        if \<not> readStreamOccupied s' \<and> \<not> writeStreamOccupied s' then s'\<lparr>staleTimer := True\<rparr> else s')"

subsection \<open>Streams\<close>

text \<open>The two holding channels have room for one element; \<open>hs_quit\<close> is a closed channel \<^verbatim>\<open>quit\<close>.\<close>

record stream =
  hs_id :: streamID
  hs_readStreamChan :: bool
  hs_writeStreamChan :: bool
  hs_quit :: bool
  hs_status :: streamStatus

definition newStream :: "streamID \<Rightarrow> int \<Rightarrow> stream" where
  "newStream i timeout =
     \<lparr>hs_id = i, hs_readStreamChan = True, hs_writeStreamChan = True, hs_quit = False, hs_status = newStreamStatus timeout\<rparr>"

text \<open>Closing the pipe twice is harmless, closing the channel twice panics.\<close>

definition tearDown :: "stream \<Rightarrow> stream \<times> unit result" where
  "tearDown s =
     (let s' = s\<lparr>hs_status := status_stop (hs_status s)\<rparr> in
      if hs_quit s then (s', Inl (Panic ''close of closed channel'')) else (s'\<lparr>hs_quit := True\<rparr>, Inr ()))"

text \<open>
  The four operations on a side are a channel operation followed by an update of the status; the
  argument says which side, as in \<open>streamTaken\<close>.
\<close>

definition chan_full :: "bool \<Rightarrow> stream \<Rightarrow> bool" where
  "chan_full read s = (if read then hs_readStreamChan s else hs_writeStreamChan s)"

definition take_chan :: "bool \<Rightarrow> stream \<Rightarrow> stream" where
  "take_chan read s = (if read then s\<lparr>hs_readStreamChan := False\<rparr> else s\<lparr>hs_writeStreamChan := False\<rparr>)"

definition fill_chan :: "bool \<Rightarrow> stream \<Rightarrow> stream" where
  "fill_chan read s = (if read then s\<lparr>hs_readStreamChan := True\<rparr> else s\<lparr>hs_writeStreamChan := True\<rparr>)"

definition mark_taken :: "bool \<Rightarrow> stream \<Rightarrow> stream" where
  "mark_taken read s = s\<lparr>hs_status := streamTaken read (hs_status s)\<rparr>"

definition mark_returned :: "bool \<Rightarrow> stream \<Rightarrow> stream" where
  "mark_returned read s = s\<lparr>hs_status := streamReturned read (hs_status s)\<rparr>"

definition RequestReadStream :: "stream \<Rightarrow> stream \<times> unit result" where
  "RequestReadStream s =
     (if chan_full True s then (mark_taken True (take_chan True s), Inr ())
      else (s, Inl (Errorf ''read stream occupied'')))"

definition RequestWriteStream :: "stream \<Rightarrow> stream \<times> unit result" where
  "RequestWriteStream s =
     (if chan_full False s then (mark_taken False (take_chan False s), Inr ())
      else (s, Inl (Errorf ''write stream occupied'')))"

definition ReturnReadStream :: "stream \<Rightarrow> stream" where
  "ReturnReadStream s = mark_returned True (fill_chan True s)"

definition ReturnWriteStream :: "stream \<Rightarrow> stream" where
  "ReturnWriteStream s = mark_returned False (fill_chan False s)"

subsection \<open>The server\<close>

record hashMailServerConfig =
  msgRate :: int
  msgBurstAllowance :: int
  cfg_staleTimeout :: int

record hashMailServer =
  streams :: "streamID \<rightharpoonup> nat"
  hm_heap :: "stream list"
  hm_pending :: "streamID list"
  hm_cfg :: hashMailServerConfig

definition DefaultMsgRate :: int where "DefaultMsgRate = 500 * 1000000"
definition DefaultMsgBurstAllowance :: int where "DefaultMsgBurstAllowance = 10"
definition DefaultStaleTimeout :: int where "DefaultStaleTimeout = 3600 * 1000000000"

definition newHashMailServer :: "hashMailServerConfig \<Rightarrow> hashMailServer" where
  "newHashMailServer cfg =
     \<lparr>streams = Map.empty, hm_heap = [], hm_pending = [],
      hm_cfg = \<lparr>msgRate = (if msgRate cfg = 0 then DefaultMsgRate else msgRate cfg),
        msgBurstAllowance = (if msgBurstAllowance cfg = 0 then DefaultMsgBurstAllowance else msgBurstAllowance cfg),
        cfg_staleTimeout = (if cfg_staleTimeout cfg = 0 then DefaultStaleTimeout else cfg_staleTimeout cfg)\<rparr>\<rparr>"

text \<open>Tear down the stream that the map has for an identifier, and remove it.\<close>

definition tearDownStaleStream :: "streamID \<Rightarrow> hashMailServer \<Rightarrow> hashMailServer \<times> unit result" where
  "tearDownStaleStream i h =
     (case streams h i of
        None \<Rightarrow> (h, Inl (Errorf ''stream not found''))
      | Some r \<Rightarrow>
          (case tearDown (hm_heap h ! r) of
             (s, Inl e) \<Rightarrow> (h\<lparr>hm_heap := (hm_heap h)[r := s]\<rparr>, Inl e)
           | (s, Inr _) \<Rightarrow> (h\<lparr>hm_heap := (hm_heap h)[r := s], streams := (streams h)(i := None)\<rparr>, Inr ())))"

text \<open>\<^verbatim>\<open>Stop\<close> tears every stream down but leaves the map as it is; \<open>ids\<close> is the order of iteration.\<close>

fun stop_streams :: "streamID list \<Rightarrow> hashMailServer \<Rightarrow> hashMailServer \<times> unit result" where
  "stop_streams [] h = (h, Inr ())"
| "stop_streams (i # ids) h =
     (case streams h i of
        None \<Rightarrow> stop_streams ids h
      | Some r \<Rightarrow>
          (case tearDown (hm_heap h ! r) of
             (s, Inl e) \<Rightarrow> (h\<lparr>hm_heap := (hm_heap h)[r := s]\<rparr>, Inl e)
           | (s, Inr _) \<Rightarrow> stop_streams ids (h\<lparr>hm_heap := (hm_heap h)[r := s]\<rparr>)))"

record CipherBoxDesc =
  StreamId :: "bytes option"

record CipherBoxAuth =
  cba_Desc :: "CipherBoxDesc option"
  cba_Auth :: "string option"

definition ValidateStreamAuth :: "CipherBoxAuth \<Rightarrow> unit result" where
  "ValidateStreamAuth init = Inr ()"

definition validateAuthReq :: "CipherBoxAuth \<Rightarrow> bytes result" where
  "validateAuthReq req =
     (case cba_Desc req of
        None \<Rightarrow> Inl (Errorf ''cipher box descriptor required'')
      | Some d \<Rightarrow>
          (case StreamId d of
             None \<Rightarrow> Inl (Errorf ''stream_id required'')
           | Some i \<Rightarrow> if cba_Auth req = None then Inl (Errorf ''auth type required'') else Inr i))"

definition InitStream :: "bytes \<Rightarrow> hashMailServer \<Rightarrow> hashMailServer \<times> unit result" where
  "InitStream sid h =
     (let i = newStreamID sid in
      case streams h i of
        Some r \<Rightarrow> (h, Inl (Errorf ''stream already active''))
      | None \<Rightarrow>
          (h\<lparr>streams := (streams h)(i \<mapsto> length (hm_heap h)),
             hm_heap := hm_heap h @ [newStream i (cfg_staleTimeout (hm_cfg h))]\<rparr>, Inr ()))"

text \<open>A look-up returns the reference of the stream whose side was taken.\<close>

definition LookUpReadStream :: "bytes \<Rightarrow> hashMailServer \<Rightarrow> hashMailServer \<times> nat result" where
  "LookUpReadStream sid h =
     (case streams h (newStreamID sid) of
        None \<Rightarrow> (h, Inl (Errorf ''stream not found''))
      | Some r \<Rightarrow>
          (case RequestReadStream (hm_heap h ! r) of
             (s, Inl e) \<Rightarrow> (h, Inl e)
           | (s, Inr _) \<Rightarrow> (h\<lparr>hm_heap := (hm_heap h)[r := s]\<rparr>, Inr r)))"

definition LookUpWriteStream :: "bytes \<Rightarrow> hashMailServer \<Rightarrow> hashMailServer \<times> nat result" where
  "LookUpWriteStream sid h =
     (case streams h (newStreamID sid) of
        None \<Rightarrow> (h, Inl (Errorf ''stream not found''))
      | Some r \<Rightarrow>
          (case RequestWriteStream (hm_heap h ! r) of
             (s, Inl e) \<Rightarrow> (h, Inl e)
           | (s, Inr _) \<Rightarrow> (h\<lparr>hm_heap := (hm_heap h)[r := s]\<rparr>, Inr r)))"

text \<open>The check that only the creator tears a stream down is a constant function.\<close>

definition equivAuth :: "CipherBoxAuth \<Rightarrow> unit result" where
  "equivAuth auth = Inr ()"

definition TearDownStream :: "bytes \<Rightarrow> CipherBoxAuth \<Rightarrow> hashMailServer \<Rightarrow> hashMailServer \<times> unit result" where
  "TearDownStream sid auth h =
     (let i = newStreamID sid in
      case streams h i of
        None \<Rightarrow> (h, Inl (Errorf ''stream not found''))
      | Some r \<Rightarrow>
          (case equivAuth auth of
             Inl e \<Rightarrow> (h, Inl (Errorf ''invalid auth''))
           | Inr _ \<Rightarrow>
               (case ValidateStreamAuth auth of
                  Inl e \<Rightarrow> (h, Inl e)
                | Inr _ \<Rightarrow>
                    (case tearDown (hm_heap h ! r) of
                       (s, Inl e) \<Rightarrow> (h\<lparr>hm_heap := (hm_heap h)[r := s]\<rparr>, Inl e)
                     | (s, Inr _) \<Rightarrow> (h\<lparr>hm_heap := (hm_heap h)[r := s], streams := (streams h)(i := None)\<rparr>, Inr ())))))"

definition NewCipherBox :: "CipherBoxAuth \<Rightarrow> hashMailServer \<Rightarrow> hashMailServer \<times> unit result" where
  "NewCipherBox init h =
     (case validateAuthReq init of
        Inl e \<Rightarrow> (h, Inl e)
      | Inr sid \<Rightarrow>
          (case ValidateStreamAuth init of
             Inl e \<Rightarrow> (h, Inl e)
           | Inr _ \<Rightarrow> InitStream sid h))"

definition DelCipherBox :: "CipherBoxAuth \<Rightarrow> hashMailServer \<Rightarrow> hashMailServer \<times> unit result" where
  "DelCipherBox auth h =
     (case validateAuthReq auth of
        Inl e \<Rightarrow> (h, Inl e)
      | Inr sid \<Rightarrow> TearDownStream sid auth h)"

subsection \<open>The streaming handlers\<close>

record CipherBox =
  cb_Desc :: "CipherBoxDesc option"
  cb_Msg :: bytes

text \<open>
  One turn of \<^verbatim>\<open>SendStream\<close>: whether the context is done, what \<^verbatim>\<open>Recv\<close> returned, what the rate
  limiter said and what the write into the pipe did. The first component of the result are the frames
  written, the second the handler's result, absent while it is still running. The argument of the
  trace line dereferences the descriptor.
\<close>

record send_turn =
  tu_ctxDone :: bool
  tu_Recv :: "CipherBox result"
  tu_Wait :: "unit result"
  tu_Write :: "unit result"

definition write_box :: "tlv_ops \<Rightarrow> send_turn \<Rightarrow> bytes \<Rightarrow> bytes list \<times> unit result" where
  "write_box tlv t msg =
     (case WriteMsg tlv (tu_Wait t) msg of
        Inl e \<Rightarrow> ([], Inl e)
      | Inr fr \<Rightarrow> (case tu_Write t of Inl e \<Rightarrow> ([], Inl e) | Inr _ \<Rightarrow> ([fr], Inr ())))"

fun send_loop :: "tlv_ops \<Rightarrow> send_turn list \<Rightarrow> bytes list \<times> unit result option" where
  "send_loop tlv [] = ([], None)"
| "send_loop tlv (t # ts) =
     (if tu_ctxDone t then ([], Some (Inr ()))
      else (case tu_Recv t of
              Inl e \<Rightarrow> ([], Some (Inl e))
            | Inr box \<Rightarrow>
                if cb_Desc box = None then ([], Some (Inl (Panic ''nil descriptor'')))
                else (case write_box tlv t (cb_Msg box) of
                        (frs, Inl e) \<Rightarrow> (frs, Some (Inl e))
                      | (frs, Inr _) \<Rightarrow> (case send_loop tlv ts of (more_frs, r) \<Rightarrow> (frs @ more_frs, r)))))"

text \<open>The part of \<^verbatim>\<open>SendStream\<close> before the stream is taken: the identifier of the first message.\<close>

definition send_open :: "CipherBox result \<Rightarrow> bytes result" where
  "send_open first =
     rbind first (\<lambda>box.
       case cb_Desc box of
         None \<Rightarrow> Inl (Errorf ''cipher box descriptor required'')
       | Some d \<Rightarrow> (case StreamId d of None \<Rightarrow> Inl (Errorf ''stream_id required'') | Some i \<Rightarrow> Inr i))"

text \<open>
  \<^verbatim>\<open>SendStream\<close> when no other handler runs in between: take the write side, write the first message,
  loop, and return the write side when the handler ends (a panic runs the deferred call as well).
\<close>

definition SendStream :: "tlv_ops \<Rightarrow> send_turn \<Rightarrow> send_turn list \<Rightarrow> hashMailServer
    \<Rightarrow> hashMailServer \<times> bytes list \<times> unit result option" where
  "SendStream tlv first ts h =
     (case send_open (tu_Recv first) of
        Inl e \<Rightarrow> (h, [], Some (Inl e))
      | Inr sid \<Rightarrow>
          (case LookUpWriteStream sid h of
             (h1, Inl e) \<Rightarrow> (h1, [], Some (Inl e))
           | (h1, Inr r) \<Rightarrow>
               let h2 = h1\<lparr>hm_heap := (hm_heap h1)[r := ReturnWriteStream (hm_heap h1 ! r)]\<rparr> in
               (case write_box tlv first (cb_Msg (projr (tu_Recv first))) of
                  (frs, Inl e) \<Rightarrow> (h2, frs, Some (Inl e))
                | (frs, Inr _) \<Rightarrow>
                    (case send_loop tlv ts of
                       (more_frs, None) \<Rightarrow> (h1, frs @ more_frs, None)
                     | (more_frs, Some res) \<Rightarrow> (h2, frs @ more_frs, Some res)))))"

text \<open>One turn of \<^verbatim>\<open>RecvStream\<close>: the context, what the select of \<^verbatim>\<open>ReadNextMsg\<close> got, the send's result.\<close>

record recv_turn =
  rt_ctxDone :: bool
  rt_Chunk :: "bytes result"
  rt_Send :: "unit result"

fun recv_loop :: "tlv_ops \<Rightarrow> recv_turn list \<Rightarrow> bytes list \<times> unit result option" where
  "recv_loop tlv [] = ([], None)"
| "recv_loop tlv (t # ts) =
     (if rt_ctxDone t then ([], Some (Inr ()))
      else (case rbind (rt_Chunk t) (ReadNextMsg tlv) of
              Inl e \<Rightarrow> ([], Some (Inl e))
            | Inr msg \<Rightarrow>
                (case rt_Send t of
                   Inl e \<Rightarrow> ([], Some (Inl e))
                 | Inr _ \<Rightarrow> (case recv_loop tlv ts of (msgs, r) \<Rightarrow> (msg # msgs, r)))))"

definition RecvStream :: "tlv_ops \<Rightarrow> bytes \<Rightarrow> recv_turn list \<Rightarrow> hashMailServer
    \<Rightarrow> hashMailServer \<times> bytes list \<times> unit result option" where
  "RecvStream tlv sid ts h =
     (case LookUpReadStream sid h of
        (h1, Inl e) \<Rightarrow> (h1, [], Some (Inl e))
      | (h1, Inr r) \<Rightarrow>
          (case recv_loop tlv ts of
             (msgs, None) \<Rightarrow> (h1, msgs, None)
           | (msgs, Some res) \<Rightarrow> (h1\<lparr>hm_heap := (hm_heap h1)[r := ReturnReadStream (hm_heap h1 ! r)]\<rparr>, msgs, Some res)))"

subsection \<open>All handlers together\<close>

text \<open>
  The server with the handlers that hold a side of a stream. A side is a reference with the flag that
  tells reading from writing. \<open>sy_held\<close> are the sides between the receive from their channel and the
  send that gives them back, \<open>sy_taking\<close> those of them whose look-up has not yet updated the status,
  \<open>sy_returning\<close> the sides that lie in their channel again while the status of the return is still to be
  updated. One step is a step of some handler, a timer that fires, or the callback of a timer that fired
  before; the callbacks wait for the lock in any order.
\<close>

type_synonym side = "nat \<times> bool"

record hm_system =
  sy_server :: hashMailServer
  sy_held :: "side list"
  sy_taking :: "side list"
  sy_returning :: "side list"
  sy_stopped :: bool

definition sy_readers :: "hm_system \<Rightarrow> nat list" where
  "sy_readers y = map fst (filter snd (sy_held y))"

definition sy_writers :: "hm_system \<Rightarrow> nat list" where
  "sy_writers y = map fst (filter (\<lambda>p. \<not> snd p) (sy_held y))"

datatype hm_event =
    EvNew CipherBoxAuth | EvDel CipherBoxAuth
  | EvTake bool bytes | EvTaken side
  | EvReturn side | EvReturned side
  | EvFire nat | EvStale streamID | EvStop "streamID list"

definition on_stream :: "nat \<Rightarrow> (stream \<Rightarrow> stream) \<Rightarrow> hashMailServer \<Rightarrow> hashMailServer" where
  "on_stream r f h = h\<lparr>hm_heap := (hm_heap h)[r := f (hm_heap h ! r)]\<rparr>"

definition fire :: "nat \<Rightarrow> hashMailServer \<Rightarrow> hashMailServer" where
  "fire r h =
     (if r < length (hm_heap h) \<and> staleTimer (hs_status (hm_heap h ! r))
      then h\<lparr>hm_heap := (hm_heap h)[r := (hm_heap h ! r)\<lparr>hs_status := (hs_status (hm_heap h ! r))\<lparr>staleTimer := False\<rparr>\<rparr>],
             hm_pending := hm_pending h @ [hs_id (hm_heap h ! r)]\<rparr>
      else h)"

fun hm_step :: "hm_event \<Rightarrow> hm_system \<Rightarrow> hm_system" where
  "hm_step (EvNew a) y =
     (if sy_taking y = [] then y\<lparr>sy_server := fst (NewCipherBox a (sy_server y))\<rparr> else y)"
| "hm_step (EvDel a) y =
     (if sy_taking y = [] then y\<lparr>sy_server := fst (DelCipherBox a (sy_server y))\<rparr> else y)"
| "hm_step (EvTake read sid) y =
     (case streams (sy_server y) (newStreamID sid) of
        None \<Rightarrow> y
      | Some r \<Rightarrow>
          if chan_full read (hm_heap (sy_server y) ! r)
          then y\<lparr>sy_server := on_stream r (take_chan read) (sy_server y),
                 sy_held := (r, read) # sy_held y, sy_taking := (r, read) # sy_taking y\<rparr>
          else y)"
| "hm_step (EvTaken p) y =
     (if p \<in> set (sy_taking y)
      then y\<lparr>sy_server := on_stream (fst p) (mark_taken (snd p)) (sy_server y), sy_taking := remove1 p (sy_taking y)\<rparr>
      else y)"
| "hm_step (EvReturn p) y =
     (if p \<in> set (sy_held y) \<and> p \<notin> set (sy_taking y)
      then y\<lparr>sy_server := on_stream (fst p) (fill_chan (snd p)) (sy_server y),
             sy_held := remove1 p (sy_held y), sy_returning := p # sy_returning y\<rparr>
      else y)"
| "hm_step (EvReturned p) y =
     (if p \<in> set (sy_returning y)
      then y\<lparr>sy_server := on_stream (fst p) (mark_returned (snd p)) (sy_server y), sy_returning := remove1 p (sy_returning y)\<rparr>
      else y)"
| "hm_step (EvFire r) y = y\<lparr>sy_server := fire r (sy_server y)\<rparr>"
| "hm_step (EvStale i) y =
     (if i \<in> set (hm_pending (sy_server y)) \<and> sy_taking y = []
      then y\<lparr>sy_server := fst (tearDownStaleStream i
               ((sy_server y)\<lparr>hm_pending := remove1 i (hm_pending (sy_server y))\<rparr>))\<rparr>
      else y)"
| "hm_step (EvStop ids) y =
     (if sy_taking y = [] then y\<lparr>sy_server := fst (stop_streams ids (sy_server y)), sy_stopped := True\<rparr> else y)"

definition hm_init :: "hashMailServerConfig \<Rightarrow> hm_system" where
  "hm_init cfg =
     \<lparr>sy_server = newHashMailServer cfg, sy_held = [], sy_taking = [], sy_returning = [], sy_stopped = False\<rparr>"

inductive hm_reach :: "hashMailServerConfig \<Rightarrow> hm_system \<Rightarrow> bool" for cfg where
  hm_start: "hm_reach cfg (hm_init cfg)"
| hm_next: "hm_reach cfg y \<Longrightarrow> hm_reach cfg (hm_step ev y)"

subsection \<open>The invariant\<close>

text \<open>The two steps of a look-up, run one after the other, are the look-up.\<close>

lemma lookup_in_two_steps:
  assumes "streams (sy_server y) (newStreamID sid) = Some r" and "r < length (hm_heap (sy_server y))"
  shows "chan_full True (hm_heap (sy_server y) ! r) \<Longrightarrow>
      sy_server (hm_step (EvTaken (r, True)) (hm_step (EvTake True sid) y)) = fst (LookUpReadStream sid (sy_server y))"
    and "chan_full False (hm_heap (sy_server y) ! r) \<Longrightarrow>
      sy_server (hm_step (EvTaken (r, False)) (hm_step (EvTake False sid) y)) = fst (LookUpWriteStream sid (sy_server y))"
  using assms by (simp_all add: on_stream_def LookUpReadStream_def LookUpWriteStream_def RequestReadStream_def RequestWriteStream_def)

text \<open>
  One stream, given how many handlers hold each of its sides and how many returns of each side have not
  updated the status yet: a side is held by one handler or lies in its channel. A side that is neither
  held nor on its way back is not marked as occupied, and a stream that is not torn down and has no side
  held or on its way back has its timer running or its callback waiting. While a side is in use its
  mark may be wrong, and the timer may run: the return of an earlier user may update the status late.
\<close>

definition occupied :: "bool \<Rightarrow> stream \<Rightarrow> bool" where
  "occupied read s = (if read then readStreamOccupied (hs_status s) else writeStreamOccupied (hs_status s))"

definition stream_ok :: "streamID list \<Rightarrow> (bool \<Rightarrow> nat) \<Rightarrow> (bool \<Rightarrow> nat) \<Rightarrow> stream \<Rightarrow> bool" where
  "stream_ok pending held returning s \<longleftrightarrow>
     (\<forall>b. held b = (if chan_full b s then 0 else 1)) \<and>
     (disabled (hs_status s) \<or>
      (\<forall>b. held b + returning b = 0 \<longrightarrow> \<not> occupied b s) \<and>
      (\<not> hs_quit s \<and> (\<forall>b. held b + returning b = 0) \<longrightarrow> staleTimer (hs_status s) \<or> hs_id s \<in> set pending))"

lemma all_sides: "(\<forall>b::bool. P b) \<longleftrightarrow> P True \<and> P False"
  by (metis (full_types))

lemma stream_ok_new: "stream_ok pending (\<lambda>_. 0) (\<lambda>_. 0) (newStream i t)"
  by (simp add: stream_ok_def newStream_def newStreamStatus_def chan_full_def occupied_def)

lemma stream_ok_tearDown:
  "stream_ok pending m n s \<Longrightarrow> stream_ok pending' m n (fst (tearDown s))"
  by (simp add: stream_ok_def tearDown_def status_stop_def chan_full_def occupied_def Let_def all_sides) auto

lemma stream_ok_take:
  "stream_ok pending m n s \<Longrightarrow> chan_full b s \<Longrightarrow> stream_ok pending (m(b := Suc (m b))) n (take_chan b s)"
  by (cases b) (simp_all add: stream_ok_def all_sides take_chan_def chan_full_def occupied_def, auto)

lemma stream_ok_taken:
  "stream_ok pending m n s \<Longrightarrow> 0 < m b \<Longrightarrow> stream_ok pending m n (mark_taken b s)"
  by (cases b) (simp_all add: stream_ok_def all_sides mark_taken_def streamTaken_def chan_full_def occupied_def, auto)

lemma stream_ok_return:
  "stream_ok pending m n s \<Longrightarrow> 0 < m b \<Longrightarrow> stream_ok pending (m(b := m b - 1)) (n(b := Suc (n b))) (fill_chan b s)"
  by (cases b) (simp_all add: stream_ok_def all_sides fill_chan_def chan_full_def occupied_def, auto)

lemma stream_ok_returned:
  "stream_ok pending m n s \<Longrightarrow> 0 < n b \<Longrightarrow> stream_ok pending m (n(b := n b - 1)) (mark_returned b s)"
  by (cases b) (simp_all add: stream_ok_def all_sides mark_returned_def streamReturned_def chan_full_def occupied_def Let_def, auto)

lemma stream_ok_fire:
  "stream_ok pending m n s \<Longrightarrow> stream_ok (pending @ [hs_id s]) m n (s\<lparr>hs_status := (hs_status s)\<lparr>staleTimer := False\<rparr>\<rparr>)"
  by (auto simp: stream_ok_def chan_full_def occupied_def)

lemma stream_ok_pending:
  "stream_ok pending m n s \<Longrightarrow> hs_quit s \<or> hs_id s \<notin> set pending \<or> hs_id s \<in> set pending' \<Longrightarrow> stream_ok pending' m n s"
  by (auto simp: stream_ok_def)

text \<open>The whole system.\<close>

definition sides :: "side list \<Rightarrow> nat \<Rightarrow> bool \<Rightarrow> nat" where
  "sides ps r b = count_list ps (r, b)"

definition hm_inv :: "hm_system \<Rightarrow> bool" where
  "hm_inv y \<longleftrightarrow>
     (\<forall>i r. streams (sy_server y) i = Some r \<longrightarrow> r < length (hm_heap (sy_server y)) \<and> hs_id (hm_heap (sy_server y) ! r) = i \<and>
        (\<not> sy_stopped y \<longrightarrow> \<not> hs_quit (hm_heap (sy_server y) ! r))) \<and>
     (\<forall>r < length (hm_heap (sy_server y)).
        (\<not> hs_quit (hm_heap (sy_server y) ! r) \<longrightarrow> streams (sy_server y) (hs_id (hm_heap (sy_server y) ! r)) = Some r) \<and>
        stream_ok (hm_pending (sy_server y)) (sides (sy_held y) r) (sides (sy_returning y) r) (hm_heap (sy_server y) ! r)) \<and>
     (\<forall>p \<in> set (sy_held y) \<union> set (sy_returning y). fst p < length (hm_heap (sy_server y))) \<and>
     set (sy_taking y) \<subseteq> set (sy_held y)"

lemma hm_invD:
  assumes "hm_inv y"
  shows "streams (sy_server y) i = Some r \<Longrightarrow> r < length (hm_heap (sy_server y)) \<and> hs_id (hm_heap (sy_server y) ! r) = i \<and>
      (\<not> sy_stopped y \<longrightarrow> \<not> hs_quit (hm_heap (sy_server y) ! r))"
    and "r < length (hm_heap (sy_server y)) \<Longrightarrow> \<not> hs_quit (hm_heap (sy_server y) ! r) \<Longrightarrow>
      streams (sy_server y) (hs_id (hm_heap (sy_server y) ! r)) = Some r"
    and "r < length (hm_heap (sy_server y)) \<Longrightarrow>
      stream_ok (hm_pending (sy_server y)) (sides (sy_held y) r) (sides (sy_returning y) r) (hm_heap (sy_server y) ! r)"
    and "p \<in> set (sy_held y) \<union> set (sy_returning y) \<Longrightarrow> fst p < length (hm_heap (sy_server y))"
    and "p \<in> set (sy_taking y) \<Longrightarrow> p \<in> set (sy_held y)"
  using assms unfolding hm_inv_def by blast+

text \<open>A change of one stream that keeps its identifier and its being open or closed.\<close>

lemma hm_inv_update:
  assumes inv: "hm_inv y" and r: "r < length (hm_heap (sy_server y))"
    and same: "hs_id (f (hm_heap (sy_server y) ! r)) = hs_id (hm_heap (sy_server y) ! r)"
      "hs_quit (f (hm_heap (sy_server y) ! r)) = hs_quit (hm_heap (sy_server y) ! r)"
    and ok: "stream_ok (hm_pending (sy_server y)) (sides held r) (sides returning r) (f (hm_heap (sy_server y) ! r))"
    and others: "\<And>q. q \<noteq> r \<Longrightarrow> sides held q = sides (sy_held y) q \<and> sides returning q = sides (sy_returning y) q"
    and sub: "set held \<union> set returning \<subseteq> set (sy_held y) \<union> set (sy_returning y) \<union> {r} \<times> UNIV"
    and taking: "set taking \<subseteq> set held"
  shows "hm_inv (y\<lparr>sy_server := on_stream r f (sy_server y), sy_held := held, sy_taking := taking, sy_returning := returning\<rparr>)"
proof -
  let ?s' = "f (hm_heap (sy_server y) ! r)"
  have nth: "(hm_heap (sy_server y))[r := ?s'] ! q = (if q = r then ?s' else hm_heap (sy_server y) ! q)"
    if "q < length (hm_heap (sy_server y))" for q using that r by (simp add: nth_list_update)
  have a: "\<forall>i q. streams (sy_server y) i = Some q \<longrightarrow> q < length (hm_heap (sy_server y)) \<and>
      hs_id ((hm_heap (sy_server y))[r := ?s'] ! q) = i \<and> (\<not> sy_stopped y \<longrightarrow> \<not> hs_quit ((hm_heap (sy_server y))[r := ?s'] ! q))"
    using hm_invD(1) [OF inv] same by (metis nth)
  have b: "\<not> hs_quit ((hm_heap (sy_server y))[r := ?s'] ! q) \<longrightarrow>
      streams (sy_server y) (hs_id ((hm_heap (sy_server y))[r := ?s'] ! q)) = Some q" if "q < length (hm_heap (sy_server y))" for q
    using hm_invD(2) [OF inv that] same by (auto simp: nth [OF that])
  have c: "stream_ok (hm_pending (sy_server y)) (sides held q) (sides returning q) ((hm_heap (sy_server y))[r := ?s'] ! q)"
    if "q < length (hm_heap (sy_server y))" for q
    using hm_invD(3) [OF inv that] ok others [of q] by (simp add: nth [OF that])
  have d: "\<forall>p \<in> set held \<union> set returning. fst p < length (hm_heap (sy_server y))"
    using sub hm_invD(4) [OF inv] r by (auto dest!: subsetD)
  show ?thesis unfolding hm_inv_def on_stream_def using a b c d taking by simp
qed

text \<open>Tearing a stream down: it becomes closed, and unless the server is stopping it leaves the map.\<close>

lemma hm_inv_close:
  assumes inv: "hm_inv y" and i: "streams (sy_server y) i = Some r"
    and pend: "set (hm_pending (sy_server y)) \<subseteq> insert i (set pend)"
    and keep: "strs = (streams (sy_server y))(i := None) \<or> strs = streams (sy_server y) \<and> sy_stopped y"
  shows "hm_inv (y\<lparr>sy_server := (sy_server y)\<lparr>hm_heap := (hm_heap (sy_server y))[r := fst (tearDown (hm_heap (sy_server y) ! r))],
     streams := strs, hm_pending := pend\<rparr>\<rparr>)"
proof -
  let ?s = "hm_heap (sy_server y) ! r"
  have r: "r < length (hm_heap (sy_server y))" and id: "hs_id ?s = i" using hm_invD(1) [OF inv i] by auto
  have t: "hs_id (fst (tearDown ?s)) = i" "hs_quit (fst (tearDown ?s))" using id by (simp_all add: tearDown_def Let_def)
  have nth: "(hm_heap (sy_server y))[r := fst (tearDown ?s)] ! q = (if q = r then fst (tearDown ?s) else hm_heap (sy_server y) ! q)"
    if "q < length (hm_heap (sy_server y))" for q using that r by (simp add: nth_list_update)
  have a: "\<forall>j q. strs j = Some q \<longrightarrow> q < length (hm_heap (sy_server y)) \<and> hs_id ((hm_heap (sy_server y))[r := fst (tearDown ?s)] ! q) = j \<and>
      (\<not> sy_stopped y \<longrightarrow> \<not> hs_quit ((hm_heap (sy_server y))[r := fst (tearDown ?s)] ! q))"
  proof (intro allI impI)
    fix j q assume "strs j = Some q"
    then have j: "streams (sy_server y) j = Some q" and ns: "\<not> sy_stopped y \<longrightarrow> j \<noteq> i" using keep by (auto split: if_splits)
    from hm_invD(1) [OF inv j] ns id t show "q < length (hm_heap (sy_server y)) \<and>
        hs_id ((hm_heap (sy_server y))[r := fst (tearDown ?s)] ! q) = j \<and>
        (\<not> sy_stopped y \<longrightarrow> \<not> hs_quit ((hm_heap (sy_server y))[r := fst (tearDown ?s)] ! q))"
      by (cases "q = r") (auto simp: nth)
  qed
  have b: "\<not> hs_quit ((hm_heap (sy_server y))[r := fst (tearDown ?s)] ! q) \<longrightarrow>
      strs (hs_id ((hm_heap (sy_server y))[r := fst (tearDown ?s)] ! q)) = Some q" if q: "q < length (hm_heap (sy_server y))" for q
    using hm_invD(2) [OF inv q] keep i t(2) by (auto simp: nth [OF q])
  have c: "stream_ok pend (sides (sy_held y) q) (sides (sy_returning y) q) ((hm_heap (sy_server y))[r := fst (tearDown ?s)] ! q)"
    if q: "q < length (hm_heap (sy_server y))" for q
  proof (cases "q = r")
    case True
    then show ?thesis using stream_ok_tearDown [OF hm_invD(3) [OF inv q]] q by (simp add: nth)
  next
    case False
    then have "hs_quit (hm_heap (sy_server y) ! q) \<or> hs_id (hm_heap (sy_server y) ! q) \<noteq> i"
      using hm_invD(2) [OF inv q] i by auto
    then show ?thesis using stream_ok_pending [OF hm_invD(3) [OF inv q]] False pend q by (auto simp: nth)
  qed
  have d: "\<forall>p \<in> set (sy_held y) \<union> set (sy_returning y). fst p < length (hm_heap (sy_server y))" "set (sy_taking y) \<subseteq> set (sy_held y)"
    using hm_invD(4,5) [OF inv] by blast+
  show ?thesis unfolding hm_inv_def using a b c d by simp
qed

lemma hm_inv_new:
  assumes inv: "hm_inv y" and i: "streams (sy_server y) i = None"
  shows "hm_inv (y\<lparr>sy_server := (sy_server y)\<lparr>streams := (streams (sy_server y))(i \<mapsto> length (hm_heap (sy_server y))),
     hm_heap := hm_heap (sy_server y) @ [newStream i t]\<rparr>\<rparr>)"
proof -
  let ?n = "length (hm_heap (sy_server y))"
  have "sides (sy_held y) ?n b = 0 \<and> sides (sy_returning y) ?n b = 0" for b
    using hm_invD(4) [OF inv, of "(?n, b)"] by (auto simp: sides_def count_list_0_iff)
  then have cnt: "sides (sy_held y) ?n = (\<lambda>_. 0)" "sides (sy_returning y) ?n = (\<lambda>_. 0)" by auto
  have new: "stream_ok (hm_pending (sy_server y)) (sides (sy_held y) ?n) (sides (sy_returning y) ?n) (newStream i t)"
    unfolding cnt by (rule stream_ok_new)
  have "hs_id (newStream i t) = i" "\<not> hs_quit (newStream i t)" by (simp_all add: newStream_def)
  then show ?thesis
    unfolding hm_inv_def using hm_invD [OF inv] i new
    by (auto simp: nth_append less_Suc_eq split: if_splits) fastforce+
qed

lemma count_list_remove1: "count_list (remove1 x xs) y = (if x = y \<and> x \<in> set xs then count_list xs y - 1 else count_list xs y)"
  by (induction xs) auto

lemma set_sub_remove1: "set xs \<subseteq> insert x (set (remove1 x xs))"
  by (induction xs) auto

lemma NewCipherBox_cases:
  obtains "fst (NewCipherBox a h) = h"
  | i where "streams h i = None" and "fst (NewCipherBox a h) =
      h\<lparr>streams := (streams h)(i \<mapsto> length (hm_heap h)), hm_heap := hm_heap h @ [newStream i (cfg_staleTimeout (hm_cfg h))]\<rparr>"
proof (cases "validateAuthReq a")
  case (Inl e)
  then show ?thesis using that(1) by (simp add: NewCipherBox_def)
next
  case (Inr sid)
  then show ?thesis
    using that by (cases "streams h (newStreamID sid)") (auto simp: NewCipherBox_def ValidateStreamAuth_def InitStream_def Let_def)
qed

text \<open>What removing a mailbox does, by request or by the timer.\<close>

lemma tearDown_open: "\<not> hs_quit s \<Longrightarrow> snd (tearDown s) = Inr ()"
  by (simp add: tearDown_def Let_def)

lemma remove_cases:
  assumes "out = (case streams h i of
        None \<Rightarrow> (h, Inl (Errorf ''stream not found''))
      | Some r \<Rightarrow>
          (case tearDown (hm_heap h ! r) of
             (s, Inl e) \<Rightarrow> (h\<lparr>hm_heap := (hm_heap h)[r := s]\<rparr>, Inl e)
           | (s, Inr _) \<Rightarrow> (h\<lparr>hm_heap := (hm_heap h)[r := s], streams := (streams h)(i := None)\<rparr>, Inr ())))"
  obtains (absent) "streams h i = None" "fst out = h"
  | (closed) r where "streams h i = Some r" "hs_quit (hm_heap h ! r)"
      "fst out = h\<lparr>hm_heap := (hm_heap h)[r := fst (tearDown (hm_heap h ! r))], streams := streams h, hm_pending := hm_pending h\<rparr>"
  | (removed) r where "streams h i = Some r" "fst out =
      h\<lparr>hm_heap := (hm_heap h)[r := fst (tearDown (hm_heap h ! r))], streams := (streams h)(i := None), hm_pending := hm_pending h\<rparr>"
  using assms by (auto simp: tearDown_def Let_def split: option.splits if_splits)

lemma hm_inv_remove:
  assumes inv: "hm_inv y" and sub: "set (hm_pending (sy_server y)) \<subseteq> insert i (set post)"
    and out: "out = tearDownStaleStream i ((sy_server y)\<lparr>hm_pending := post\<rparr>)"
  shows "hm_inv (y\<lparr>sy_server := fst out\<rparr>)"
proof -
  let ?h = "(sy_server y)\<lparr>hm_pending := post\<rparr>"
  from out [unfolded tearDownStaleStream_def] show ?thesis
  proof (cases rule: remove_cases)
    case absent
    then have "hs_quit (hm_heap (sy_server y) ! q) \<or> hs_id (hm_heap (sy_server y) ! q) \<noteq> i"
      if "q < length (hm_heap (sy_server y))" for q using hm_invD(2) [OF inv that] by auto
    then have "stream_ok post (sides (sy_held y) q) (sides (sy_returning y) q) (hm_heap (sy_server y) ! q)"
      if "q < length (hm_heap (sy_server y))" for q
      using stream_ok_pending [OF hm_invD(3) [OF inv that]] that sub by blast
    then show ?thesis using absent hm_invD [OF inv] unfolding hm_inv_def by auto
  next
    case (closed r)
    then have "sy_stopped y" using hm_invD(1) [OF inv, of i r] by auto
    then show ?thesis using hm_inv_close [OF inv _ sub, of r "streams (sy_server y)"] closed by auto
  next
    case (removed r)
    then show ?thesis using hm_inv_close [OF inv _ sub, of r "(streams (sy_server y))(i := None)"] by auto
  qed
qed

lemma DelCipherBox_cases:
  obtains "fst (DelCipherBox a h) = h"
  | i where "fst (DelCipherBox a h) = fst (tearDownStaleStream i h)"
proof (cases "validateAuthReq a")
  case (Inl e)
  then show ?thesis using that(1) by (simp add: DelCipherBox_def)
next
  case (Inr sid)
  then have "fst (DelCipherBox a h) = fst (tearDownStaleStream (newStreamID sid) h)"
    by (simp add: DelCipherBox_def TearDownStream_def equivAuth_def ValidateStreamAuth_def tearDownStaleStream_def
        Let_def cong: option.case_cong)
  then show ?thesis by (rule that(2))
qed

lemma stop_streams_inv:
  "hm_inv y \<Longrightarrow> sy_stopped y \<Longrightarrow> hm_inv (y\<lparr>sy_server := fst (stop_streams ids (sy_server y))\<rparr>)"
proof (induction ids arbitrary: y)
  case (Cons i ids)
  show ?case
  proof (cases "streams (sy_server y) i")
    case None
    with Cons show ?thesis by simp
  next
    case (Some r)
    let ?h = "(sy_server y)\<lparr>hm_heap := (hm_heap (sy_server y))[r := fst (tearDown (hm_heap (sy_server y) ! r))]\<rparr>"
    have c: "hm_inv (y\<lparr>sy_server := ?h\<rparr>)"
      using hm_inv_close [OF Cons.prems(1) Some subset_insertI, of "streams (sy_server y)"] Cons.prems(2) by simp
    from Cons.IH [OF this] Cons.prems(2) c show ?thesis
      by (cases "tearDown (hm_heap (sy_server y) ! r)"; cases "snd (tearDown (hm_heap (sy_server y) ! r))") (simp_all add: Some)
  qed
qed simp

lemma hm_inv_stopped: "hm_inv y \<Longrightarrow> hm_inv (y\<lparr>sy_stopped := True\<rparr>)"
  by (simp add: hm_inv_def)

text \<open>The four steps of the handlers.\<close>

lemma sides_simps:
  "sides ((r, b) # ps) r = (sides ps r)(b := Suc (sides ps r b))"
  "q \<noteq> r \<Longrightarrow> sides ((r, b) # ps) q = sides ps q"
  "(r, b) \<in> set ps \<Longrightarrow> sides (remove1 (r, b) ps) r = (sides ps r)(b := sides ps r b - 1)"
  "q \<noteq> r \<Longrightarrow> sides (remove1 (r, b) ps) q = sides ps q"
  "0 < sides ps r b \<longleftrightarrow> (r, b) \<in> set ps"
  by (auto simp: sides_def fun_eq_iff count_list_remove1 count_list_0_iff neq0_conv [symmetric] simp del: neq0_conv)

lemma side_keeps:
  "hs_id (take_chan b s) = hs_id s" "hs_quit (take_chan b s) = hs_quit s"
  "hs_id (fill_chan b s) = hs_id s" "hs_quit (fill_chan b s) = hs_quit s"
  "hs_id (mark_taken b s) = hs_id s" "hs_quit (mark_taken b s) = hs_quit s"
  "hs_id (mark_returned b s) = hs_id s" "hs_quit (mark_returned b s) = hs_quit s"
  by (simp_all add: take_chan_def fill_chan_def mark_taken_def mark_returned_def)

lemma hm_inv_take:
  assumes inv: "hm_inv y"
  shows "hm_inv (hm_step (EvTake b sid) y)"
proof (cases "streams (sy_server y) (newStreamID sid)")
  case (Some r)
  have r: "r < length (hm_heap (sy_server y))" using hm_invD(1) [OF inv Some] by blast
  have "hm_inv (y\<lparr>sy_server := on_stream r (take_chan b) (sy_server y), sy_held := (r, b) # sy_held y,
      sy_taking := (r, b) # sy_taking y, sy_returning := sy_returning y\<rparr>)" if "chan_full b (hm_heap (sy_server y) ! r)"
    using stream_ok_take [OF hm_invD(3) [OF inv r] that] hm_invD(5) [OF inv]
    by (intro hm_inv_update [OF inv r]) (auto simp: side_keeps sides_simps)
  then show ?thesis using Some inv by simp
qed (use inv in simp)

lemma hm_inv_taken:
  assumes inv: "hm_inv y"
  shows "hm_inv (hm_step (EvTaken (r, b)) y)"
proof (cases "(r, b) \<in> set (sy_taking y)")
  case True
  then have held: "(r, b) \<in> set (sy_held y)" by (rule hm_invD(5) [OF inv])
  have r: "r < length (hm_heap (sy_server y))" using hm_invD(4) [OF inv, of "(r, b)"] held by simp
  have "0 < sides (sy_held y) r b" using held by (simp add: sides_simps)
  then have "hm_inv (y\<lparr>sy_server := on_stream r (mark_taken b) (sy_server y), sy_held := sy_held y,
      sy_taking := remove1 (r, b) (sy_taking y), sy_returning := sy_returning y\<rparr>)"
    using stream_ok_taken [OF hm_invD(3) [OF inv r]] hm_invD(5) [OF inv] set_remove1_subset [of "(r, b)" "sy_taking y"]
    by (intro hm_inv_update [OF inv r]) (auto simp: side_keeps)
  then show ?thesis using True by simp
qed (use inv in simp)

lemma hm_inv_return:
  assumes inv: "hm_inv y"
  shows "hm_inv (hm_step (EvReturn (r, b)) y)"
proof (cases "(r, b) \<in> set (sy_held y) \<and> (r, b) \<notin> set (sy_taking y)")
  case True
  have r: "r < length (hm_heap (sy_server y))" using hm_invD(4) [OF inv, of "(r, b)"] True by simp
  have "0 < sides (sy_held y) r b" using True by (simp add: sides_simps)
  then have "hm_inv (y\<lparr>sy_server := on_stream r (fill_chan b) (sy_server y), sy_held := remove1 (r, b) (sy_held y),
      sy_taking := sy_taking y, sy_returning := (r, b) # sy_returning y\<rparr>)"
    using stream_ok_return [OF hm_invD(3) [OF inv r]] hm_invD(5) [OF inv] True set_remove1_subset [of "(r, b)" "sy_held y"]
    by (intro hm_inv_update [OF inv r]) (auto simp: side_keeps sides_simps intro: in_set_remove1 [THEN iffD2])
  then show ?thesis using True by simp
qed (use inv in auto)

lemma hm_inv_returned:
  assumes inv: "hm_inv y"
  shows "hm_inv (hm_step (EvReturned (r, b)) y)"
proof (cases "(r, b) \<in> set (sy_returning y)")
  case True
  have r: "r < length (hm_heap (sy_server y))" using hm_invD(4) [OF inv, of "(r, b)"] True by simp
  have "0 < sides (sy_returning y) r b" using True by (simp add: sides_simps)
  then have "hm_inv (y\<lparr>sy_server := on_stream r (mark_returned b) (sy_server y), sy_held := sy_held y,
      sy_taking := sy_taking y, sy_returning := remove1 (r, b) (sy_returning y)\<rparr>)"
    using stream_ok_returned [OF hm_invD(3) [OF inv r]] hm_invD(5) [OF inv] True set_remove1_subset [of "(r, b)" "sy_returning y"]
    by (intro hm_inv_update [OF inv r]) (auto simp: side_keeps sides_simps)
  then show ?thesis using True by simp
qed (use inv in simp)

lemma hm_inv_fire:
  assumes inv: "hm_inv y"
  shows "hm_inv (y\<lparr>sy_server := fire r (sy_server y)\<rparr>)"
proof (cases "r < length (hm_heap (sy_server y)) \<and> staleTimer (hs_status (hm_heap (sy_server y) ! r))")
  case True
  let ?s = "hm_heap (sy_server y) ! r"
  let ?s' = "?s\<lparr>hs_status := (hs_status ?s)\<lparr>staleTimer := False\<rparr>\<rparr>"
  let ?p = "hm_pending (sy_server y) @ [hs_id ?s]"
  have all: "stream_ok ?p (sides (sy_held y) q) (sides (sy_returning y) q)
      ((hm_heap (sy_server y))[r := ?s'] ! q)" if "q < length (hm_heap (sy_server y))" for q
    using stream_ok_fire [OF hm_invD(3) [OF inv that]] stream_ok_pending [OF hm_invD(3) [OF inv that], of ?p] that True
    by (cases "q = r") (auto simp: nth_list_update)
  have same: "hs_id ((hm_heap (sy_server y))[r := ?s'] ! q) = hs_id (hm_heap (sy_server y) ! q)"
    "hs_quit ((hm_heap (sy_server y))[r := ?s'] ! q) = hs_quit (hm_heap (sy_server y) ! q)"
    if "q < length (hm_heap (sy_server y))" for q using that by (cases "q = r"; simp)+
  show ?thesis using all same hm_invD [OF inv] True unfolding hm_inv_def fire_def by auto
qed (use inv in \<open>auto simp: fire_def\<close>)

lemma hm_reach_inv: "hm_reach cfg y \<Longrightarrow> hm_inv y"
proof (induction rule: hm_reach.induct)
  case hm_start
  show ?case by (simp add: hm_inv_def hm_init_def newHashMailServer_def)
next
  case (hm_next y ev)
  note inv = hm_next.IH
  show ?case
  proof (cases ev)
    case (EvNew a)
    then show ?thesis
      using inv hm_inv_new [OF inv] by (cases rule: NewCipherBox_cases [of a "sy_server y"]) auto
  next
    case (EvDel a)
    have "hm_inv (y\<lparr>sy_server := fst (tearDownStaleStream i (sy_server y))\<rparr>)" for i
      using hm_inv_remove [OF inv _ refl, of i "hm_pending (sy_server y)"] by auto
    then show ?thesis using EvDel inv by (cases rule: DelCipherBox_cases [of a "sy_server y"]) auto
  next
    case (EvStale i)
    from hm_inv_remove [OF inv set_sub_remove1 refl] show ?thesis using EvStale inv by simp
  next
    case (EvStop ids)
    have eq: "y\<lparr>sy_server := fst (stop_streams ids (sy_server y)), sy_stopped := True\<rparr> =
        y\<lparr>sy_stopped := True, sy_server := fst (stop_streams ids (sy_server (y\<lparr>sy_stopped := True\<rparr>)))\<rparr>"
      by (cases y) simp
    have "hm_inv (y\<lparr>sy_server := fst (stop_streams ids (sy_server y)), sy_stopped := True\<rparr>)"
      unfolding eq by (rule stop_streams_inv [OF hm_inv_stopped [OF inv]]) simp
    then show ?thesis using EvStop inv by simp
  next
    case (EvTaken p)
    then show ?thesis using hm_inv_taken [OF inv] by (cases p) (simp del: hm_step.simps)
  next
    case (EvReturn p)
    then show ?thesis using hm_inv_return [OF inv] by (cases p) (simp del: hm_step.simps)
  next
    case (EvReturned p)
    then show ?thesis using hm_inv_returned [OF inv] by (cases p) (simp del: hm_step.simps)
  qed (use hm_inv_take [OF inv] hm_inv_fire [OF inv] in \<open>simp_all\<close>)
qed










lemma readers_count:
  "count_list (sy_readers y) r = sides (sy_held y) r True" "count_list (sy_writers y) r = sides (sy_held y) r False"
proof -
  have "count_list (map fst (filter snd ps)) r = count_list ps (r, True) \<and>
      count_list (map fst (filter (\<lambda>p. \<not> snd p) ps)) r = count_list ps (r, False)" for ps :: "side list"
    by (induction ps) auto
  then show "count_list (sy_readers y) r = sides (sy_held y) r True" "count_list (sy_writers y) r = sides (sy_held y) r False"
    by (simp_all add: sy_readers_def sy_writers_def sides_def)
qed

lemma held_iff: "r \<in> set (sy_readers y) \<longleftrightarrow> (r, True) \<in> set (sy_held y)" "r \<in> set (sy_writers y) \<longleftrightarrow> (r, False) \<in> set (sy_held y)"
  by (force simp: sy_readers_def sy_writers_def)+

subsection \<open>Properties\<close>

text \<open>
  C14: whatever the clients, the timers and the shutdown do and in whatever order, a mailbox has at most
  one reader and one writer at a time: a side that a handler holds cannot be taken by another, and a
  side that nobody holds can be taken at once. As long as the server is not being stopped, a mailbox in
  the map is open and no request makes the server close a channel twice.
\<close>

theorem mailbox_sides_exclusive:
  assumes "hm_reach cfg y" and "streams (sy_server y) (newStreamID sid) = Some r"
  shows "count_list (sy_readers y) r \<le> 1 \<and> count_list (sy_writers y) r \<le> 1 \<and>
     (is_ok (snd (LookUpReadStream sid (sy_server y))) \<longleftrightarrow> r \<notin> set (sy_readers y)) \<and>
     (is_ok (snd (LookUpWriteStream sid (sy_server y))) \<longleftrightarrow> r \<notin> set (sy_writers y)) \<and>
     (\<not> sy_stopped y \<longrightarrow> is_ok (snd (tearDownStaleStream (newStreamID sid) (sy_server y))))"
proof -
  note inv = hm_reach_inv [OF assms(1)]
  note r = hm_invD(1) [OF inv assms(2)]
  have ok: "stream_ok (hm_pending (sy_server y)) (sides (sy_held y) r) (sides (sy_returning y) r) (hm_heap (sy_server y) ! r)"
    using hm_invD(3) [OF inv] r by blast
  then have n: "sides (sy_held y) r b = (if chan_full b (hm_heap (sy_server y) ! r) then 0 else 1)" for b
    by (simp add: stream_ok_def)
  then have held: "(r, b) \<in> set (sy_held y) \<longleftrightarrow> \<not> chan_full b (hm_heap (sy_server y) ! r)" for b
    unfolding sides_simps(5) [symmetric] by simp
  show ?thesis
    using r assms(2)
    by (simp add: readers_count held_iff n held LookUpReadStream_def LookUpWriteStream_def RequestReadStream_def RequestWriteStream_def
        tearDownStaleStream_def tearDown_def Let_def)
qed


text \<open>The definitions that a run of the server evaluates.\<close>

lemmas hm_run_defs = hm_init_def newHashMailServer_def NewCipherBox_def DelCipherBox_def ValidateStreamAuth_def InitStream_def
  TearDownStream_def equivAuth_def tearDown_def Let_def newStream_def newStreamStatus_def chan_full_def take_chan_def
  fill_chan_def mark_taken_def mark_returned_def on_stream_def streamTaken_def status_stop_def streamReturned_def fire_def
  tearDownStaleStream_def DefaultStaleTimeout_def

text \<open>
  A mailbox in use can be reclaimed. A reader leaves: its side is in the channel again. The next reader
  takes it and stops the timer; only then does the first handler update the status, which marks the side as
  free and starts the timer. When it fires, the mailbox is torn down under the second reader.
\<close>

lemma late_return_removes_used_mailbox:
  assumes "validateAuthReq a = Inr sid" and "0 \<le> cfg_staleTimeout cfg"
  shows "let y = fold hm_step [EvNew a, EvTake True sid, EvTaken (0, True), EvReturn (0, True), EvTake True sid, EvTaken (0, True),
      EvReturned (0, True), EvFire 0, EvStale (newStreamID sid)] (hm_init cfg)
     in sy_readers y = [0] \<and> streams (sy_server y) (newStreamID sid) = None \<and> hs_quit (hm_heap (sy_server y) ! 0)"
proof -
  have t: "0 \<le> cfg_staleTimeout (hm_cfg (newHashMailServer cfg))"
    using assms(2) by (simp add: newHashMailServer_def DefaultStaleTimeout_def)
  show ?thesis using assms t by (simp add: hm_run_defs sy_readers_def)
qed

text \<open>
  The timer of a mailbox that was deleted can remove its successor. A reader that still holds the
  deleted mailbox restarts the old timer when it returns its side; when that timer fires, the mailbox
  that was created again under the same identifier is torn down, although its reader is connected.
\<close>

lemma old_timer_removes_new_mailbox:
  assumes "validateAuthReq a = Inr sid" and "0 \<le> cfg_staleTimeout cfg"
  shows "let y = fold hm_step [EvNew a, EvTake True sid, EvTaken (0, True), EvDel a, EvNew a, EvReturn (0, True), EvReturned (0, True),
      EvTake True sid, EvTaken (1, True), EvFire 0, EvStale (newStreamID sid)] (hm_init cfg)
     in sy_readers y = [1] \<and> streams (sy_server y) (newStreamID sid) = None \<and> hs_quit (hm_heap (sy_server y) ! 1)"
proof -
  have t: "0 \<le> cfg_staleTimeout (hm_cfg (newHashMailServer cfg))"
    using assms(2) by (simp add: newHashMailServer_def DefaultStaleTimeout_def)
  show ?thesis using assms t by (simp add: hm_run_defs sy_readers_def)
qed

text \<open>
  A client can crash the server: a second message without a descriptor makes the handler of the
  sending stream dereference a nil pointer, since only the first message is checked.
\<close>

lemma send_without_descriptor_panics:
  assumes "send_open (tu_Recv first) = Inr sid" and "is_ok (snd (LookUpWriteStream sid h))"
    and "snd (write_box tlv first (cb_Msg (projr (tu_Recv first)))) = Inr ()"
    and "\<not> tu_ctxDone t" and "tu_Recv t = Inr box" and "cb_Desc box = None"
  shows "snd (snd (SendStream tlv first (t # ts) h)) = Some (Inl (Panic ''nil descriptor''))"
proof -
  obtain h1 r where l: "LookUpWriteStream sid h = (h1, Inr r)" using assms(2) by (cases "LookUpWriteStream sid h") (auto simp: is_ok_iff)
  obtain frs where "write_box tlv first (cb_Msg (projr (tu_Recv first))) = (frs, Inr ())" using assms(3) by (metis prod.collapse)
  then show ?thesis using assms(1,4-6) l by (simp add: SendStream_def Let_def)
qed

subsection \<open>A concrete server\<close>

definition sample_box :: CipherBoxAuth where
  "sample_box = \<lparr>cba_Desc = Some \<lparr>StreamId = Some ''s''\<rparr>, cba_Auth = Some ''lnd''\<rparr>"

definition sample_mail_cfg :: hashMailServerConfig where
  "sample_mail_cfg = \<lparr>msgRate = 0, msgBurstAllowance = 0, cfg_staleTimeout = 0\<rparr>"

lemma sample_box_id: "validateAuthReq sample_box = Inr ''s''"
  by (simp add: validateAuthReq_def sample_box_def)

lemma sample_mailbox:
  "sy_server (hm_step (EvNew sample_box) (hm_init sample_mail_cfg)) =
     (newHashMailServer sample_mail_cfg)\<lparr>streams := [newStreamID ''s'' \<mapsto> 0],
       hm_heap := [newStream (newStreamID ''s'') (3600 * 1000000000)]\<rparr>"
  by (simp add: NewCipherBox_def sample_box_id ValidateStreamAuth_def InitStream_def hm_init_def newHashMailServer_def
      sample_mail_cfg_def DefaultStaleTimeout_def Let_def)

lemma sample_mail_readers: "sy_readers (hm_step (EvNew a) (hm_init cfg)) = []" "sy_writers (hm_step (EvNew a) (hm_init cfg)) = []"
  "\<not> sy_stopped (hm_step (EvNew a) (hm_init cfg))"
  by (simp_all add: hm_init_def sy_readers_def sy_writers_def)

theorem mailbox_sides_exclusive_witness:
  "is_ok (snd (LookUpReadStream ''s'' (sy_server (hm_step (EvNew sample_box) (hm_init sample_mail_cfg)))))"
  using mailbox_sides_exclusive [OF hm_next [OF hm_start [of sample_mail_cfg], of "EvNew sample_box"], of "''s''" 0] sample_mailbox
    sample_mail_readers(1) [of sample_box sample_mail_cfg]
  by (simp del: hm_step.simps)

lemma sample_timer_runs: "0 \<le> cfg_staleTimeout sample_mail_cfg"
  by (simp add: sample_mail_cfg_def)




lemma late_return_removes_used_mailbox_example:
  "sy_readers (fold hm_step [EvNew sample_box, EvTake True ''s'', EvTaken (0, True), EvReturn (0, True), EvTake True ''s'',
     EvTaken (0, True), EvReturned (0, True), EvFire 0, EvStale (newStreamID ''s'')] (hm_init sample_mail_cfg)) = [0]"
  using late_return_removes_used_mailbox [OF sample_box_id sample_timer_runs] unfolding Let_def by blast

lemma old_timer_removes_new_mailbox_example:
  "hs_quit (hm_heap (sy_server (fold hm_step [EvNew sample_box, EvTake True ''s'', EvTaken (0, True), EvDel sample_box, EvNew sample_box,
     EvReturn (0, True), EvReturned (0, True), EvTake True ''s'', EvTaken (1, True), EvFire 0, EvStale (newStreamID ''s'')]
     (hm_init sample_mail_cfg))) ! 1)"
  using old_timer_removes_new_mailbox [OF sample_box_id sample_timer_runs] unfolding Let_def by blast

lemma send_without_descriptor_panics_example:
  "snd (snd (SendStream sample_tlv
      \<lparr>tu_ctxDone = False, tu_Recv = Inr \<lparr>cb_Desc = Some \<lparr>StreamId = Some ''s''\<rparr>, cb_Msg = ''m''\<rparr>, tu_Wait = Inr (), tu_Write = Inr ()\<rparr>
      [\<lparr>tu_ctxDone = False, tu_Recv = Inr \<lparr>cb_Desc = None, cb_Msg = ''m''\<rparr>, tu_Wait = Inr (), tu_Write = Inr ()\<rparr>]
      (sy_server (hm_step (EvNew sample_box) (hm_init sample_mail_cfg))))) = Some (Inl (Panic ''nil descriptor''))"
proof (rule send_without_descriptor_panics)
  show "is_ok (snd (LookUpWriteStream ''s'' (sy_server (hm_step (EvNew sample_box) (hm_init sample_mail_cfg)))))"
    unfolding sample_mailbox by (simp add: LookUpWriteStream_def RequestWriteStream_def newStream_def chan_full_def)
  show "cb_Desc \<lparr>cb_Desc = None, cb_Msg = ''m''\<rparr> = None" by simp
qed (simp_all add: send_open_def write_box_def WriteMsg_def sample_tlv_def)

end
