(* ===== verification/Postgres_Store.thy ===== *)
theory Postgres_Store
  imports Go_Encoding
begin

text \<open>
  Opening the database: \<^verbatim>\<open>aperture/aperturedb/postgres.go\<close> and \<^verbatim>\<open>aperture/aperturedb/migrations.go\<close>. The database driver
  and the migration library are parameters; the file system that rewrites the schemas for Postgres is
  modelled, with the order in which Go iterates over the map of replacements as an argument.
\<close>

subsection \<open>Replacements\<close>

fun join_seq :: "string \<Rightarrow> string list \<Rightarrow> string" where
  "join_seq sep [] = []"
| "join_seq sep [p] = p"
| "join_seq sep (p # ps) = p @ sep @ join_seq sep ps"

text \<open>\<^verbatim>\<open>strings.ReplaceAll\<close> for a nonempty search text.\<close>

definition replace_all :: "string \<Rightarrow> string \<Rightarrow> string \<Rightarrow> string" where
  "replace_all src dst s = join_seq dst (split_seq src s)"

definition postgres_replaces :: "(string \<times> string) list" where
  "postgres_replaces = [(''BLOB'', ''BYTEA''), (''INTEGER PRIMARY KEY'', ''SERIAL PRIMARY KEY''),
     (''TIMESTAMP'', ''TIMESTAMP WITHOUT TIME ZONE'')]"

datatype vfs_node = Dir | File "bytes result"

definition newReplacerFile :: "(string \<times> string) list \<Rightarrow> bytes result \<Rightarrow> bytes result" where
  "newReplacerFile replaces readAll =
     rbind readAll (\<lambda>content. Inr (foldl (\<lambda>s (src, dst). replace_all src dst s) content replaces))"

definition replacerFS_Open :: "(string \<times> string) list \<Rightarrow> (string \<Rightarrow> vfs_node result) \<Rightarrow> string \<Rightarrow> vfs_node result" where
  "replacerFS_Open replaces parent name =
     rbind (parent name) (\<lambda>f. case f of
         Dir \<Rightarrow> Inr Dir
       | File readAll \<Rightarrow> rbind (newReplacerFile replaces readAll) (\<lambda>b. Inr (File (Inr b))))"

subsection \<open>The store\<close>

record PostgresConfig =
  pg_SkipMigrations :: bool
  pg_Host :: string
  pg_Port :: int
  pg_User :: string
  pg_Password :: string
  pg_DBName :: string
  pg_MaxOpenConnections :: int
  pg_RequireSSL :: bool

definition DSN :: "PostgresConfig \<Rightarrow> bool \<Rightarrow> string" where
  "DSN s hidePassword =
     ''postgres://'' @ pg_User s @ '':'' @ (if hidePassword then ''****'' else pg_Password s) @ ''@'' @ pg_Host s @ '':''
     @ format_int (pg_Port s) @ ''/'' @ pg_DBName s @ ''?sslmode='' @ (if pg_RequireSSL s then ''require'' else ''disable'')"

definition defaultMaxConns :: int where "defaultMaxConns = 25"

definition max_conns :: "PostgresConfig \<Rightarrow> int" where
  "max_conns cfg = (if pg_MaxOpenConnections cfg > 0 then pg_MaxOpenConnections cfg else defaultMaxConns)"

text \<open>
  \<open>pe_Up\<close> is the answer of the migration library: a change, the error \<^verbatim>\<open>ErrNoChange\<close> (\<open>Inr False\<close>), or another
  error.
\<close>

record postgres_env =
  pe_Open :: "string \<Rightarrow> unit result"
  pe_Driver :: "unit result"
  pe_HttpFS :: "(string \<Rightarrow> vfs_node result) \<Rightarrow> string \<Rightarrow> unit result"
  pe_NewMigrate :: "string \<Rightarrow> unit result"
  pe_Up :: "(string \<Rightarrow> vfs_node result) \<Rightarrow> bool result"
  pe_schemas :: "string \<Rightarrow> vfs_node result"

definition applyMigrations :: "postgres_env \<Rightarrow> (string \<Rightarrow> vfs_node result) \<Rightarrow> string \<Rightarrow> string \<Rightarrow> unit result" where
  "applyMigrations env fs path dbName =
     rbind (pe_HttpFS env fs path) (\<lambda>_.
     rbind (pe_NewMigrate env dbName) (\<lambda>_.
     rbind (pe_Up env fs) (\<lambda>changed. Inr ())))"

text \<open>The open store is its number of connections.\<close>

definition NewPostgresStore :: "postgres_env \<Rightarrow> ((string \<times> string) list \<Rightarrow> (string \<times> string) list) \<Rightarrow> PostgresConfig \<Rightarrow> int result" where
  "NewPostgresStore env range_order cfg =
     rbind (pe_Open env (DSN cfg False)) (\<lambda>_.
     rbind (if pg_SkipMigrations cfg then Inr ()
            else rbind (pe_Driver env) (\<lambda>_.
                   applyMigrations env (replacerFS_Open (range_order postgres_replaces) (pe_schemas env)) ''sqlc/migrations'' (pg_DBName cfg)))
       (\<lambda>_. Inr (max_conns cfg)))"

subsection \<open>Properties\<close>

text \<open>The text that is logged does not depend on the password.\<close>

lemma DSN_hides_password: "DSN (s\<lparr>pg_Password := p\<rparr>) True = DSN s True"
  by (simp add: DSN_def)

lemma max_conns_positive: "0 < max_conns cfg"
  by (simp add: max_conns_def defaultMaxConns_def)

lemma join_split_seq: "join_seq src (split_seq src s) = s"
proof (induction src s rule: split_seq.induct)
  case (2 sep c cs)
  show ?case
  proof (cases "sep \<noteq> [] \<and> has_prefix (c # cs) sep")
    case True
    with 2 obtain p ps where "split_seq sep (drop (length sep) (c # cs)) = p # ps" "join_seq sep (p # ps) = drop (length sep) (c # cs)"
      by (cases "split_seq sep (drop (length sep) (c # cs))") (auto simp: has_prefix_iff)
    then show ?thesis using True by (auto simp: split_seq.simps(2) has_prefix_iff)
  next
    case False
    with 2 show ?thesis
      by (cases "split_seq sep cs"; cases "tl (split_seq sep cs)") (auto simp: split_seq.simps(2))
  qed
qed simp

text \<open>Replacing a text by itself changes nothing, and files without the searched texts are left alone.\<close>

lemma replace_all_same: "replace_all src src s = s"
  by (simp add: replace_all_def join_split_seq)

lemma split_seq_absent: "src \<noteq> [] \<Longrightarrow> \<not> contains s src \<Longrightarrow> split_seq src s = [s]"
  by (induction s) (auto simp: split_seq.simps(2))

lemma replace_all_absent: "src \<noteq> [] \<Longrightarrow> \<not> contains s src \<Longrightarrow> replace_all src dst s = s"
  by (simp add: replace_all_def split_seq_absent)

lemma schema_untouched:
  assumes "\<forall>(src, dst) \<in> set replaces. src \<noteq> [] \<and> \<not> contains content src"
  shows "newReplacerFile replaces (Inr content) = Inr content"
proof -
  have "foldl (\<lambda>s (src, dst). replace_all src dst s) content replaces = content"
    using assms by (induction replaces) (auto simp: replace_all_absent)
  then show ?thesis by (simp add: newReplacerFile_def)
qed

end
