(* ===== verification/Aperture_Config.thy ===== *)
theory Aperture_Config
  imports Proxy Hashmail Postgres_Store
begin

text \<open>
  Configuration, \<^verbatim>\<open>aperture/config.go\<close> and \<^verbatim>\<open>getConfig\<close> of \<^verbatim>\<open>aperture/aperture.go\<close>, and the certificate
  of the server, \<^verbatim>\<open>getTLSConfig\<close>. Flags, YAML, paths and the certificate functions of lnd's package
  \<^verbatim>\<open>cert\<close> are parameters. The two certificate files lie in the base directory.
\<close>

subsection \<open>The configuration\<close>

record EtcdConfig =
  etcd_Host :: string
  etcd_User :: string
  etcd_Password :: string

record AuthConfig =
  ac_Network :: string
  ac_Disable :: bool
  ac_LndHost :: string
  ac_TLSPath :: string
  ac_MacDir :: string
  ac_Passphrase :: string
  ac_MailboxAddress :: string
  ac_DevServer :: bool

record HashMailConfig =
  hc_Enabled :: bool
  hc_MessageRate :: int
  hc_MessageBurstAllowance :: int
  hc_StaleTimeout :: int

record TorConfig =
  tor_Control :: string
  tor_ListenPort :: "16 word"
  tor_VirtualPort :: "16 word"
  tor_V3 :: bool

record PrometheusConfig =
  pm_Enabled :: bool
  pm_ListenAddr :: string

record Config =
  cf_ListenAddr :: string
  cf_ServerName :: string
  cf_AutoCert :: bool
  cf_Insecure :: bool
  cf_StaticRoot :: string
  cf_ServeStatic :: bool
  cf_DatabaseBackend :: string
  cf_Postgres :: PostgresConfig
  cf_Etcd :: EtcdConfig
  cf_Authenticator :: AuthConfig
  cf_Tor :: TorConfig
  cf_Services :: "proxy_Service list"
  cf_HashMail :: HashMailConfig
  cf_Prometheus :: PrometheusConfig
  cf_DebugLevel :: string
  cf_ConfigFile :: string
  cf_BaseDir :: string
  cf_Profile :: "16 word"
  cf_IdleTimeout :: int
  cf_ReadTimeout :: int
  cf_WriteTimeout :: int

definition validateLNDAuth :: "AuthConfig \<Rightarrow> unit result" where
  "validateLNDAuth a =
     rbind (ensure (ac_LndHost a \<noteq> []) (Errorf ''lnd host required'')) (\<lambda>_.
     rbind (ensure (ac_TLSPath a \<noteq> []) (Errorf ''lnd tls required'')) (\<lambda>_.
     ensure (ac_MacDir a \<noteq> []) (Errorf ''lnd mac dir required'')))"

definition validateLNCAuth :: "AuthConfig \<Rightarrow> unit result" where
  "validateLNCAuth a =
     rbind (ensure (ac_Passphrase a \<noteq> []) (Errorf ''lnc passphrase required'')) (\<lambda>_.
     rbind (ensure (ac_MailboxAddress a \<noteq> []) (Errorf ''lnc mailbox address required'')) (\<lambda>_.
     ensure (ac_Network a \<noteq> []) (Errorf ''lnc network required'')))"

definition AuthConfig_validate :: "AuthConfig \<Rightarrow> unit result" where
  "AuthConfig_validate a =
     (if ac_Disable a then Inr ()
      else if ac_LndHost a \<noteq> [] then
        rbind (ensure (ac_Passphrase a = [])
                 (Errorf ''passphrase field cannot be set when connecting directly to the lnd node'')) (\<lambda>_.
        validateLNDAuth a)
      else if ac_Passphrase a \<noteq> [] then validateLNCAuth a
      else Inl (Errorf ''invalid authenticator configuration''))"

definition Config_validate :: "Config \<Rightarrow> unit result" where
  "Config_validate c =
     rbind (if \<not> ac_Disable (cf_Authenticator c) then AuthConfig_validate (cf_Authenticator c) else Inr ()) (\<lambda>_.
     ensure (cf_ListenAddr c \<noteq> []) (Errorf ''missing listen address for server''))"

definition defaultIdleTimeout :: int where "defaultIdleTimeout = seconds 120"
definition defaultReadTimeout :: int where "defaultReadTimeout = seconds 15"
definition defaultWriteTimeout :: int where "defaultWriteTimeout = seconds 30"

definition NewConfig :: Config where
  "NewConfig = \<lparr>cf_ListenAddr = [], cf_ServerName = [], cf_AutoCert = False, cf_Insecure = False, cf_StaticRoot = [],
     cf_ServeStatic = False, cf_DatabaseBackend = ''etcd'',
     cf_Postgres = \<lparr>pg_SkipMigrations = False, pg_Host = [], pg_Port = 0, pg_User = [], pg_Password = [], pg_DBName = [],
       pg_MaxOpenConnections = 0, pg_RequireSSL = False\<rparr>,
     cf_Etcd = \<lparr>etcd_Host = [], etcd_User = [], etcd_Password = []\<rparr>,
     cf_Authenticator = \<lparr>ac_Network = [], ac_Disable = False, ac_LndHost = [], ac_TLSPath = [], ac_MacDir = [],
       ac_Passphrase = [], ac_MailboxAddress = [], ac_DevServer = False\<rparr>,
     cf_Tor = \<lparr>tor_Control = [], tor_ListenPort = 0, tor_VirtualPort = 0, tor_V3 = False\<rparr>, cf_Services = [],
     cf_HashMail = \<lparr>hc_Enabled = False, hc_MessageRate = 0, hc_MessageBurstAllowance = 0, hc_StaleTimeout = 0\<rparr>,
     cf_Prometheus = \<lparr>pm_Enabled = False, pm_ListenAddr = []\<rparr>, cf_DebugLevel = [], cf_ConfigFile = [], cf_BaseDir = [],
     cf_Profile = 0, cf_IdleTimeout = defaultIdleTimeout, cf_ReadTimeout = defaultReadTimeout,
     cf_WriteTimeout = defaultWriteTimeout\<rparr>"

subsection \<open>Loading the configuration\<close>

definition defaultMailboxAddress :: string where
  "defaultMailboxAddress = ''mailbox.terminal.lightning.today:443''"

text \<open>
  \<open>cg_Flags\<close> writes the command line over a configuration. A failed read tells whether the file is
  missing.
\<close>

record config_env =
  cg_Flags :: "Config \<Rightarrow> Config result"
  cg_DataDir :: string
  cg_Join :: "string \<Rightarrow> string \<Rightarrow> string"
  cg_CleanPath :: "string \<Rightarrow> string"
  cg_ReadFile :: "string \<Rightarrow> (bool \<times> go_error) + bytes"
  cg_Yaml :: "bytes \<Rightarrow> Config \<Rightarrow> Config result"

text \<open>Which file, and whether it must exist.\<close>

definition config_file :: "config_env \<Rightarrow> Config \<Rightarrow> string \<times> bool" where
  "config_file env cfg =
     (if cf_ConfigFile cfg \<noteq> [] then (cg_CleanPath env (cf_ConfigFile cfg), True)
      else if cf_BaseDir cfg \<noteq> [] then (cg_Join env (cf_BaseDir cfg) ''aperture.yaml'', False)
      else (cg_Join env (cg_DataDir env) ''aperture.yaml'', False))"

definition read_config :: "config_env \<Rightarrow> Config \<Rightarrow> Config result" where
  "read_config env cfg =
     (let (configFile, mustExist) = config_file env cfg
      in case cg_ReadFile env configFile of
           Inr b \<Rightarrow> cg_Yaml env b cfg
         | Inl (notExist, err) \<Rightarrow>
             if \<not> notExist then Inl err
             else if mustExist then Inl (Wrap ''config file must exist'' err)
             else Inr cfg)"

definition expand_paths :: "config_env \<Rightarrow> Config \<Rightarrow> Config" where
  "expand_paths env cfg =
     cfg\<lparr>cf_BaseDir := cg_CleanPath env (cf_BaseDir cfg),
       cf_Authenticator := (cf_Authenticator cfg)
         \<lparr>ac_TLSPath := cg_CleanPath env (ac_TLSPath (cf_Authenticator cfg)),
          ac_MacDir := cg_CleanPath env (ac_MacDir (cf_Authenticator cfg)),
          ac_MailboxAddress := (if ac_MailboxAddress (cf_Authenticator cfg) = [] then defaultMailboxAddress
                                else ac_MailboxAddress (cf_Authenticator cfg))\<rparr>\<rparr>"

definition getConfig :: "config_env \<Rightarrow> Config result" where
  "getConfig env =
     rbind (cg_Flags env NewConfig) (\<lambda>cfg0.
     rbind (read_config env cfg0) (\<lambda>cfg1.
     rbind (cg_Flags env cfg1) (\<lambda>cfg2.
     let cfg = expand_paths env cfg2
     in rbind (Config_validate cfg) (\<lambda>_. Inr cfg))))"

text \<open>The log level and the log file of \<^verbatim>\<open>setupLogging\<close>; the rotator is lnd's.\<close>

definition setupLogging :: "config_env \<Rightarrow> (string \<Rightarrow> unit result) \<Rightarrow> (string \<Rightarrow> unit result) \<Rightarrow> Config \<Rightarrow> Config \<times> unit result" where
  "setupLogging env initRotator setLevels cfg =
     (let cfg' = (if cf_DebugLevel cfg = [] then cfg\<lparr>cf_DebugLevel := ''info''\<rparr> else cfg);
          logFile = (if cf_BaseDir cfg' \<noteq> [] then cg_Join env (cf_BaseDir cfg') ''aperture.log''
                     else cg_Join env (cg_DataDir env) ''aperture.log'')
      in (cfg', rbind (initRotator logFile) (\<lambda>_. setLevels (cf_DebugLevel cfg'))))"

subsection \<open>The certificate\<close>

definition selfSignedCertOrganization :: string where
  "selfSignedCertOrganization = ''aperture autogenerated cert''"
definition selfSignedCertValidity :: int where "selfSignedCertValidity = seconds (3600 * 24 * 820)"
definition selfSignedCertExpiryMargin :: int where "selfSignedCertExpiryMargin = selfSignedCertValidity div 2"

record Cert =
  crt_Organization :: "string list"
  crt_NotAfter :: time
  crt_ExtraDomains :: "string list"

text \<open>The two files, each with the pair it belongs to.\<close>

record tls_files =
  tf_cert :: "Cert option"
  tf_key :: "Cert option"

record tls_env =
  te_Now :: time
  te_Gen :: "string \<Rightarrow> string list \<Rightarrow> int \<Rightarrow> Cert result"
  te_Write :: "Cert \<Rightarrow> tls_files \<Rightarrow> tls_files \<times> unit result"
  te_Load :: "tls_files \<Rightarrow> Cert result"
  te_RemoveErr :: "bool \<Rightarrow> go_error option"

datatype tls_Config =
    AutoCert string
  | Certificate Cert

definition gen_pair :: "tls_env \<Rightarrow> string list \<Rightarrow> tls_files \<Rightarrow> tls_files \<times> unit result" where
  "gen_pair env domains fs =
     (case te_Gen env selfSignedCertOrganization domains selfSignedCertValidity of
        Inl e \<Rightarrow> (fs, Inl e)
      | Inr c \<Rightarrow> te_Write env c fs)"

definition cert_outdated :: "tls_env \<Rightarrow> Cert \<Rightarrow> bool" where
  "cert_outdated env c =
     (crt_Organization c \<noteq> [] \<and> hd (crt_Organization c) = selfSignedCertOrganization \<and>
      time_before (time_add (crt_NotAfter c) (- 1 * selfSignedCertExpiryMargin)) (te_Now env))"

definition renew_pair :: "tls_env \<Rightarrow> tls_files \<Rightarrow> tls_files \<times> Cert result" where
  "renew_pair env fs =
     (case te_RemoveErr env True of
        Some e \<Rightarrow> (fs, Inl e)
      | None \<Rightarrow>
     (let fs1 = fs\<lparr>tf_cert := None\<rparr> in
      case te_RemoveErr env False of
        Some e \<Rightarrow> (fs1, Inl e)
      | None \<Rightarrow>
     (case gen_pair env [] (fs1\<lparr>tf_key := None\<rparr>) of
        (fs2, Inl e) \<Rightarrow> (fs2, Inl e)
      | (fs2, Inr _) \<Rightarrow> (fs2, te_Load env fs2))))"

definition getTLSConfig :: "tls_env \<Rightarrow> string \<Rightarrow> bool \<Rightarrow> tls_files \<Rightarrow> tls_files \<times> tls_Config result" where
  "getTLSConfig env serverName autoCert fs =
     (if autoCert then
        (fs, if serverName = [] then Inl (Errorf ''servername option is required for secure operation'')
             else Inr (AutoCert serverName))
      else
        (case (if tf_cert fs = None \<and> tf_key fs = None then gen_pair env [serverName] fs else (fs, Inr ())) of
           (fs1, Inl e) \<Rightarrow> (fs1, Inl e)
         | (fs1, Inr _) \<Rightarrow>
        (case te_Load env fs1 of
           Inl e \<Rightarrow> (fs1, Inl e)
         | Inr c \<Rightarrow>
             if cert_outdated env c then
               (case renew_pair env fs1 of (fs2, r) \<Rightarrow> (fs2, rbind r (\<lambda>c'. Inr (Certificate c'))))
             else (fs1, Inr (Certificate c)))))"

subsection \<open>What a loaded configuration guarantees\<close>

lemma Config_validate_ok [result_simps]:
  "Config_validate c = Inr u \<longleftrightarrow> cf_ListenAddr c \<noteq> [] \<and> AuthConfig_validate (cf_Authenticator c) = Inr ()"
  by (auto simp: Config_validate_def AuthConfig_validate_def rbind_eq_Inr ensure_eq_Inr)

lemma AuthConfig_validate_ok [result_simps]:
  "AuthConfig_validate a = Inr u \<longleftrightarrow> ac_Disable a \<or>
     (ac_LndHost a \<noteq> [] \<and> ac_Passphrase a = [] \<and> ac_TLSPath a \<noteq> [] \<and> ac_MacDir a \<noteq> []) \<or>
     (ac_LndHost a = [] \<and> ac_Passphrase a \<noteq> [] \<and> ac_MailboxAddress a \<noteq> [] \<and> ac_Network a \<noteq> [])"
  by (auto simp: AuthConfig_validate_def validateLNDAuth_def validateLNCAuth_def rbind_eq_Inr ensure_eq_Inr)

lemma getConfig_ok:
  assumes "getConfig env = Inr cfg"
  shows "Config_validate cfg = Inr ()" and "ac_MailboxAddress (cf_Authenticator cfg) \<noteq> []"
    and "\<exists>cfg0 cfg1 cfg2. cg_Flags env NewConfig = Inr cfg0 \<and> read_config env cfg0 = Inr cfg1 \<and>
           cg_Flags env cfg1 = Inr cfg2 \<and> cfg = expand_paths env cfg2"
proof -
  from assms obtain cfg0 cfg1 cfg2 where c: "cg_Flags env NewConfig = Inr cfg0" "read_config env cfg0 = Inr cfg1"
      "cg_Flags env cfg1 = Inr cfg2" "cfg = expand_paths env cfg2" "Config_validate cfg = Inr ()"
    unfolding getConfig_def by (auto simp: rbind_eq_Inr Let_def)
  then show "Config_validate cfg = Inr ()"
    and "\<exists>cfg0 cfg1 cfg2. cg_Flags env NewConfig = Inr cfg0 \<and> read_config env cfg0 = Inr cfg1 \<and>
           cg_Flags env cfg1 = Inr cfg2 \<and> cfg = expand_paths env cfg2" by blast+
  show "ac_MailboxAddress (cf_Authenticator cfg) \<noteq> []"
    by (simp add: c(4) expand_paths_def defaultMailboxAddress_def)
qed

subsection \<open>What the certificate guarantees\<close>

text \<open>What lnd's package documents: the fields of a new certificate; a pair is written and loaded whole.\<close>

definition cert_lib :: "tls_env \<Rightarrow> bool" where
  "cert_lib env \<longleftrightarrow>
     (\<forall>org ds v c. te_Gen env org ds v = Inr c \<longrightarrow>
        crt_Organization c = [org] \<and> crt_ExtraDomains c = ds \<and> crt_NotAfter c = time_add (te_Now env) v) \<and>
     (\<forall>c fs fs'. te_Write env c fs = (fs', Inr ()) \<longrightarrow> fs' = \<lparr>tf_cert = Some c, tf_key = Some c\<rparr>) \<and>
     (\<forall>c fs. te_Load env fs = Inr c \<longrightarrow> fs = \<lparr>tf_cert = Some c, tf_key = Some c\<rparr>)"

definition sane_time :: "time \<Rightarrow> bool" where
  "sane_time t \<longleftrightarrow> 0 \<le> fst t \<and> fst t < 2 ^ 62 \<and> 0 \<le> snd t \<and> snd t < 1000000000"

lemma time_add_whole: "sane_time t \<Longrightarrow> \<bar>n\<bar> < 2 ^ 62 \<Longrightarrow> n \<noteq> 0 \<Longrightarrow> time_add t (n * 1000000000) = (fst t + n, snd t)"
  by (auto simp: time_add_def sane_time_def sat_add_def wrap64_id in_int64_def Let_def)

lemma new_cert_current:
  assumes "cert_lib env" and "sane_time (te_Now env)" and "fst (te_Now env) < 2 ^ 61"
    and "te_Gen env selfSignedCertOrganization ds selfSignedCertValidity = Inr c"
  shows "\<not> cert_outdated env c"
proof -
  have n: "crt_NotAfter c = time_add (te_Now env) (70848000 * 1000000000)"
    using assms(1,4) by (simp add: cert_lib_def selfSignedCertValidity_def seconds_def wrap64_def)
  then have "crt_NotAfter c = (fst (te_Now env) + 70848000, snd (te_Now env))"
    using time_add_whole [OF assms(2), of 70848000] by simp
  moreover have "sane_time (crt_NotAfter c)" using calculation assms(2,3) by (simp add: sane_time_def)
  moreover have "- 1 * selfSignedCertExpiryMargin = -35424000 * 1000000000"
    by (simp add: selfSignedCertExpiryMargin_def selfSignedCertValidity_def seconds_def wrap64_def)
  ultimately have "time_add (crt_NotAfter c) (- 1 * selfSignedCertExpiryMargin) = (fst (te_Now env) + 35424000, snd (te_Now env))"
    using time_add_whole [of "crt_NotAfter c" "-35424000"] by simp
  then show ?thesis by (simp add: cert_outdated_def time_before_def)
qed

lemma gen_pair_ok:
  assumes "cert_lib env" and "gen_pair env ds fs = (fs', Inr u)"
  shows "\<exists>c. te_Gen env selfSignedCertOrganization ds selfSignedCertValidity = Inr c \<and>
     fs' = \<lparr>tf_cert = Some c, tf_key = Some c\<rparr> \<and> crt_ExtraDomains c = ds"
  using assms by (auto simp: gen_pair_def cert_lib_def split: sum.splits)

lemma renew_pair_ok:
  assumes "cert_lib env" and "renew_pair env fs = (fs', Inr c)"
  shows "te_Gen env selfSignedCertOrganization [] selfSignedCertValidity = Inr c \<and>
     fs' = \<lparr>tf_cert = Some c, tf_key = Some c\<rparr> \<and> crt_ExtraDomains c = []"
proof -
  from assms(2) obtain u where g: "gen_pair env [] (fs\<lparr>tf_cert := None, tf_key := None\<rparr>) = (fs', Inr u)" and l: "te_Load env fs' = Inr c"
    by (auto simp: renew_pair_def Let_def split: option.splits prod.splits sum.splits)
  have "fs' = \<lparr>tf_cert = Some c, tf_key = Some c\<rparr>" using assms(1) l by (simp add: cert_lib_def)
  with gen_pair_ok [OF assms(1) g] show ?thesis by auto
qed

text \<open>
  When the server gets its certificate from its files, the certificate served is the one
  on disk and is not due for renewal. A certificate that was there and is not due, or was not made
  by aperture, is kept; without files a new one is made for the configured server name; but one
  that is renewed is made without the server name.
\<close>

lemma tls_certificate_current:
  assumes "cert_lib env" and "sane_time (te_Now env)" and "fst (te_Now env) < 2 ^ 61"
    and "getTLSConfig env serverName False fs = (fs', Inr (Certificate c))"
  shows "fs' = \<lparr>tf_cert = Some c, tf_key = Some c\<rparr> \<and> \<not> cert_outdated env c \<and>
     (case tf_cert fs of
        None \<Rightarrow> tf_key fs = None \<and> crt_ExtraDomains c = [serverName]
      | Some old \<Rightarrow> if cert_outdated env old then crt_ExtraDomains c = [] else c = old \<and> fs' = fs)"
proof (cases "tf_cert fs = None \<and> tf_key fs = None")
  case True
  with assms(4) obtain fs1 u where g: "gen_pair env [serverName] fs = (fs1, Inr u)"
    by (auto simp: getTLSConfig_def split: prod.splits sum.splits)
  then obtain d where d: "te_Gen env selfSignedCertOrganization [serverName] selfSignedCertValidity = Inr d"
      "fs1 = \<lparr>tf_cert = Some d, tf_key = Some d\<rparr>" "crt_ExtraDomains d = [serverName]" using gen_pair_ok [OF assms(1)] by blast
  have "te_Load env fs1 = Inr c' \<Longrightarrow> c' = d" for c' using assms(1) d(2) by (auto simp: cert_lib_def)
  with True g assms(4) new_cert_current [OF assms(1-3) d(1)] have "fs' = fs1 \<and> c = d"
    by (auto simp: getTLSConfig_def split: sum.splits if_splits)
  with True d new_cert_current [OF assms(1-3) d(1)] show ?thesis by auto
next
  case False
  with assms(4) obtain old where l: "te_Load env fs = Inr old" by (auto simp: getTLSConfig_def split: sum.splits)
  then have fs: "fs = \<lparr>tf_cert = Some old, tf_key = Some old\<rparr>" using assms(1) by (simp add: cert_lib_def)
  show ?thesis
  proof (cases "cert_outdated env old")
    case True
    with False l assms(4) have "renew_pair env fs = (fs', Inr c)"
      by (auto simp: getTLSConfig_def rbind_eq_Inr split: prod.splits)
    from renew_pair_ok [OF assms(1) this] new_cert_current [OF assms(1-3)] fs True show ?thesis by auto
  next
    case False
    with \<open>\<not> (tf_cert fs = None \<and> tf_key fs = None)\<close> l assms(4) have "fs' = fs \<and> c = old"
      by (auto simp: getTLSConfig_def)
    with False fs show ?thesis by simp
  qed
qed

definition sample_tls_env :: tls_env where
  "sample_tls_env = \<lparr>te_Now = (1000000000, 0),
     te_Gen = (\<lambda>org ds v. Inr \<lparr>crt_Organization = [org], crt_NotAfter = time_add (1000000000, 0) v, crt_ExtraDomains = ds\<rparr>),
     te_Write = (\<lambda>c fs. (\<lparr>tf_cert = Some c, tf_key = Some c\<rparr>, Inr ())),
     te_Load = (\<lambda>fs. case tf_cert fs of
        Some c \<Rightarrow> if tf_key fs = Some c then Inr c else Inl (External ''mismatch'')
      | None \<Rightarrow> Inl (External ''no file'')),
     te_RemoveErr = (\<lambda>b. None)\<rparr>"

definition sample_old_cert :: Cert where
  "sample_old_cert = \<lparr>crt_Organization = [selfSignedCertOrganization], crt_NotAfter = (1000000000, 0), crt_ExtraDomains = [''example.org'']\<rparr>"

lemma tls_certificate_current_example:
  "\<exists>fs' c. getTLSConfig sample_tls_env ''example.org'' False \<lparr>tf_cert = Some sample_old_cert, tf_key = Some sample_old_cert\<rparr>
       = (fs', Inr (Certificate c)) \<and> crt_ExtraDomains c = []"
proof -
  have lib: "cert_lib sample_tls_env"
    by (auto simp: cert_lib_def sample_tls_env_def split: option.splits if_splits)
  have t: "sane_time (te_Now sample_tls_env)" "fst (te_Now sample_tls_env) < 2 ^ 61" by (simp_all add: sane_time_def sample_tls_env_def)
  have "- 1 * selfSignedCertExpiryMargin = -35424000 * 1000000000"
    by (simp add: selfSignedCertExpiryMargin_def selfSignedCertValidity_def seconds_def wrap64_def)
  then have o: "cert_outdated sample_tls_env sample_old_cert"
    using time_add_whole [of "(1000000000, 0)" "-35424000"]
    by (simp add: cert_outdated_def sample_old_cert_def sample_tls_env_def sane_time_def time_before_def)
  have l: "te_Load sample_tls_env \<lparr>tf_cert = Some sample_old_cert, tf_key = Some sample_old_cert\<rparr> = Inr sample_old_cert"
    by (simp add: sample_tls_env_def)
  obtain fs2 c2 where "renew_pair sample_tls_env \<lparr>tf_cert = Some sample_old_cert, tf_key = Some sample_old_cert\<rparr> = (fs2, Inr c2)"
    by (simp add: renew_pair_def gen_pair_def sample_tls_env_def)
  with o l obtain fs' c where g: "getTLSConfig sample_tls_env ''example.org'' False \<lparr>tf_cert = Some sample_old_cert, tf_key = Some sample_old_cert\<rparr>
       = (fs', Inr (Certificate c))"
    by (simp add: getTLSConfig_def)
  from tls_certificate_current [OF lib t g] g o show ?thesis by auto
qed

end
