(* ===== verification/Aperture_Main.thy ===== *)
theory Aperture_Main
  imports Aperture_Config
begin

text \<open>
  Start and shutdown of the proxy, \<^verbatim>\<open>aperture/aperture.go\<close>: \<^verbatim>\<open>createHashMailServer\<close>, \<^verbatim>\<open>createProxy\<close>, \<^verbatim>\<open>allowCORS\<close>,
  \<^verbatim>\<open>initTorListener\<close>, \<^verbatim>\<open>Start\<close>, \<^verbatim>\<open>Stop\<close>, \<^verbatim>\<open>run\<close> and \<^verbatim>\<open>Main\<close>. What is opened and closed is a log of actions.
  Listening sockets, the database driver, lnd's client, the REST gateway and the Tor controller are
  parameters.
\<close>

subsection \<open>Local services\<close>

definition hashMailGRPCPrefix :: string where "hashMailGRPCPrefix = ''/hashmailrpc.HashMail/''"
definition hashMailRESTPrefix :: string where "hashMailRESTPrefix = ''/v1/lightning-node-connect/hashmail''"

text \<open>
  \<^verbatim>\<open>createHashMailServer\<close>: the server and the tests of its gRPC and its REST endpoint. \<open>register\<close> connects
  the REST gateway to the proxy's own address; if that fails the server is stopped again.
\<close>

definition createHashMailServer :: "(string \<Rightarrow> unit result) \<Rightarrow> Config
    \<Rightarrow> (hashMailServer \<times> (http_request \<Rightarrow> bool) list) result" where
  "createHashMailServer register cfg =
     (let server = newHashMailServer \<lparr>msgRate = hc_MessageRate (cf_HashMail cfg),
            msgBurstAllowance = hc_MessageBurstAllowance (cf_HashMail cfg), cfg_staleTimeout = hc_StaleTimeout (cf_HashMail cfg)\<rparr>
      in rbind (register (cf_ListenAddr cfg)) (\<lambda>_.
           Inr (server, [\<lambda>r. has_prefix (req_Path r) hashMailGRPCPrefix, \<lambda>r. has_prefix (req_Path r) hashMailRESTPrefix])))"

text \<open>
  \<^verbatim>\<open>allowCORS\<close>: the response header after the wrapper, and whether the wrapped handler is called.
\<close>

definition allowCORS :: "string list \<Rightarrow> http_request \<Rightarrow> http_header \<Rightarrow> http_header \<times> bool" where
  "allowCORS origins r w =
     (if origins = [] then (w, True)
      else let origin = header_Get (req_Header r) ''Origin'' in
        if origin = [] then (w, True)
        else
          (let w1 = header_Set (header_Set w ''Access-Control-Allow-Headers'' ''Content-Type, Accept, Grpc-Metadata-Macaroon'')
                      ''Access-Control-Allow-Methods'' ''GET, POST, DELETE'';
               w2 = (if \<exists>o' \<in> set origins. o' = ''*'' \<or> origin = o'
                     then header_Set w1 ''Access-Control-Allow-Origin'' origin else w1)
           in (w2, req_Method r \<noteq> ''OPTIONS'')))"

text \<open>
  \<^verbatim>\<open>createProxy\<close>: the local services are the mailbox endpoints and, last, the static files, or an
  answer of 404 to everything.
\<close>

definition createProxy :: "service_env \<Rightarrow> (bytes \<Rightarrow> bool) \<Rightarrow> (string \<Rightarrow> unit result) \<Rightarrow> 'w \<Rightarrow> Config
    \<Rightarrow> ('w Proxy \<times> hashMailServer option) result" where
  "createProxy env appendPEM register auth cfg =
     rbind (if cf_ServeStatic cfg
            then ensure (length (trim_space (cf_StaticRoot cfg)) \<noteq> 0)
                   (Errorf ''staticroot cannot be empty, must contain path to directory that contains index.html'')
            else Inr ()) (\<lambda>_.
     rbind (if hc_Enabled (cf_HashMail cfg)
            then rbind (createHashMailServer register cfg) (\<lambda>(server, services). Inr (Some server, services))
            else Inr (None, [])) (\<lambda>(server, hashMailServices).
     rbind (Proxy_New env appendPEM auth (cf_Services cfg) (hashMailServices @ [\<lambda>r. True])) (\<lambda>prxy.
       Inr (prxy, server))))"

subsection \<open>Start and stop\<close>

text \<open>What a start launches or connects to. \<open>LndConn\<close> is the connection of lnd's client, \<open>ChallengerReader\<close>
  the challenger with its subscription and its goroutine over it, \<open>RestGateway\<close> the connection of the mailbox's
  REST endpoint to the proxy, and \<open>ProxyServer\<close> the proxy with the connections of its pricers. The servers of
  the profile, of Prometheus and of the certificate challenges are launched in goroutines of their own.
  \<open>LogWriter\<close>, which \<^verbatim>\<open>Stop\<close> closes, has been opened before the start, with the logging.\<close>

datatype resource = PrometheusServer | ProfileServer | Database | LndConn | ChallengerReader | HashMailServer | RestGateway
  | ProxyServer | AutocertServer | HttpsServer | LogWriter | TorController | TorServer

datatype action = Opened resource | Closed resource

record 'w Aperture =
  ap_proxy :: "'w Proxy option"
  ap_challenger :: bool
  ap_hashmail :: bool
  ap_db :: bool
  ap_torServer :: bool
  ap_log :: "action list"

definition NewAperture :: "'w Aperture" where
  "NewAperture = \<lparr>ap_proxy = None, ap_challenger = False, ap_hashmail = False, ap_db = False, ap_torServer = False, ap_log = []\<rparr>"

record 'w start_env =
  st_MustRegister :: "unit result"
  st_Postgres :: postgres_env
  st_replacesOrder :: "(string \<times> string) list \<Rightarrow> (string \<times> string) list"
  st_LndClient :: "AuthConfig \<Rightarrow> unit result"
  st_Challenger :: "unit result"
  st_auth :: "'w"
  st_services :: service_env
  st_appendPEM :: "bytes \<Rightarrow> bool"
  st_Register :: "string \<Rightarrow> unit result"
  st_TLS :: "string \<Rightarrow> string \<Rightarrow> bool \<Rightarrow> unit result"
  st_TorStart :: "unit result"
  st_AddOnion :: "int \<Rightarrow> int \<Rightarrow> unit result"

text \<open>\<^verbatim>\<open>StartPrometheusExporter\<close>: the registration of the metrics panics if it fails.\<close>

definition StartPrometheusExporter :: "'w start_env \<Rightarrow> PrometheusConfig \<Rightarrow> action list result" where
  "StartPrometheusExporter env cfg =
     (if \<not> pm_Enabled cfg then Inr [] else rbind (st_MustRegister env) (\<lambda>_. Inr [Opened PrometheusServer]))"

text \<open>The profile port is a \<^verbatim>\<open>uint16\<close>, so only its lower bound can fail.\<close>

definition check_profile :: "16 word \<Rightarrow> action list result" where
  "check_profile port =
     (if port \<noteq> 0 then
        rbind (ensure (\<not> (port < 1024 \<or> unat port > 65535)) (Errorf ''the profile port must be between 1024 and 65535'')) (\<lambda>_.
          Inr [Opened ProfileServer])
      else Inr [])"

definition launch :: "action list result \<Rightarrow> 'w Aperture \<Rightarrow> 'w Aperture \<times> unit result" where
  "launch r a = (case r of Inl e \<Rightarrow> (a, Inl e) | Inr acts \<Rightarrow> (a\<lparr>ap_log := ap_log a @ acts\<rparr>, Inr ()))"

definition initTorListener :: "'w start_env \<Rightarrow> Config \<Rightarrow> unit result" where
  "initTorListener env cfg =
     rbind (st_TorStart env) (\<lambda>_.
       if tor_V3 (cf_Tor cfg)
       then st_AddOnion env (uint (tor_VirtualPort (cf_Tor cfg))) (uint (tor_ListenPort (cf_Tor cfg)))
       else Inr ())"

definition start_db :: "'w start_env \<Rightarrow> Config \<Rightarrow> 'w Aperture \<Rightarrow> 'w Aperture \<times> unit result" where
  "start_db env cfg a =
     (if cf_DatabaseBackend cfg = ''postgres'' then
        (case NewPostgresStore (st_Postgres env) (st_replacesOrder env) (cf_Postgres cfg) of
           Inl e \<Rightarrow> (a, Inl (Errorf ''unable to connect to postgres''))
         | Inr _ \<Rightarrow> (a\<lparr>ap_db := True, ap_log := ap_log a @ [Opened Database]\<rparr>, Inr ()))
      else (a, Inl (Errorf (''unknown database backend: '' @ cf_DatabaseBackend cfg))))"

definition start_challenger :: "'w start_env \<Rightarrow> Config \<Rightarrow> 'w Aperture \<Rightarrow> 'w Aperture \<times> unit result" where
  "start_challenger env cfg a =
     (if ac_Disable (cf_Authenticator cfg) then (a, Inr ())
      else if ac_LndHost (cf_Authenticator cfg) \<noteq> [] then
        (case st_LndClient env (cf_Authenticator cfg) of
           Inl e \<Rightarrow> (a, Inl e)
         | Inr _ \<Rightarrow>
             (let a1 = a\<lparr>ap_log := ap_log a @ [Opened LndConn]\<rparr> in
              case st_Challenger env of
                Inl e \<Rightarrow> (a1, Inl e)
              | Inr _ \<Rightarrow> (a1\<lparr>ap_challenger := True, ap_log := ap_log a1 @ [Opened ChallengerReader]\<rparr>, Inr ())))
      else (a, Inl (Errorf ''no authenticator lndhost config provided'')))"

definition start_proxy :: "'w start_env \<Rightarrow> Config \<Rightarrow> 'w Aperture \<Rightarrow> 'w Aperture \<times> unit result" where
  "start_proxy env cfg a =
     (case createProxy (st_services env) (st_appendPEM env) (st_Register env) (st_auth env) cfg of
        Inl e \<Rightarrow> (a, Inl e)
      | Inr (prxy, server) \<Rightarrow>
          (a\<lparr>ap_proxy := Some prxy, ap_hashmail := (server \<noteq> None),
             ap_log := ap_log a @ (if server \<noteq> None then [Opened HashMailServer, Opened RestGateway] else []) @ [Opened ProxyServer]\<rparr>, Inr ()))"

definition start_https :: "'w start_env \<Rightarrow> Config \<Rightarrow> 'w Aperture \<Rightarrow> 'w Aperture \<times> unit result" where
  "start_https env cfg a =
     (case (if cf_Insecure cfg then Inr () else st_TLS env (cf_ServerName cfg) (cf_BaseDir cfg) (cf_AutoCert cfg)) of
        Inl e \<Rightarrow> (a, Inl e)
      | Inr _ \<Rightarrow> (a\<lparr>ap_log := ap_log a @ (if \<not> cf_Insecure cfg \<and> cf_AutoCert cfg then [Opened AutocertServer] else [])
                                   @ [Opened HttpsServer]\<rparr>, Inr ()))"

text \<open>The Tor controller is stopped by a \<^verbatim>\<open>defer\<close>, when \<^verbatim>\<open>Start\<close> returns.\<close>

definition start_tor :: "'w start_env \<Rightarrow> Config \<Rightarrow> 'w Aperture \<Rightarrow> 'w Aperture \<times> unit result" where
  "start_tor env cfg a =
     (if tor_V3 (cf_Tor cfg) then
        (case initTorListener env cfg of
           Inl e \<Rightarrow> (a, Inl e)
         | Inr _ \<Rightarrow> (a\<lparr>ap_torServer := True,
                       ap_log := ap_log a @ [Opened TorController, Opened TorServer, Closed TorController]\<rparr>, Inr ()))
      else (a, Inr ()))"

definition and_then :: "'w Aperture \<times> unit result \<Rightarrow> ('w Aperture \<Rightarrow> 'w Aperture \<times> unit result) \<Rightarrow> 'w Aperture \<times> unit result" where
  "and_then r f = (case r of (a, Inl e) \<Rightarrow> (a, Inl e) | (a, Inr _) \<Rightarrow> f a)"

definition Aperture_Start :: "'w start_env \<Rightarrow> Config \<Rightarrow> 'w Aperture \<Rightarrow> 'w Aperture \<times> unit result" where
  "Aperture_Start env cfg a =
     and_then (launch (StartPrometheusExporter env (cf_Prometheus cfg)) a) (\<lambda>a.
     and_then (launch (check_profile (cf_Profile cfg)) a) (\<lambda>a.
     and_then (start_db env cfg a) (\<lambda>a.
     and_then (start_challenger env cfg a) (\<lambda>a.
     and_then (start_proxy env cfg a) (\<lambda>a.
     and_then (start_https env cfg a) (\<lambda>a. start_tor env cfg a))))))"

text \<open>
  \<^verbatim>\<open>Stop\<close>: what is closed, in order, and the last of the errors it keeps. Errors of the proxy and of the
  HTTP server are only logged by \<^verbatim>\<open>cleanup\<close>. \<open>closeErr\<close> is what the close of a resource returns.
\<close>

definition cleanup :: "action list" where
  [simp]: "cleanup = [Closed ProxyServer, Closed HttpsServer, Closed LogWriter]"

definition stop_log :: "'w Aperture \<Rightarrow> action list" where
  "stop_log a =
     (if ap_challenger a then [Closed ChallengerReader] else []) @
     (if ap_hashmail a then [Closed HashMailServer, Closed RestGateway] else []) @
     (if ap_db a then [Closed Database] else []) @
     cleanup @
     (if ap_torServer a then [Closed TorServer] else [])"

definition Aperture_Stop :: "(resource \<Rightarrow> go_error option) \<Rightarrow> 'w Aperture \<Rightarrow> 'w Aperture \<times> unit result" where
  "Aperture_Stop closeErr a =
     (if ap_proxy a = None then (a, Inl (Panic ''nil pointer dereference''))
      else (a\<lparr>ap_log := ap_log a @ stop_log a\<rparr>,
            case (if ap_torServer a then closeErr TorServer else None) of
              Some e \<Rightarrow> Inl e
            | None \<Rightarrow> (case (if ap_db a then closeErr Database else None) of Some e \<Rightarrow> Inl e | None \<Rightarrow> Inr ())))"

text \<open>
  \<^verbatim>\<open>run\<close> up to the signal or error that ends the wait, and the exit code of \<^verbatim>\<open>Main\<close>. \<open>isHelp\<close> recognises the
  error of the flag library that stands for a request for help.
\<close>

definition run :: "unit result \<Rightarrow> Config result \<Rightarrow> (Config \<Rightarrow> Config \<times> unit result) \<Rightarrow> 'w start_env \<Rightarrow> (resource \<Rightarrow> go_error option)
    \<Rightarrow> 'w Aperture \<times> unit result" where
  "run intercept config logging env closeErr =
     (case intercept of
        Inl e \<Rightarrow> (NewAperture, Inl e)
      | Inr _ \<Rightarrow>
     (case config of
        Inl e \<Rightarrow> (NewAperture, Inl (Wrap ''unable to parse config file'' e))
      | Inr cfg \<Rightarrow>
     (case logging cfg of
        (cfg', Inl e) \<Rightarrow> (NewAperture, Inl (Errorf ''unable to set up logging''))
      | (cfg', Inr _) \<Rightarrow>
     (case Aperture_Start env cfg' NewAperture of
        (a, Inl e) \<Rightarrow> (a, Inl (Errorf ''unable to start aperture''))
      | (a, Inr _) \<Rightarrow> Aperture_Stop closeErr a))))"

definition Main_exit :: "(go_error \<Rightarrow> bool) \<Rightarrow> unit result \<Rightarrow> nat" where
  "Main_exit isHelp err =
     (case err of
        Inr _ \<Rightarrow> 0
      | Inl (Wrap m e) \<Rightarrow> if isHelp e then 0 else 1
      | Inl e \<Rightarrow> 1)"

subsection \<open>Properties\<close>

lemma and_then_ok: "and_then r f = (b, Inr u) \<longleftrightarrow> (\<exists>a v. r = (a, Inr v) \<and> f a = (b, Inr u))"
  by (auto simp: and_then_def split: prod.splits sum.splits)

lemmas start_defs = start_db_def start_challenger_def start_proxy_def start_https_def start_tor_def

text \<open>A successful start: what it has opened, and what its configuration must have been.\<close>

definition start_log :: "Config \<Rightarrow> bool \<Rightarrow> action list" where
  "start_log cfg hashmail =
     (if pm_Enabled (cf_Prometheus cfg) then [Opened PrometheusServer] else []) @
     (if cf_Profile cfg \<noteq> 0 then [Opened ProfileServer] else []) @ [Opened Database] @
     (if ac_Disable (cf_Authenticator cfg) then [] else [Opened LndConn, Opened ChallengerReader]) @
     (if hashmail then [Opened HashMailServer, Opened RestGateway] else []) @ [Opened ProxyServer] @
     (if \<not> cf_Insecure cfg \<and> cf_AutoCert cfg then [Opened AutocertServer] else []) @ [Opened HttpsServer] @
     (if tor_V3 (cf_Tor cfg) then [Opened TorController, Opened TorServer, Closed TorController] else [])"

lemma Aperture_Start_ok:
  assumes "Aperture_Start env cfg NewAperture = (a, Inr u)"
  shows "cf_DatabaseBackend cfg = ''postgres''"
    and "ac_Disable (cf_Authenticator cfg) \<or> ac_LndHost (cf_Authenticator cfg) \<noteq> []"
    and "ap_proxy a \<noteq> None \<and> ap_db a \<and> (ap_challenger a \<longleftrightarrow> \<not> ac_Disable (cf_Authenticator cfg)) \<and>
         (ap_torServer a \<longleftrightarrow> tor_V3 (cf_Tor cfg))"
    and "ap_log a = start_log cfg (ap_hashmail a)"
proof -
  from assms obtain x b0 b c d e where s: "launch (StartPrometheusExporter env (cf_Prometheus cfg)) NewAperture = (x, Inr ())"
      "launch (check_profile (cf_Profile cfg)) x = (b0, Inr ())" "start_db env cfg b0 = (b, Inr ())" "start_challenger env cfg b = (c, Inr ())"
      "start_proxy env cfg c = (d, Inr ())" "start_https env cfg d = (e, Inr ())" "start_tor env cfg e = (a, Inr ())"
    by (auto simp: Aperture_Start_def and_then_ok)
  have x: "x = NewAperture\<lparr>ap_log := (if pm_Enabled (cf_Prometheus cfg) then [Opened PrometheusServer] else [])\<rparr>"
    using s(1) by (auto simp: launch_def StartPrometheusExporter_def NewAperture_def rbind_eq_Inr split: if_splits sum.splits)
  have b0: "b0 = x\<lparr>ap_log := ap_log x @ (if cf_Profile cfg \<noteq> 0 then [Opened ProfileServer] else [])\<rparr>"
    using s(2) by (auto simp: launch_def check_profile_def rbind_eq_Inr split: if_splits sum.splits)
  have b: "cf_DatabaseBackend cfg = ''postgres''" "b = b0\<lparr>ap_db := True, ap_log := ap_log b0 @ [Opened Database]\<rparr>"
    using s(3) by (auto simp: start_db_def split: if_splits sum.splits)
  have c: "ac_Disable (cf_Authenticator cfg) \<and> c = b \<or> \<not> ac_Disable (cf_Authenticator cfg) \<and> ac_LndHost (cf_Authenticator cfg) \<noteq> [] \<and>
      c = b\<lparr>ap_challenger := True, ap_log := ap_log b @ [Opened LndConn, Opened ChallengerReader]\<rparr>"
    using s(4) by (auto simp: start_challenger_def Let_def split: if_splits sum.splits)
  obtain p h where d: "d = c\<lparr>ap_proxy := Some p, ap_hashmail := h,
      ap_log := ap_log c @ (if h then [Opened HashMailServer, Opened RestGateway] else []) @ [Opened ProxyServer]\<rparr>"
    using s(5) unfolding start_proxy_def by (auto split: sum.splits prod.splits)
  have e: "e = d\<lparr>ap_log := ap_log d @ (if \<not> cf_Insecure cfg \<and> cf_AutoCert cfg then [Opened AutocertServer] else []) @ [Opened HttpsServer]\<rparr>"
    using s(6) by (auto simp: start_https_def split: sum.splits)
  have a: "tor_V3 (cf_Tor cfg) \<and> a = e\<lparr>ap_torServer := True,
        ap_log := ap_log e @ [Opened TorController, Opened TorServer, Closed TorController]\<rparr> \<or> \<not> tor_V3 (cf_Tor cfg) \<and> a = e"
    using s(7) by (auto simp: start_tor_def split: if_splits sum.splits)
  show "cf_DatabaseBackend cfg = ''postgres''" by (rule b(1))
  show "ac_Disable (cf_Authenticator cfg) \<or> ac_LndHost (cf_Authenticator cfg) \<noteq> []" using c by blast
  show "ap_proxy a \<noteq> None \<and> ap_db a \<and> (ap_challenger a \<longleftrightarrow> \<not> ac_Disable (cf_Authenticator cfg)) \<and>
         (ap_torServer a \<longleftrightarrow> tor_V3 (cf_Tor cfg))"
    using a c unfolding d e b(2) b0 x NewAperture_def by auto
  show "ap_log a = start_log cfg (ap_hashmail a)"
    using a c unfolding d e b(2) b0 x NewAperture_def start_log_def by auto
qed

text \<open>
  A configuration that names an LNC passphrase is accepted by the validation and never
  starts; nor does the configuration with the default database.
\<close>

lemma validated_but_never_starts:
  assumes "ac_Passphrase (cf_Authenticator cfg) \<noteq> [] \<and> \<not> ac_Disable (cf_Authenticator cfg) \<and> Config_validate cfg = Inr () \<or>
     cf_DatabaseBackend cfg = cf_DatabaseBackend NewConfig"
  shows "snd (Aperture_Start env cfg NewAperture) \<noteq> Inr ()"
proof
  assume "snd (Aperture_Start env cfg NewAperture) = Inr ()"
  then have ok: "Aperture_Start env cfg NewAperture = (fst (Aperture_Start env cfg NewAperture), Inr ())"
    by (metis prod.collapse)
  show False using assms Aperture_Start_ok(1,2) [OF ok] by (auto simp: result_simps NewConfig_def)
qed



text \<open>
  The endpoints of the mailbox and the static files. With the local services that the start sets
  up, a request that no configured service matches goes to the mailbox's gRPC endpoint, to its REST
  endpoint or to the static files, by its path, and is never left without an answer.
\<close>

lemma unmatched_requests_served_locally:
  assumes "createProxy env appendPEM register auth cfg = Inr (p, server)"
    and "matchService env r (px_services p) = Inr None" and "req_Method r \<noteq> ''OPTIONS''"
  shows "snd (Proxy_ServeHTTP mo lt net env au range_keys w r p) = LocalService (
     if \<not> hc_Enabled (cf_HashMail cfg) then 0
     else if has_prefix (req_Path r) ''/hashmailrpc.HashMail/'' then 0
     else if has_prefix (req_Path r) ''/v1/lightning-node-connect/hashmail'' then 1 else 2)"
proof -
  have n: "px_localServices p = ls" if "Proxy_New env appendPEM auth services ls = Inr p" for services ls
    using that by (auto simp: Proxy_New_def UpdateServices_def rbind_eq_Inr)
  have "px_localServices p = (if hc_Enabled (cf_HashMail cfg)
      then [\<lambda>r. has_prefix (req_Path r) hashMailGRPCPrefix, \<lambda>r. has_prefix (req_Path r) hashMailRESTPrefix] else []) @ [\<lambda>r. True]"
    using assms(1) n by (auto simp: createProxy_def createHashMailServer_def rbind_eq_Inr Let_def split: if_splits)
  then show ?thesis
    using assms(2,3) by (simp add: Proxy_ServeHTTP_def hashMailGRPCPrefix_def hashMailRESTPrefix_def numeral_2_eq_2)
qed

text \<open>The wrapper for other origins: without an origin nothing changes, and a preflight request stops here.\<close>

lemma allowCORS_passes: "header_Get (req_Header r) ''Origin'' = [] \<Longrightarrow> allowCORS origins r w = (w, True)"
  by (simp add: allowCORS_def)

lemma allowCORS_preflight:
  "origins \<noteq> [] \<Longrightarrow> header_Get (req_Header r) ''Origin'' \<noteq> [] \<Longrightarrow> snd (allowCORS origins r w) \<longleftrightarrow> req_Method r \<noteq> ''OPTIONS''"
  by (simp add: allowCORS_def Let_def)

subsection \<open>A concrete start\<close>

definition sample_postgres :: postgres_env where
  "sample_postgres = \<lparr>pe_Open = (\<lambda>d. Inr ()), pe_Driver = Inr (), pe_HttpFS = (\<lambda>f p. Inr ()), pe_NewMigrate = (\<lambda>d. Inr ()),
     pe_Up = (\<lambda>f. Inr True), pe_schemas = (\<lambda>n. Inr Dir)\<rparr>"


definition sample_start_env :: "unit start_env" where
  "sample_start_env = \<lparr>st_MustRegister = Inr (), st_Postgres = sample_postgres, st_replacesOrder = rev, st_LndClient = (\<lambda>c. Inr ()), st_Challenger = Inr (), st_auth = (),
     st_services = sample_service_env, st_appendPEM = (\<lambda>b. True), st_Register = (\<lambda>a. Inr ()), st_TLS = (\<lambda>s d c. Inr ()),
     st_TorStart = Inr (), st_AddOnion = (\<lambda>v l. Inr ())\<rparr>"

definition sample_config :: Config where
  "sample_config = NewConfig\<lparr>cf_ListenAddr := ''localhost:8081'', cf_DatabaseBackend := ''postgres'', cf_Insecure := True, cf_Profile := 6060,
     cf_Authenticator := (cf_Authenticator NewConfig)\<lparr>ac_Disable := True\<rparr>,
     cf_HashMail := (cf_HashMail NewConfig)\<lparr>hc_Enabled := True\<rparr>, cf_Tor := (cf_Tor NewConfig)\<lparr>tor_V3 := True\<rparr>\<rparr>"

lemma sample_createProxy:
  "\<exists>p s. createProxy sample_service_env (\<lambda>b. True) (\<lambda>a. Inr ()) auth sample_config = Inr (p, s) \<and> px_services p = [] \<and> s \<noteq> None"
  by (simp add: createProxy_def createHashMailServer_def sample_config_def NewConfig_def Proxy_New_def UpdateServices_def
      prepareServices_def certPool_def cong del: rbind_cong)

lemma sample_start_env_simps [simp]:
  "st_Postgres sample_start_env = sample_postgres" "st_services sample_start_env = sample_service_env" "st_appendPEM sample_start_env = (\<lambda>b. True)"
  "st_Register sample_start_env = (\<lambda>a. Inr ())" "st_auth sample_start_env = ()" "st_TorStart sample_start_env = Inr ()"
  "st_AddOnion sample_start_env = (\<lambda>v l. Inr ())"
  by (simp_all add: sample_start_env_def)


lemma validated_but_never_starts_example:
  "\<exists>cfg. Config_validate cfg = Inr () \<and> snd (Aperture_Start sample_start_env cfg NewAperture) \<noteq> Inr ()"
proof -
  let ?cfg = "sample_config\<lparr>cf_Authenticator := \<lparr>ac_Network = ''mainnet'', ac_Disable = False, ac_LndHost = [], ac_TLSPath = [],
     ac_MacDir = [], ac_Passphrase = ''words'', ac_MailboxAddress = defaultMailboxAddress, ac_DevServer = False\<rparr>\<rparr>"
  have v: "Config_validate ?cfg = Inr ()" by (simp add: result_simps sample_config_def defaultMailboxAddress_def)
  moreover have "snd (Aperture_Start sample_start_env ?cfg NewAperture) \<noteq> Inr ()"
    by (rule validated_but_never_starts) (simp add: v)
  ultimately show ?thesis by blast
qed


lemma unmatched_requests_served_locally_example:
  "\<exists>p s. createProxy sample_service_env (\<lambda>b. True) (\<lambda>a. Inr ()) sample_paid_state sample_config = Inr (p, s) \<and>
     snd (Proxy_ServeHTTP sample_macaroon_ops sample_hash_ops sample_net sample_service_env (sample_lsat_auth (0, 0)) (\<lambda>h. []) Map.empty
       \<lparr>req_Method = ''GET'', req_Host = [], req_Path = ''/'', req_Scheme = [], req_URLHost = [], req_RemoteAddr = [], req_Header = Map.empty\<rparr> p)
     = LocalService 2"
proof -
  let ?r = "\<lparr>req_Method = ''GET'', req_Host = [], req_Path = ''/'', req_Scheme = [], req_URLHost = [], req_RemoteAddr = [], req_Header = Map.empty\<rparr>"
  obtain p s where p: "createProxy sample_service_env (\<lambda>b. True) (\<lambda>a. Inr ()) sample_paid_state sample_config = Inr (p, s)"
      and n: "px_services p = []"
    using sample_createProxy [of sample_paid_state] by blast
  have m: "matchService sample_service_env ?r (px_services p) = Inr None" by (simp add: n matchService_def)
  have g: "req_Method ?r \<noteq> ''OPTIONS''" by simp
  have pr: "\<not> has_prefix (req_Path ?r) ''/hashmailrpc.HashMail/''" "\<not> has_prefix (req_Path ?r) ''/v1/lightning-node-connect/hashmail''"
    by (simp_all add: has_prefix_def)
  have h: "hc_Enabled (cf_HashMail sample_config)" by (simp add: sample_config_def)
  from unmatched_requests_served_locally [OF p m g, of sample_macaroon_ops sample_hash_ops sample_net "sample_lsat_auth (0, 0)" "\<lambda>h. []" Map.empty]
  have "snd (Proxy_ServeHTTP sample_macaroon_ops sample_hash_ops sample_net sample_service_env (sample_lsat_auth (0, 0)) (\<lambda>h. []) Map.empty ?r p)
     = LocalService 2" by (simp only: pr h not_True_eq_False if_False)
  with p show ?thesis by blast
qed

end
