(* ===== verification/Aperture_Run.thy ===== *)
theory Aperture_Run
  imports Aperture_Main
begin

text \<open>
  The goroutines of a running proxy and their end: \<^verbatim>\<open>run\<close>, the server goroutines of \<^verbatim>\<open>Start\<close> and
  \<^verbatim>\<open>Stop\<close> of \<^verbatim>\<open>aperture/aperture.go\<close>, with the reader of the challenger. The main goroutine waits in
  a select for a signal or an error; each server goroutine hands over what its server returned, or
  sees \<^verbatim>\<open>quit\<close> closed; \<^verbatim>\<open>Stop\<close> stops the challenger, closes the servers and \<^verbatim>\<open>quit\<close>, and waits. A critical
  error of the challenger asks for a shutdown through its logger (\<^verbatim>\<open>genSubLogger\<close> of \<^verbatim>\<open>aperture/log.go\<close>).
\<close>

subsection \<open>The state and its steps\<close>

datatype server_state = SrvServing | SrvReturned | SrvDone

datatype run_phase =
    Starting | Selecting | StopChallenger | WaitReader | StopMailbox | CloseDB | CloseProxy | CloseHttps | CloseTor
  | CloseQuit | WaitServers | RunReturned

text \<open>\<open>ar_requested\<close>: the interceptor was asked to shut down, and will close its channel. The servers are
  closed one after the other, that of HTTPS first; \<open>ar_closed\<close> counts them.\<close>

record 's ap_run =
  ar_phase :: run_phase
  ar_servers :: "server_state list"
  ar_closed :: nat
  ar_quit :: bool
  ar_requested :: bool
  ar_ch :: "'s LnproxyChallenger option"

datatype run_event =
    EvStarted
  | EvServeReturns nat
  | EvServeSends nat
  | EvServeQuits nat
  | EvReaderPoll
  | EvReaderRecv time recv
  | EvSignal
  | EvMain

definition server_at :: "'s ap_run \<Rightarrow> nat \<Rightarrow> server_state \<Rightarrow> bool" where
  "server_at s i st \<longleftrightarrow> i < length (ar_servers s) \<and> ar_servers s ! i = st"

definition reader_ended :: "'s ap_run \<Rightarrow> bool" where
  "reader_ended s = (case ar_ch s of None \<Rightarrow> True | Some ch \<Rightarrow> ch_reader ch = Ended)"

text \<open>The reader logs a settlement that the store did not take as a critical error.\<close>

definition settle_failed :: "lntypes_ops \<Rightarrow> 's secret_ops \<Rightarrow> time \<Rightarrow> recv \<Rightarrow> 's LnproxyChallenger \<Rightarrow> bool" where
  "settle_failed lt ss now r ch \<longleftrightarrow> ch_reader ch = InRecv \<and>
     (case r of
        RecvInvoice i \<Rightarrow>
          (case RHash i of
             None \<Rightarrow> False
           | Some rhash \<Rightarrow>
               (case lnt_MakeHash lt rhash of
                  Inl e \<Rightarrow> False
                | Inr h \<Rightarrow> \<not> invoiceIrrelevant now (Some i) \<and> inv_State i = SETTLED \<and>
                    \<not> is_ok (snd (ss_SetSettledAt ss h (Some (time_Unix (SettleDate i) 0)) (ch_secrets ch)))))
      | _ \<Rightarrow> False)"

text \<open>
  A turn of the reader. The main goroutine takes its error only while it is in the select, and then
  leaves it.
\<close>

definition read_stream :: "lntypes_ops \<Rightarrow> 's secret_ops \<Rightarrow> time \<Rightarrow> recv \<Rightarrow> 's ap_run \<Rightarrow> 's ap_run" where
  "read_stream lt ss now r s =
     (case ar_ch s of
        None \<Rightarrow> s
      | Some ch \<Rightarrow>
          let ch' = fst (reader_recv lt ss now (ar_phase s = Selecting) r ch) in
          s\<lparr>ar_ch := Some ch', ar_phase := (if ch_errors ch' = ch_errors ch then ar_phase s else StopChallenger),
            ar_requested := (ar_requested s \<or> settle_failed lt ss now r ch)\<rparr>)"

text \<open>The next statement of \<^verbatim>\<open>Stop\<close>, if it does not wait for a goroutine. The mailbox server, the database,
  the proxy and each server are closed by calls of their own, between which the other goroutines run; that these
  calls return, the database's after the queries that are running, is part of what a fair run promises.\<close>

definition stop_step :: "'s ap_run \<Rightarrow> 's ap_run" where
  "stop_step s =
     (case ar_phase s of
        StopChallenger \<Rightarrow> s\<lparr>ar_ch := map_option Challenger_Stop (ar_ch s), ar_phase := WaitReader\<rparr>
      | WaitReader \<Rightarrow> if reader_ended s then s\<lparr>ar_phase := StopMailbox\<rparr> else s
      | StopMailbox \<Rightarrow> s\<lparr>ar_phase := CloseDB\<rparr>
      | CloseDB \<Rightarrow> s\<lparr>ar_phase := CloseProxy\<rparr>
      | CloseProxy \<Rightarrow> s\<lparr>ar_phase := CloseHttps\<rparr>
      | CloseHttps \<Rightarrow> s\<lparr>ar_closed := 1, ar_phase := CloseTor\<rparr>
      | CloseTor \<Rightarrow> s\<lparr>ar_closed := length (ar_servers s), ar_phase := CloseQuit\<rparr>
      | CloseQuit \<Rightarrow> s\<lparr>ar_quit := True, ar_phase := WaitServers\<rparr>
      | WaitServers \<Rightarrow> if list_all (\<lambda>st. st = SrvDone) (ar_servers s) then s\<lparr>ar_phase := RunReturned\<rparr> else s
      | _ \<Rightarrow> s)"

fun run_step :: "lntypes_ops \<Rightarrow> 's secret_ops \<Rightarrow> run_event \<Rightarrow> 's ap_run \<Rightarrow> 's ap_run" where
  "run_step lt ss EvStarted s = (if ar_phase s = Starting then s\<lparr>ar_phase := Selecting\<rparr> else s)"
| "run_step lt ss (EvServeReturns i) s =
     (if server_at s i SrvServing then s\<lparr>ar_servers := (ar_servers s)[i := SrvReturned]\<rparr> else s)"
| "run_step lt ss (EvServeSends i) s =
     (if server_at s i SrvReturned \<and> ar_phase s = Selecting
      then s\<lparr>ar_servers := (ar_servers s)[i := SrvDone], ar_phase := StopChallenger\<rparr> else s)"
| "run_step lt ss (EvServeQuits i) s =
     (if server_at s i SrvReturned \<and> ar_quit s then s\<lparr>ar_servers := (ar_servers s)[i := SrvDone]\<rparr> else s)"
| "run_step lt ss EvReaderPoll s = s\<lparr>ar_ch := map_option reader_poll (ar_ch s)\<rparr>"
| "run_step lt ss (EvReaderRecv now r) s = read_stream lt ss now r s"
| "run_step lt ss EvSignal s = (if ar_phase s = Selecting then s\<lparr>ar_phase := StopChallenger\<rparr> else s)"
| "run_step lt ss EvMain s = stop_step s"

definition run_start :: "'s ap_run \<Rightarrow> bool" where
  "run_start s \<longleftrightarrow> ar_phase s = Starting \<and> list_all (\<lambda>st. st = SrvServing) (ar_servers s) \<and>
     ar_closed s = 0 \<and> \<not> ar_quit s \<and> \<not> ar_requested s \<and>
     (case ar_ch s of None \<Rightarrow> True | Some ch \<Rightarrow> ch_reader ch = AtSelect \<and> \<not> ch_quit ch)"

text \<open>A run: the states after the first \<open>n\<close> of a sequence of events.\<close>

primrec run_trace :: "lntypes_ops \<Rightarrow> 's secret_ops \<Rightarrow> (nat \<Rightarrow> run_event) \<Rightarrow> 's ap_run \<Rightarrow> nat \<Rightarrow> 's ap_run" where
  "run_trace lt ss ev s 0 = s"
| "run_trace lt ss ev s (Suc n) = run_step lt ss (ev n) (run_trace lt ss ev s n)"



text \<open>
  What \<^verbatim>\<open>Start\<close> leaves behind: the goroutine of the HTTPS server, that of the Tor server if there is one, and
  the reader of the challenger it built.
\<close>

definition launched :: "'w Aperture \<Rightarrow> 's LnproxyChallenger option \<Rightarrow> 's ap_run" where
  "launched a ch =
     \<lparr>ar_phase = Starting, ar_servers = SrvServing # (if ap_torServer a then [SrvServing] else []),
      ar_closed = 0, ar_quit = False, ar_requested = False, ar_ch = ch\<rparr>"

subsection \<open>What every state of a run satisfies\<close>

lemma launched_starts:
  assumes "NewLnproxyChallenger hasGen lt now listed subscribe store = Inr ch"
  shows "run_start (launched a (Some ch))"
proof -
  have "ch_reader ch = AtSelect \<and> \<not> ch_quit ch"
    using assms by (auto simp: NewLnproxyChallenger_def Challenger_Start_def Let_def split: if_splits sum.splits)
  thus ?thesis by (simp add: run_start_def launched_def)
qed

fun phase_left :: "run_phase \<Rightarrow> nat" where
  "phase_left Starting = 11"
| "phase_left Selecting = 10"
| "phase_left StopChallenger = 9"
| "phase_left WaitReader = 8"
| "phase_left StopMailbox = 7"
| "phase_left CloseDB = 6"
| "phase_left CloseProxy = 5"
| "phase_left CloseHttps = 4"
| "phase_left CloseTor = 3"
| "phase_left CloseQuit = 2"
| "phase_left WaitServers = 1"
| "phase_left RunReturned = 0"


text \<open>
  While the main goroutine waits, the servers and the reader are up; behind each wait of \<^verbatim>\<open>Stop\<close> what it
  waited for has ended.
\<close>

definition run_inv :: "'s ap_run \<Rightarrow> bool" where
  "run_inv s \<longleftrightarrow>
     (10 \<le> phase_left (ar_phase s) \<longrightarrow> SrvDone \<notin> set (ar_servers s)) \<and>
     (\<forall>ch. ar_ch s = Some ch \<longrightarrow> ch_reader ch \<noteq> NotStarted \<and> (ch_quit ch \<longleftrightarrow> phase_left (ar_phase s) \<le> 8) \<and>
        (phase_left (ar_phase s) \<le> 7 \<longrightarrow> ch_reader ch = Ended)) \<and>
     (phase_left (ar_phase s) \<le> 2 \<longrightarrow> ar_closed s = length (ar_servers s)) \<and>
     (ar_quit s \<longleftrightarrow> phase_left (ar_phase s) \<le> 1) \<and>
     (ar_phase s = RunReturned \<longrightarrow> set (ar_servers s) \<subseteq> {SrvDone})"


lemma track_invoice_keeps [simp]:
  "ch_quit (track_invoice ss now h i ch) = ch_quit ch" "ch_errors (track_invoice ss now h i ch) = ch_errors ch"
  by (simp_all add: track_invoice_def Let_def)

lemma reader_recv_quit [simp]: "ch_quit (fst (reader_recv lt ss now rdy r ch)) = ch_quit ch"
  by (simp add: reader_recv_def signal_error_def split: recv.split option.split sum.split)

text \<open>A turn without a receiver at hand adds no error; the reader is out of \<^verbatim>\<open>Recv\<close> afterwards.\<close>

lemma reader_recv_unheard [simp]: "ch_errors (fst (reader_recv lt ss now False r ch)) = ch_errors ch"
  by (simp add: reader_recv_def signal_error_def split: recv.split option.split sum.split)




lemma run_inv_requested [simp]: "run_inv (s\<lparr>ar_requested := b\<rparr>) = run_inv s"
  by (simp add: run_inv_def)










subsection \<open>How much of the shutdown is left\<close>

fun server_left :: "server_state \<Rightarrow> nat" where
  "server_left SrvServing = 2"
| "server_left SrvReturned = 1"
| "server_left SrvDone = 0"

definition reader_left :: "'s ap_run \<Rightarrow> nat" where
  "reader_left s =
     (case ar_ch s of
        None \<Rightarrow> 0
      | Some ch \<Rightarrow> if \<not> ch_quit ch then 2 else (case ch_reader ch of InRecv \<Rightarrow> 2 | AtSelect \<Rightarrow> 1 | _ \<Rightarrow> 0))"

definition servers_left :: "'s ap_run \<Rightarrow> nat" where
  "servers_left s = sum_list (map server_left (ar_servers s))"



lemma left_other [simp]:
  "servers_left (s\<lparr>ar_ch := c\<rparr>) = servers_left s" "servers_left (s\<lparr>ar_phase := p\<rparr>) = servers_left s"
  "servers_left (s\<lparr>ar_closed := b'\<rparr>) = servers_left s" "servers_left (s\<lparr>ar_quit := b\<rparr>) = servers_left s"
  "servers_left (s\<lparr>ar_requested := b\<rparr>) = servers_left s" "reader_left (s\<lparr>ar_requested := b\<rparr>) = reader_left s"
  "reader_left (s\<lparr>ar_servers := xs\<rparr>) = reader_left s" "reader_left (s\<lparr>ar_phase := p\<rparr>) = reader_left s"
  "reader_left (s\<lparr>ar_closed := b'\<rparr>) = reader_left s" "reader_left (s\<lparr>ar_quit := b\<rparr>) = reader_left s"
  by (simp_all add: servers_left_def reader_left_def)







subsection \<open>Fair runs\<close>


























lemma trace_servers_length [simp]: "length (ar_servers (run_trace lt ss ev s n)) = length (ar_servers s)"
proof (induction n)
  case (Suc n)
  thus ?case by (cases "ev n") (auto simp: stop_step_def read_stream_def Let_def split: run_phase.split option.split)
qed simp



text \<open>
  The reader's error is heard only in the select. Whatever ends the reader while \<^verbatim>\<open>Start\<close> still runs, and a
  payment hash it cannot parse at any time, ends it unheard: the main goroutine then waits on, with no reader,
  until a signal or a server's return.
\<close>

lemma unheard_reader_end:
  assumes "ar_ch s = Some ch" "ch_reader ch = InRecv"
    and "r = RecvEOF \<and> ar_phase s = Starting \<or>
      (\<exists>i h e. r = RecvInvoice i \<and> RHash i = Some h \<and> lnt_MakeHash lt h = Inl e)"
  shows "reader_ended (run_step lt ss (EvReaderRecv now r) s) \<and> ar_phase (run_step lt ss (EvReaderRecv now r) s) = ar_phase s"
  using assms by (auto simp: read_stream_def reader_ended_def reader_recv_def signal_error_def)

lemma waits_without_reader:
  assumes "reader_ended s" "ar_phase s = Selecting" "ev \<noteq> EvSignal" "\<forall>i. ev \<noteq> EvServeSends i"
  shows "reader_ended (run_step lt ss ev s) \<and> ar_phase (run_step lt ss ev s) = Selecting"
  using assms
  by (cases ev) (auto simp: stop_step_def read_stream_def reader_ended_def reader_recv_def reader_poll_def split: option.splits)

lemma reader_error_heard:
  assumes "ar_ch s = Some ch" "ch_reader ch = InRecv" "ar_phase s = Selecting"
    and "r = RecvEOF \<or> (\<exists>e. r = RecvErr e \<and> \<not> contains e ''context canceled'')"
  shows "ar_phase (run_step lt ss (EvReaderRecv now r) s) = StopChallenger"
  using assms by (auto simp: read_stream_def reader_recv_def signal_error_def)

end
