(* ===== verification/Contents.thy ===== *)
theory Contents
  imports Go_Encoding Http_Model
begin

text \<open>
  The content service behind the proxy: the table of contents (\<^verbatim>\<open>contents/db/db.go\<close>), the gRPC and
  HTTP handlers (\<^verbatim>\<open>contents/content.go\<close>), the price server that aperture asks
  (\<^verbatim>\<open>contents/pricer.go\<close>) and the command line client (\<^verbatim>\<open>contents/cmd/appcli/main.go\<close>).

  The table is a list of rows. Its primary key is part of the model. Every other way for a
  statement to fail is an argument, one for each statement: \<open>fault\<close> for one that reads, and
  \<open>exec_fate\<close> for one that writes, which may fail before or after it took effect. S3, URL parsing and the
  transport of gRPC are parameters.
\<close>

subsection \<open>The table\<close>

record Content =
  ct_Id :: string
  ct_Title :: string
  ct_Author :: string
  ct_Filepath :: string
  ct_RecipientLud16 :: string
  ct_Price :: int

type_synonym fault = "go_error option"
type_synonym contents = "Content list"

datatype exec_fate = Executed | NotExecuted go_error | Unacknowledged go_error

text \<open>A statement that writes is atomic in the database: it is refused there, or it takes effect as a
  whole. The connection may break before it arrives, or before its result does.\<close>

definition exec_stmt :: "exec_fate \<Rightarrow> (contents \<Rightarrow> contents result) \<Rightarrow> contents \<Rightarrow> contents \<times> unit result" where
  "exec_stmt fate stmt tbl =
     (let tbl' = (case stmt tbl of Inl e \<Rightarrow> tbl | Inr t \<Rightarrow> t)
      in case fate of
           Executed \<Rightarrow> (tbl', rbind (stmt tbl) (\<lambda>_. Inr ()))
         | NotExecuted e \<Rightarrow> (tbl, Inl e)
         | Unacknowledged e \<Rightarrow> (tbl', Inl e))"

definition insert_content :: "Content \<Rightarrow> contents \<Rightarrow> contents result" where
  "insert_content c tbl = (if ct_Id c \<in> ct_Id ` set tbl then Inl (PgError ''23505'') else Inr (tbl @ [c]))"

definition update_content :: "Content \<Rightarrow> contents \<Rightarrow> contents result" where
  "update_content c tbl = Inr (map (\<lambda>r. if ct_Id r = ct_Id c then c else r) tbl)"

definition delete_content :: "string \<Rightarrow> contents \<Rightarrow> contents result" where
  "delete_content cid tbl = Inr (filter (\<lambda>r. ct_Id r \<noteq> cid) tbl)"

definition count_content :: "string \<Rightarrow> contents \<Rightarrow> nat" where
  "count_content cid tbl = length (filter (\<lambda>r. ct_Id r = cid) tbl)"

definition DB_AddContent :: "exec_fate \<Rightarrow> Content \<Rightarrow> contents \<Rightarrow> contents \<times> string result" where
  "DB_AddContent fate c tbl =
     (case exec_stmt fate (insert_content c) tbl of
        (tbl', Inl e) \<Rightarrow> (tbl', Inl e)
      | (tbl', Inr _) \<Rightarrow> (tbl', Inr (ct_Id c)))"

text \<open>An update that matches no row is not an error.\<close>

definition DB_UpdateContent :: "exec_fate \<Rightarrow> Content \<Rightarrow> contents \<Rightarrow> contents \<times> string result" where
  "DB_UpdateContent fate c tbl =
     (case exec_stmt fate (update_content c) tbl of
        (tbl', Inl e) \<Rightarrow> (tbl', Inl e)
      | (tbl', Inr _) \<Rightarrow> (tbl', Inr (ct_Id c)))"

text \<open>Counting and deleting are two statements without a transaction; \<open>others\<close> is what the
  statements of other requests make of the table in between.\<close>

definition DB_RemoveContent :: "fault \<Rightarrow> (contents \<Rightarrow> contents) \<Rightarrow> exec_fate \<Rightarrow> string \<Rightarrow> contents \<Rightarrow> contents \<times> string result" where
  "DB_RemoveContent fault others fate cid tbl =
     (case fault of
        Some e \<Rightarrow> (tbl, Inl e)
      | None \<Rightarrow>
          if count_content cid tbl = 0
          then (tbl, Inl (Errorf (''content with id '' @ cid @ '' does not exist'')))
          else (case exec_stmt fate (delete_content cid) (others tbl) of
                  (tbl', Inl e) \<Rightarrow> (tbl', Inl e)
                | (tbl', Inr _) \<Rightarrow> (tbl', Inr cid)))"

definition DB_GetContent :: "fault \<Rightarrow> string \<Rightarrow> contents \<Rightarrow> Content result" where
  "DB_GetContent fault cid tbl =
     (case fault of
        Some e \<Rightarrow> Inl e
      | None \<Rightarrow>
          (case List.find (\<lambda>r. ct_Id r = cid) tbl of
             None \<Rightarrow> Inl (Errorf (''no content with id '' @ cid))
           | Some r \<Rightarrow> Inr r))"

subsection \<open>The content service\<close>

record ServerConfig =
  sc_Region :: string
  sc_S3Bucket :: string
  sc_PostgresUser :: string
  sc_PostgresPassword :: string
  sc_PostgresHost :: string
  sc_PostgresPort :: string
  sc_PostgresDB :: string

definition dataSourceName :: "ServerConfig \<Rightarrow> string" where
  "dataSourceName conf =
     ''postgres://'' @ sc_PostgresUser conf @ '':'' @ sc_PostgresPassword conf @ ''@'' @ sc_PostgresHost conf
     @ '':'' @ sc_PostgresPort conf @ ''/'' @ sc_PostgresDB conf @ ''?sslmode='' @ ''disable''"

text \<open>The start of the server: \<^verbatim>\<open>.env\<close>, the environment, the database and the AWS configuration.\<close>

record content_env =
  ce_Dotenv :: "unit result"
  ce_Env :: "ServerConfig result"
  ce_OpenDB :: "string \<Rightarrow> unit result"
  ce_LoadConfig :: "string \<Rightarrow> unit result"
  ce_Retrieve :: "unit result"
  ce_Parse :: "string \<Rightarrow> string result"
  ce_NewRequest :: "string \<Rightarrow> unit result"
  ce_Do :: "string \<Rightarrow> bytes result"

record content_server =
  sv_db :: contents
  sv_conf :: ServerConfig
  sv_region :: string

definition SetupAWSConfig :: "content_env \<Rightarrow> content_server \<Rightarrow> content_server result" where
  "SetupAWSConfig env s =
     rbind (ce_LoadConfig env ''ap-northeast-1'') (\<lambda>_.
     rbind (ce_Retrieve env) (\<lambda>_. Inr (s\<lparr>sv_region := ''ap-northeast-1''\<rparr>)))"

definition NewServer :: "content_env \<Rightarrow> contents \<Rightarrow> content_server result" where
  "NewServer env tbl =
     (case ce_Dotenv env of
        Inl e \<Rightarrow> Inl (Panic ''godotenv'')
      | Inr _ \<Rightarrow>
     (case ce_Env env of
        Inl e \<Rightarrow> Inl (Panic ''env'')
      | Inr conf \<Rightarrow>
     rbind (ce_OpenDB env (dataSourceName conf)) (\<lambda>_.
     SetupAWSConfig env \<lparr>sv_db = tbl, sv_conf = conf, sv_region = []\<rparr>)))"

text \<open>
  The handlers. The message of a request may lack its content, and the handlers read its fields
  without a test, which dereferences nil.
\<close>

definition with_db :: "content_server \<Rightarrow> contents \<times> 'a result \<Rightarrow> content_server \<times> 'a result" where
  "with_db s r = (s\<lparr>sv_db := fst r\<rparr>, snd r)"

definition AddContent :: "exec_fate \<Rightarrow> Content option \<Rightarrow> content_server \<Rightarrow> content_server \<times> string result" where
  "AddContent fate req s =
     (case req of
        None \<Rightarrow> (s, Inl (Panic ''nil pointer dereference''))
      | Some c \<Rightarrow> with_db s (DB_AddContent fate c (sv_db s)))"

definition UpdateContent :: "exec_fate \<Rightarrow> Content option \<Rightarrow> content_server \<Rightarrow> content_server \<times> string result" where
  "UpdateContent fate req s =
     (case req of
        None \<Rightarrow> (s, Inl (Panic ''nil pointer dereference''))
      | Some c \<Rightarrow> with_db s (DB_UpdateContent fate c (sv_db s)))"

definition RemoveContent :: "fault \<Rightarrow> (contents \<Rightarrow> contents) \<Rightarrow> exec_fate \<Rightarrow> string \<Rightarrow> content_server \<Rightarrow> content_server \<times> string result" where
  "RemoveContent fault others fate cid s = with_db s (DB_RemoveContent fault others fate cid (sv_db s))"

definition GetContent :: "fault \<Rightarrow> string \<Rightarrow> content_server \<Rightarrow> Content result" where
  "GetContent fault cid s = DB_GetContent fault cid (sv_db s)"

subsection \<open>Delivery\<close>

definition write_Error :: "http_response \<Rightarrow> string \<Rightarrow> nat \<Rightarrow> http_response" where
  "write_Error w msg code = w\<lparr>resp_Status := code,
     resp_Header := header_Set (header_Set (resp_Header w) ''Content-Type'' ''text/plain; charset=utf-8'')
       ''X-Content-Type-Options'' ''nosniff'',
     resp_Body := resp_Body w @ msg @ [CHR 0x0A]\<rparr>"

definition object_url :: "content_server \<Rightarrow> Content \<Rightarrow> string" where
  "object_url s c = ''https://'' @ sc_S3Bucket (sv_conf s) @ ''.s3-'' @ sv_region s @ ''.amazonaws.com/'' @ ct_Filepath c"

text \<open>
  \<^verbatim>\<open>contentHandler\<close>; \<open>cid\<close> is the variable that the router matched. \<open>ce_Do\<close> is the body of the answer
  of S3, which the code passes on whatever its status, and \<open>text_of\<close> the text of an error.
\<close>

definition contentHandler :: "content_env \<Rightarrow> (go_error \<Rightarrow> string) \<Rightarrow> fault \<Rightarrow> string \<Rightarrow> content_server
    \<Rightarrow> http_response \<Rightarrow> http_response" where
  "contentHandler env text_of fault cid s w =
     (case rbind (DB_GetContent fault cid (sv_db s)) (\<lambda>c.
           rbind (ce_Parse env (object_url s c)) (\<lambda>u.
           rbind (ce_NewRequest env u) (\<lambda>_. ce_Do env u))) of
        Inl e \<Rightarrow> write_Error w (text_of e) 500
      | Inr content_bytes \<Rightarrow>
          w\<lparr>resp_Header := header_Set (resp_Header w) ''Content-Type'' ''text/plain'',
            resp_Body := resp_Body w @ b64_encode content_bytes\<rparr>)"

definition freebeeHandler :: "http_response \<Rightarrow> http_response" where
  "freebeeHandler w = w\<lparr>resp_Body := resp_Body w @ ''Freebee endpoint test'' @ [CHR 0x0A]\<rparr>"

subsection \<open>Prices\<close>

record price_quote =
  pq_RecipientLud16 :: string
  pq_PriceSats :: int

definition quoted_id :: "string \<Rightarrow> string" where
  "quoted_id path = trim_left path ''/content/''"

definition Server_GetPaymentDetails :: "fault \<Rightarrow> string \<Rightarrow> content_server \<Rightarrow> price_quote result" where
  "Server_GetPaymentDetails fault path s =
     (if \<not> contains path ''content'' then Inl (Errorf ''no prices for given path'')
      else rbind (DB_GetContent fault (quoted_id path) (sv_db s)) (\<lambda>c.
             Inr \<lparr>pq_RecipientLud16 = ct_RecipientLud16 c, pq_PriceSats = ct_Price c\<rparr>))"

subsection \<open>The command line client\<close>

text \<open>The flags of a command, with the defaults of \<^verbatim>\<open>urfave/cli\<close>, and the service behind the connection.\<close>

record cli_flags =
  fl_id :: string
  fl_title :: string
  fl_author :: string
  fl_filepath :: string
  fl_recipient_lud16 :: string
  fl_price :: int

record 's content_client =
  cc_Dial :: "unit result"
  cc_Add :: "Content \<Rightarrow> 's \<Rightarrow> 's \<times> string result"
  cc_Update :: "Content \<Rightarrow> 's \<Rightarrow> 's \<times> string result"
  cc_Remove :: "string \<Rightarrow> 's \<Rightarrow> 's \<times> string result"
  cc_Get :: "string \<Rightarrow> 's \<Rightarrow> Content result"

definition getClient :: "'s content_client \<Rightarrow> unit result" where
  "getClient cl = (case cc_Dial cl of Inl e \<Rightarrow> Inl (Errorf ''unable to connect to RPC server'') | Inr _ \<Rightarrow> Inr ())"

definition add_checks :: "cli_flags \<Rightarrow> unit result" where
  "add_checks fl =
     rbind (ensure (fl_id fl \<noteq> []) (Errorf ''must set an id for the content'')) (\<lambda>_.
     rbind (ensure (fl_title fl \<noteq> []) (Errorf ''must set a title for the content'')) (\<lambda>_.
     rbind (ensure (fl_author fl \<noteq> []) (Errorf ''must set a author for the content'')) (\<lambda>_.
     rbind (ensure (fl_filepath fl \<noteq> []) (Errorf ''must set filepath for the content'')) (\<lambda>_.
     rbind (ensure (fl_recipient_lud16 fl \<noteq> []) (Errorf ''must set recipient_lud16 for the content'')) (\<lambda>_.
     ensure (\<not> fl_price fl < 0) (Errorf ''cant have a negative price''))))))"

definition cli_addContent :: "'s content_client \<Rightarrow> cli_flags \<Rightarrow> 's \<Rightarrow> 's \<times> string result" where
  "cli_addContent cl fl s =
     (case rbind (getClient cl) (\<lambda>_. add_checks fl) of
        Inl e \<Rightarrow> (s, Inl e)
      | Inr _ \<Rightarrow> cc_Add cl \<lparr>ct_Id = fl_id fl, ct_Title = fl_title fl, ct_Author = fl_author fl, ct_Filepath = fl_filepath fl,
                    ct_RecipientLud16 = fl_recipient_lud16 fl, ct_Price = fl_price fl\<rparr> s)"

definition getContentImpl :: "'s content_client \<Rightarrow> string \<Rightarrow> 's \<Rightarrow> Content result" where
  "getContentImpl cl cid s = rbind (getClient cl) (\<lambda>_. cc_Get cl cid s)"

definition set_fields :: "cli_flags \<Rightarrow> Content \<Rightarrow> Content" where
  "set_fields fl c =
     c\<lparr>ct_Title := (if fl_title fl \<noteq> [] then fl_title fl else ct_Title c),
       ct_Author := (if fl_author fl \<noteq> [] then fl_author fl else ct_Author c),
       ct_Filepath := (if fl_filepath fl \<noteq> [] then fl_filepath fl else ct_Filepath c),
       ct_RecipientLud16 := (if fl_recipient_lud16 fl \<noteq> [] then fl_recipient_lud16 fl else ct_RecipientLud16 c),
       ct_Price := (if fl_price fl > 0 then fl_price fl else ct_Price c)\<rparr>"

definition moreThanOneSet :: "cli_flags \<Rightarrow> bool" where
  "moreThanOneSet fl = (fl_title fl \<noteq> [] \<or> fl_author fl \<noteq> [] \<or> fl_filepath fl \<noteq> [] \<or> fl_recipient_lud16 fl \<noteq> [] \<or> fl_price fl > 0)"

definition cli_updateContent :: "'s content_client \<Rightarrow> cli_flags \<Rightarrow> 's \<Rightarrow> 's \<times> string result" where
  "cli_updateContent cl fl s =
     (case rbind (getClient cl) (\<lambda>_.
           rbind (ensure (fl_id fl \<noteq> []) (Errorf ''must set an id for the content'')) (\<lambda>_.
           case getContentImpl cl (fl_id fl) s of
             Inl e \<Rightarrow> Inl (Errorf (''no content with id '' @ fl_id fl))
           | Inr proto \<Rightarrow>
               rbind (ensure (moreThanOneSet fl) (Errorf ''must set at least one field to update'')) (\<lambda>_.
               Inr (set_fields fl proto)))) of
        Inl e \<Rightarrow> (s, Inl e)
      | Inr proto \<Rightarrow> cc_Update cl proto s)"

definition cli_removeContent :: "'s content_client \<Rightarrow> cli_flags \<Rightarrow> 's \<Rightarrow> 's \<times> string result" where
  "cli_removeContent cl fl s =
     (case rbind (getClient cl) (\<lambda>_. ensure (fl_id fl \<noteq> []) (Errorf ''must set an id for the content'')) of
        Inl e \<Rightarrow> (s, Inl e)
      | Inr _ \<Rightarrow> cc_Remove cl (fl_id fl) s)"

definition cli_getContent :: "'s content_client \<Rightarrow> cli_flags \<Rightarrow> 's \<Rightarrow> Content result" where
  "cli_getContent cl fl s =
     rbind (ensure (fl_id fl \<noteq> []) (Errorf ''must set an id for the content'')) (\<lambda>_. getContentImpl cl (fl_id fl) s)"

subsection \<open>The contract of the service\<close>

text \<open>
  What the command line client relies on: the service is a map from ids to contents. \<open>look\<close> is
  the map a state of the service stands for.
\<close>

locale content_service =
  fixes cl :: "'s content_client" and look :: "'s \<Rightarrow> string \<rightharpoonup> Content" and good :: "'s \<Rightarrow> bool"
  assumes dial: "cc_Dial cl = Inr ()"
    and key: "good s \<Longrightarrow> look s i = Some c \<Longrightarrow> ct_Id c = i"
    and get: "good s \<Longrightarrow> cc_Get cl i s = (case look s i of None \<Rightarrow> Inl (Errorf (''no content with id '' @ i)) | Some c \<Rightarrow> Inr c)"
    and add_new: "good s \<Longrightarrow> look s (ct_Id c) = None \<Longrightarrow>
      \<exists>s'. cc_Add cl c s = (s', Inr (ct_Id c)) \<and> good s' \<and> look s' = (look s)(ct_Id c \<mapsto> c)"
    and add_old: "good s \<Longrightarrow> look s (ct_Id c) \<noteq> None \<Longrightarrow> \<exists>e. cc_Add cl c s = (s, Inl e)"
    and update: "good s \<Longrightarrow> look s (ct_Id c) \<noteq> None \<Longrightarrow>
      \<exists>s'. cc_Update cl c s = (s', Inr (ct_Id c)) \<and> good s' \<and> look s' = (look s)(ct_Id c \<mapsto> c)"
    and remove: "good s \<Longrightarrow> look s i \<noteq> None \<Longrightarrow>
      \<exists>s'. cc_Remove cl i s = (s', Inr i) \<and> good s' \<and> look s' = (look s)(i := None)"
begin

lemma client [simp]: "getClient cl = Inr ()"
  by (simp add: getClient_def dial)

lemma getImpl: "good s \<Longrightarrow> getContentImpl cl i s = (case look s i of None \<Rightarrow> Inl (Errorf (''no content with id '' @ i)) | Some c \<Rightarrow> Inr c)"
  by (simp add: getContentImpl_def get)

lemma found: "good s \<Longrightarrow> fl_id fl \<noteq> [] \<Longrightarrow> look s (fl_id fl) = Some c \<Longrightarrow> cli_getContent cl fl s = Inr c"
  unfolding cli_getContent_def ensure_def by (simp add: getImpl)

lemma missing: "good s \<Longrightarrow> fl_id fl \<noteq> [] \<Longrightarrow> look s (fl_id fl) = None \<Longrightarrow>
    cli_getContent cl fl s = Inl (Errorf (''no content with id '' @ fl_id fl))"
  unfolding cli_getContent_def ensure_def by (simp add: getImpl)

lemma added_is_found:
  assumes "good s" and "add_checks fl = Inr ()" and "look s (fl_id fl) = None"
  shows "\<exists>s'. cli_addContent cl fl s = (s', Inr (fl_id fl)) \<and> good s' \<and>
     cli_getContent cl fl s' = Inr \<lparr>ct_Id = fl_id fl, ct_Title = fl_title fl, ct_Author = fl_author fl, ct_Filepath = fl_filepath fl,
       ct_RecipientLud16 = fl_recipient_lud16 fl, ct_Price = fl_price fl\<rparr> \<and>
     (\<forall>i. i \<noteq> fl_id fl \<longrightarrow> look s' i = look s i)"
proof -
  let ?c = "\<lparr>ct_Id = fl_id fl, ct_Title = fl_title fl, ct_Author = fl_author fl, ct_Filepath = fl_filepath fl,
       ct_RecipientLud16 = fl_recipient_lud16 fl, ct_Price = fl_price fl\<rparr>"
  obtain s' where s': "cc_Add cl ?c s = (s', Inr (fl_id fl))" "good s'" "look s' = (look s)(fl_id fl \<mapsto> ?c)"
    using add_new [of s ?c] assms by auto
  have "fl_id fl \<noteq> []" using assms(2) by (simp add: add_checks_def rbind_eq_Inr ensure_eq_Inr)
  then have "cli_getContent cl fl s' = Inr ?c" using s' by (intro found) simp_all
  moreover have "cli_addContent cl fl s = (s', Inr (fl_id fl))" using s'(1) assms(2) by (simp add: cli_addContent_def cong del: rbind_cong)
  ultimately show ?thesis using s'(2,3) by (intro exI [of _ s'] conjI) simp_all
qed

lemma updated_is_found:
  assumes "good s" and "fl_id fl \<noteq> []" and "moreThanOneSet fl" and "look s (fl_id fl) = Some c"
  shows "\<exists>s'. cli_updateContent cl fl s = (s', Inr (fl_id fl)) \<and> good s' \<and>
     cli_getContent cl fl s' = Inr (set_fields fl c) \<and> (\<forall>i. i \<noteq> fl_id fl \<longrightarrow> look s' i = look s i)"
proof -
  have k: "ct_Id (set_fields fl c) = fl_id fl" using key [OF assms(1,4)] by (simp add: set_fields_def)
  obtain s' where s': "cc_Update cl (set_fields fl c) s = (s', Inr (fl_id fl))" "good s'"
      "look s' = (look s)(fl_id fl \<mapsto> set_fields fl c)"
    using update [of s "set_fields fl c"] assms k by auto
  have "cli_getContent cl fl s' = Inr (set_fields fl c)" using s' assms(2) by (intro found) simp_all
  moreover have "cli_updateContent cl fl s = (s', Inr (fl_id fl))"
    using s'(1) assms by (simp add: cli_updateContent_def ensure_def getImpl cong del: rbind_cong)
  ultimately show ?thesis using s'(2,3) by (intro exI [of _ s'] conjI) simp_all
qed

lemma removed_is_gone:
  assumes "good s" and "fl_id fl \<noteq> []" and "look s (fl_id fl) \<noteq> None"
  shows "\<exists>s'. cli_removeContent cl fl s = (s', Inr (fl_id fl)) \<and> good s' \<and>
     cli_getContent cl fl s' = Inl (Errorf (''no content with id '' @ fl_id fl))"
proof -
  obtain s' where s': "cc_Remove cl (fl_id fl) s = (s', Inr (fl_id fl))" "good s'" "look s' = (look s)(fl_id fl := None)"
    using remove [OF assms(1,3)] by auto
  then have "cli_getContent cl fl s' = Inl (Errorf (''no content with id '' @ fl_id fl))"
    using assms(2) by (intro missing) simp_all
  moreover have "cli_removeContent cl fl s = (s', Inr (fl_id fl))"
    using s'(1) assms(2) by (simp add: cli_removeContent_def ensure_def cong del: rbind_cong)
  ultimately show ?thesis using s'(2) by blast
qed

end

subsection \<open>The table as a map\<close>

definition contents_map :: "contents \<Rightarrow> string \<rightharpoonup> Content" where
  "contents_map tbl = map_of (map (\<lambda>r. (ct_Id r, r)) tbl)"

definition contents_ok :: "contents \<Rightarrow> bool" where
  "contents_ok tbl = distinct (map ct_Id tbl)"

lemma contents_map_find: "contents_map tbl i = List.find (\<lambda>r. ct_Id r = i) tbl"
  by (induction tbl) (auto simp: contents_map_def)

lemma contents_map_None: "contents_map tbl i = None \<longleftrightarrow> i \<notin> ct_Id ` set tbl"
  by (simp add: contents_map_def map_of_eq_None_iff image_image)

lemma contents_map_key: "contents_map tbl i = Some c \<Longrightarrow> ct_Id c = i"
  by (auto simp: contents_map_find dest: find_SomeD)

lemma contents_map_append: "contents_map tbl (ct_Id c) = None \<Longrightarrow> contents_map (tbl @ [c]) = (contents_map tbl)(ct_Id c \<mapsto> c)"
  by (rule ext) (auto simp: contents_map_find find_append split: option.splits dest: find_SomeD)

lemma contents_map_update:
  "contents_map (map (\<lambda>r. if ct_Id r = ct_Id c then c else r) tbl) =
     (if contents_map tbl (ct_Id c) = None then contents_map tbl else (contents_map tbl)(ct_Id c \<mapsto> c))"
  by (rule ext, induction tbl) (auto simp: contents_map_def split: if_splits)

lemma contents_map_filter: "contents_map (filter (\<lambda>r. ct_Id r \<noteq> i) tbl) = (contents_map tbl)(i := None)"
  by (rule ext, induction tbl) (auto simp: contents_map_def)

lemma contents_ok_update: "contents_ok tbl \<Longrightarrow> contents_ok (map (\<lambda>r. if ct_Id r = ct_Id c then c else r) tbl)"
proof -
  have "map ct_Id (map (\<lambda>r. if ct_Id r = ct_Id c then c else r) tbl) = map ct_Id tbl" by auto
  then show "contents_ok tbl \<Longrightarrow> ?thesis" unfolding contents_ok_def by metis
qed

lemma contents_ok_filter: "contents_ok tbl \<Longrightarrow> contents_ok (filter P tbl)"
  by (simp add: contents_ok_def distinct_map_filter)

text \<open>The service as a client that is alone reaches it when no statement fails.\<close>

definition direct_client :: "content_server content_client" where
  "direct_client = \<lparr>cc_Dial = Inr (), cc_Add = (\<lambda>c. AddContent Executed (Some c)), cc_Update = (\<lambda>c. UpdateContent Executed (Some c)),
     cc_Remove = RemoveContent None (\<lambda>t. t) Executed, cc_Get = GetContent None\<rparr>"

interpretation direct: content_service direct_client "contents_map \<circ> sv_db" "contents_ok \<circ> sv_db"
proof
  fix s :: content_server and c i
  show "cc_Dial direct_client = Inr ()" by (simp add: direct_client_def)
  show "ct_Id c = i" if "(contents_ok \<circ> sv_db) s" "(contents_map \<circ> sv_db) s i = Some c"
    using that by (simp add: contents_map_key)
  show "cc_Get direct_client i s = (case (contents_map \<circ> sv_db) s i of None \<Rightarrow> Inl (Errorf (''no content with id '' @ i)) | Some c \<Rightarrow> Inr c)"
    by (simp add: direct_client_def GetContent_def DB_GetContent_def contents_map_find)
  show "\<exists>s'. cc_Add direct_client c s = (s', Inr (ct_Id c)) \<and> (contents_ok \<circ> sv_db) s' \<and>
      (contents_map \<circ> sv_db) s' = ((contents_map \<circ> sv_db) s)(ct_Id c \<mapsto> c)"
    if "(contents_ok \<circ> sv_db) s" "(contents_map \<circ> sv_db) s (ct_Id c) = None"
    using that by (simp add: direct_client_def AddContent_def DB_AddContent_def exec_stmt_def insert_content_def with_db_def contents_map_append)
      (simp add: contents_map_None contents_ok_def)
  show "\<exists>e. cc_Add direct_client c s = (s, Inl e)" if "(contents_map \<circ> sv_db) s (ct_Id c) \<noteq> None"
    using that by (auto simp: direct_client_def AddContent_def DB_AddContent_def exec_stmt_def insert_content_def with_db_def contents_map_None)
  show "\<exists>s'. cc_Update direct_client c s = (s', Inr (ct_Id c)) \<and> (contents_ok \<circ> sv_db) s' \<and>
      (contents_map \<circ> sv_db) s' = ((contents_map \<circ> sv_db) s)(ct_Id c \<mapsto> c)"
    if "(contents_ok \<circ> sv_db) s" "(contents_map \<circ> sv_db) s (ct_Id c) \<noteq> None"
    using that by (auto simp: direct_client_def UpdateContent_def DB_UpdateContent_def exec_stmt_def update_content_def with_db_def contents_ok_update contents_map_update)
  show "\<exists>s'. cc_Remove direct_client i s = (s', Inr i) \<and> (contents_ok \<circ> sv_db) s' \<and>
      (contents_map \<circ> sv_db) s' = ((contents_map \<circ> sv_db) s)(i := None)"
    if "(contents_ok \<circ> sv_db) s" "(contents_map \<circ> sv_db) s i \<noteq> None"
    using that by (auto simp: direct_client_def RemoveContent_def DB_RemoveContent_def exec_stmt_def delete_content_def count_content_def with_db_def contents_ok_filter
        contents_map_filter contents_map_None filter_empty_conv)
qed

subsection \<open>Properties\<close>

lemma insert_content_map:
  assumes "contents_ok tbl"
  shows "(case insert_content c tbl of
      Inl e \<Rightarrow> e = PgError ''23505'' \<and> contents_map tbl (ct_Id c) \<noteq> None
    | Inr t \<Rightarrow> contents_ok t \<and> contents_map tbl (ct_Id c) = None \<and> contents_map t = (contents_map tbl)(ct_Id c \<mapsto> c))"
  using assms contents_map_append [of tbl c] contents_map_None [of tbl "ct_Id c"]
  by (auto simp: insert_content_def contents_ok_def)

lemma update_content_map:
  assumes "contents_ok tbl"
  shows "\<exists>t. update_content c tbl = Inr t \<and> contents_ok t \<and>
     contents_map t = (if contents_map tbl (ct_Id c) = None then contents_map tbl else (contents_map tbl)(ct_Id c \<mapsto> c))"
  unfolding update_content_def using contents_ok_update [OF assms] contents_map_update by blast

lemma delete_content_map:
  assumes "contents_ok tbl"
  shows "\<exists>t. delete_content i tbl = Inr t \<and> contents_ok t \<and> contents_map t = (contents_map tbl)(i := None)"
  unfolding delete_content_def using contents_ok_filter [OF assms] contents_map_filter by blast

lemma count_content_0: "count_content i tbl = 0 \<longleftrightarrow> contents_map tbl i = None"
  by (auto simp: count_content_def contents_map_None filter_empty_conv)

text \<open>
  C19: the table refines a map from ids to contents, under every fate of every statement and with
  any statements of other requests between the two of a removal. Ids stay unique. An addition
  that reports success found the id unbound and bound it; one of a bound id changes nothing and,
  when its answer arrives, reports the duplicate. A successful update rebinds the id if it is
  bound and does nothing, with no error, if it is not. A removal that reports success found the
  id when it counted, and unbinds it from what the others left. An operation that reports an
  error has had no effect or, when the acknowledgement of the statement was lost, its whole
  effect. A reading returns what is bound, or reports its own failure.
\<close>

theorem contents_refine_map:
  assumes "contents_ok tbl" and "contents_ok (others tbl)"
  shows "(\<forall>f c tbl' r. DB_AddContent f c tbl = (tbl', r) \<longrightarrow> contents_ok tbl' \<and>
            (let new = (if contents_map tbl (ct_Id c) = None then (contents_map tbl)(ct_Id c \<mapsto> c) else contents_map tbl)
             in case r of
                  Inr i \<Rightarrow> i = ct_Id c \<and> contents_map tbl (ct_Id c) = None \<and> contents_map tbl' = new
                | Inl e \<Rightarrow> (contents_map tbl' = contents_map tbl \<or> f = Unacknowledged e \<and> contents_map tbl' = new) \<and>
                    (f = Executed \<longrightarrow> e = PgError ''23505'' \<and> contents_map tbl (ct_Id c) \<noteq> None)))
     \<and> (\<forall>f c tbl' r. DB_UpdateContent f c tbl = (tbl', r) \<longrightarrow> contents_ok tbl' \<and>
            (let new = (if contents_map tbl (ct_Id c) = None then contents_map tbl else (contents_map tbl)(ct_Id c \<mapsto> c))
             in case r of
                  Inr i \<Rightarrow> i = ct_Id c \<and> contents_map tbl' = new
                | Inl e \<Rightarrow> f = NotExecuted e \<and> contents_map tbl' = contents_map tbl \<or> f = Unacknowledged e \<and> contents_map tbl' = new))
     \<and> (\<forall>g f i tbl' r. DB_RemoveContent g others f i tbl = (tbl', r) \<longrightarrow> contents_ok tbl' \<and>
            (let new = (contents_map (others tbl))(i := None)
             in case r of
                  Inr j \<Rightarrow> j = i \<and> contents_map tbl i \<noteq> None \<and> contents_map tbl' = new
                | Inl e \<Rightarrow> g = Some e \<and> tbl' = tbl \<or>
                    e = Errorf (''content with id '' @ i @ '' does not exist'') \<and> contents_map tbl i = None \<and> tbl' = tbl \<or>
                    f = NotExecuted e \<and> tbl' = others tbl \<or>
                    f = Unacknowledged e \<and> contents_map tbl' = new))
     \<and> (\<forall>g i. DB_GetContent g i tbl =
            (case g of Some e \<Rightarrow> Inl e
             | None \<Rightarrow> (case contents_map tbl i of None \<Rightarrow> Inl (Errorf (''no content with id '' @ i)) | Some c \<Rightarrow> Inr c)))"
proof (rule conjI [OF _ conjI [OF _ conjI]]; intro allI impI)
  fix f c tbl' and r :: "string result" assume "DB_AddContent f c tbl = (tbl', r)"
  then show "contents_ok tbl' \<and>
      (let new = (if contents_map tbl (ct_Id c) = None then (contents_map tbl)(ct_Id c \<mapsto> c) else contents_map tbl)
       in case r of
            Inr i \<Rightarrow> i = ct_Id c \<and> contents_map tbl (ct_Id c) = None \<and> contents_map tbl' = new
          | Inl e \<Rightarrow> (contents_map tbl' = contents_map tbl \<or> f = Unacknowledged e \<and> contents_map tbl' = new) \<and>
              (f = Executed \<longrightarrow> e = PgError ''23505'' \<and> contents_map tbl (ct_Id c) \<noteq> None))"
    using insert_content_map [OF assms(1), of c] assms(1)
    by (auto simp: DB_AddContent_def exec_stmt_def Let_def split: exec_fate.splits sum.splits)
next
  fix f c tbl' and r :: "string result" assume "DB_UpdateContent f c tbl = (tbl', r)"
  then show "contents_ok tbl' \<and>
      (let new = (if contents_map tbl (ct_Id c) = None then contents_map tbl else (contents_map tbl)(ct_Id c \<mapsto> c))
       in case r of
            Inr i \<Rightarrow> i = ct_Id c \<and> contents_map tbl' = new
          | Inl e \<Rightarrow> f = NotExecuted e \<and> contents_map tbl' = contents_map tbl \<or> f = Unacknowledged e \<and> contents_map tbl' = new)"
    using update_content_map [OF assms(1), of c] assms(1)
    by (auto simp: DB_UpdateContent_def exec_stmt_def Let_def split: exec_fate.splits)
next
  fix g f i tbl' and r :: "string result" assume "DB_RemoveContent g others f i tbl = (tbl', r)"
  then show "contents_ok tbl' \<and>
      (let new = (contents_map (others tbl))(i := None)
       in case r of
            Inr j \<Rightarrow> j = i \<and> contents_map tbl i \<noteq> None \<and> contents_map tbl' = new
          | Inl e \<Rightarrow> g = Some e \<and> tbl' = tbl \<or>
              e = Errorf (''content with id '' @ i @ '' does not exist'') \<and> contents_map tbl i = None \<and> tbl' = tbl \<or>
              f = NotExecuted e \<and> tbl' = others tbl \<or>
              f = Unacknowledged e \<and> contents_map tbl' = new)"
    using delete_content_map [OF assms(2), of i] assms
    by (auto simp: DB_RemoveContent_def exec_stmt_def count_content_0 Let_def split: option.splits if_splits exec_fate.splits)
next
  fix g i
  show "DB_GetContent g i tbl =
      (case g of Some e \<Rightarrow> Inl e
       | None \<Rightarrow> (case contents_map tbl i of None \<Rightarrow> Inl (Errorf (''no content with id '' @ i)) | Some c \<Rightarrow> Inr c))"
    by (simp add: DB_GetContent_def contents_map_find split: option.splits)
qed

definition quote_of :: "Content \<Rightarrow> price_quote" where
  "quote_of c = \<lparr>pq_RecipientLud16 = ct_RecipientLud16 c, pq_PriceSats = ct_Price c\<rparr>"

lemma quoted_id_content: "quoted_id (''/content/'' @ i) = dropWhile (\<lambda>c. c \<in> set ''/content/'') i"
  by (simp add: quoted_id_def trim_left_def)

lemma quote_eq:
  "Server_GetPaymentDetails None (''/content/'' @ i) s =
     (case contents_map (sv_db s) (dropWhile (\<lambda>c. c \<in> set ''/content/'') i) of
        None \<Rightarrow> Inl (Errorf (''no content with id '' @ dropWhile (\<lambda>c. c \<in> set ''/content/'') i))
      | Some c \<Rightarrow> Inr (quote_of c))"
proof -
  have "contains (''/content/'' @ i) ''content''" unfolding contains_iff
    by (rule exI [of _ "''/''"], rule exI [of _ "''/'' @ i"]) simp
  then show ?thesis
    unfolding Server_GetPaymentDetails_def quoted_id_content DB_GetContent_def contents_map_find
    by (simp add: quote_of_def split: option.splits)
qed

lemma delivery_eq:
  assumes "contents_map (sv_db s) i = Some c" and "ce_Parse env (object_url s c) = Inr u" and "ce_NewRequest env u = Inr ()"
    and "ce_Do env u = Inr bs"
  shows "resp_Body (contentHandler env text_of None i s w) = resp_Body w @ b64_encode bs"
  using assms by (simp add: contentHandler_def DB_GetContent_def contents_map_find)

text \<open>
  C36: prices and delivery. For an id that does not begin with a slash or one of the letters of
  \<^verbatim>\<open>content\<close>, the price server quotes price and recipient of the very content that is delivered under
  the path. For every other id it drops all such leading characters and quotes the content with
  the remaining id, or reports that there is none, while the content of the full id is delivered.
\<close>

theorem quote_and_delivery:
  assumes "contents_map (sv_db s) i = Some c" and "ce_Parse env (object_url s c) = Inr u" and "ce_NewRequest env u = Inr ()"
    and "ce_Do env u = Inr bs"
  shows "resp_Body (contentHandler env text_of None i s w) = resp_Body w @ b64_encode bs \<and>
     (i \<noteq> [] \<and> hd i \<notin> set ''/content/'' \<longrightarrow> Server_GetPaymentDetails None (''/content/'' @ i) s = Inr (quote_of c)) \<and>
     (\<forall>d. contents_map (sv_db s) (dropWhile (\<lambda>c. c \<in> set ''/content/'') i) = Some d \<longrightarrow>
          Server_GetPaymentDetails None (''/content/'' @ i) s = Inr (quote_of d)) \<and>
     (contents_map (sv_db s) (dropWhile (\<lambda>c. c \<in> set ''/content/'') i) = None \<longrightarrow>
          Server_GetPaymentDetails None (''/content/'' @ i) s =
            Inl (Errorf (''no content with id '' @ dropWhile (\<lambda>c. c \<in> set ''/content/'') i)))"
proof (intro conjI allI impI)
  show "resp_Body (contentHandler env text_of None i s w) = resp_Body w @ b64_encode bs" using assms by (rule delivery_eq)
next
  assume "i \<noteq> [] \<and> hd i \<notin> set ''/content/''"
  then have "dropWhile (\<lambda>c. c \<in> set ''/content/'') i = i" by (cases i) simp_all
  then show "Server_GetPaymentDetails None (''/content/'' @ i) s = Inr (quote_of c)" unfolding quote_eq using assms(1) by simp
next
  fix d assume "contents_map (sv_db s) (dropWhile (\<lambda>c. c \<in> set ''/content/'') i) = Some d"
  then show "Server_GetPaymentDetails None (''/content/'' @ i) s = Inr (quote_of d)" unfolding quote_eq by simp
next
  assume "contents_map (sv_db s) (dropWhile (\<lambda>c. c \<in> set ''/content/'') i) = None"
  then show "Server_GetPaymentDetails None (''/content/'' @ i) s =
      Inl (Errorf (''no content with id '' @ dropWhile (\<lambda>c. c \<in> set ''/content/'') i))"
    unfolding quote_eq by simp
qed

subsection \<open>Concrete contents\<close>

definition sample_content :: "string \<Rightarrow> int \<Rightarrow> Content" where
  "sample_content i price = \<lparr>ct_Id = i, ct_Title = ''t'', ct_Author = ''a'', ct_Filepath = i, ct_RecipientLud16 = i @ ''@x'', ct_Price = price\<rparr>"

definition sample_contents :: contents where
  "sample_contents = [sample_content ''at'' 1, sample_content ''cat'' 500]"

definition sample_content_server :: content_server where
  "sample_content_server = \<lparr>sv_db = sample_contents, sv_conf = \<lparr>sc_Region = [], sc_S3Bucket = ''b'', sc_PostgresUser = [],
     sc_PostgresPassword = [], sc_PostgresHost = [], sc_PostgresPort = [], sc_PostgresDB = []\<rparr>, sv_region = ''ap-northeast-1''\<rparr>"

definition sample_content_env :: content_env where
  "sample_content_env = \<lparr>ce_Dotenv = Inr (), ce_Env = Inr (sv_conf sample_content_server), ce_OpenDB = (\<lambda>d. Inr ()),
     ce_LoadConfig = (\<lambda>r. Inr ()), ce_Retrieve = Inr (), ce_Parse = Inr, ce_NewRequest = (\<lambda>u. Inr ()), ce_Do = Inr\<rparr>"

text \<open>Another request adds a content between the two statements of a removal, whose acknowledgement
  is lost: the id is unbound and the added content stays.\<close>

theorem contents_refine_map_witness:
  "contents_map (fst (DB_RemoveContent None (\<lambda>t. t @ [sample_content ''dog'' 7]) (Unacknowledged (Errorf ''timeout'')) ''cat'' sample_contents))
   = (contents_map (sample_contents @ [sample_content ''dog'' 7]))(''cat'' := None)"
proof -
  have ok: "contents_ok sample_contents" "contents_ok ((\<lambda>t. t @ [sample_content ''dog'' 7]) sample_contents)"
    by (simp_all add: contents_ok_def sample_contents_def sample_content_def)
  obtain t where t: "DB_RemoveContent None (\<lambda>t. t @ [sample_content ''dog'' 7]) (Unacknowledged (Errorf ''timeout'')) ''cat'' sample_contents
      = (t, Inl (Errorf ''timeout''))"
    by (simp add: DB_RemoveContent_def exec_stmt_def count_content_def sample_contents_def sample_content_def)
  from contents_refine_map [where others = "\<lambda>t. t @ [sample_content ''dog'' 7]", OF ok] t show ?thesis by (fastforce simp: Let_def)
qed

theorem quote_and_delivery_witness:
  "Server_GetPaymentDetails None (''/content/'' @ ''cat'') sample_content_server = Inr (quote_of (sample_content ''at'' 1))"
proof -
  have c: "contents_map (sv_db sample_content_server) ''cat'' = Some (sample_content ''cat'' 500)"
    by (simp add: sample_content_server_def contents_map_def sample_contents_def sample_content_def)
  have d: "contents_map (sv_db sample_content_server) (dropWhile (\<lambda>c. c \<in> set ''/content/'') ''cat'') = Some (sample_content ''at'' 1)"
    by (simp add: sample_content_server_def contents_map_def sample_contents_def sample_content_def)
  show ?thesis
    using quote_and_delivery [OF c, of sample_content_env _ _ "\<lambda>e. []"] d
    unfolding sample_content_env_def by auto
qed

end
