(* ===== verification/Content_App.thy ===== *)
theory Content_App
  imports Contents
begin

text \<open>
  The two programs around the content service: the daemon (\<^verbatim>\<open>Start\<close> and \<^verbatim>\<open>Stop\<close> of
  \<^verbatim>\<open>contents/content.go\<close>, \<^verbatim>\<open>contents/cmd/app/main.go\<close>) with its routes and listeners, and the
  command table of \<^verbatim>\<open>contents/cmd/appcli/main.go\<close>. Listening, the router (\<^verbatim>\<open>gorilla/mux\<close>) and the
  parsing of arguments (\<^verbatim>\<open>urfave/cli\<close>) are parameters.
\<close>

subsection \<open>The daemon\<close>

record grpc_server =
  gs_addr :: "string option"
  gs_stopped :: bool

record content_app =
  ca_server :: content_server
  ca_dbOpen :: bool
  ca_contentServiceServer :: "grpc_server option"
  ca_pricesServer :: "grpc_server option"
  ca_http :: "string option"

definition new_app :: "content_server \<Rightarrow> content_app" where
  "new_app s = \<lparr>ca_server = s, ca_dbOpen = True, ca_contentServiceServer = None, ca_pricesServer = None, ca_http = None\<rparr>"

text \<open>\<open>an_CloseDB\<close> is what closing an open database returns; closing it again does nothing.\<close>

record app_net =
  an_Listen :: "string \<Rightarrow> unit result"
  an_CloseDB :: "unit result"

definition serving :: "string \<Rightarrow> grpc_server" where
  "serving addr = \<lparr>gs_addr = Some addr, gs_stopped = False\<rparr>"

definition created :: grpc_server where
  "created = \<lparr>gs_addr = None, gs_stopped = False\<rparr>"

definition app_Start :: "app_net \<Rightarrow> content_app \<Rightarrow> content_app \<times> unit result" where
  "app_Start net a =
     (let a1 = a\<lparr>ca_contentServiceServer := Some created\<rparr>
      in case an_Listen net '':8080'' of
           Inl e \<Rightarrow> (a1, Inl e)
         | Inr _ \<Rightarrow>
      (let a2 = a1\<lparr>ca_contentServiceServer := Some (serving '':8080''), ca_pricesServer := Some created\<rparr>
       in case an_Listen net '':8083'' of
            Inl e \<Rightarrow> (a2, Inl e)
          | Inr _ \<Rightarrow>
      (let a3 = a2\<lparr>ca_pricesServer := Some (serving '':8083'')\<rparr>
       in case an_Listen net '':9000'' of
            Inl e \<Rightarrow> (a3, Inr ())
          | Inr _ \<Rightarrow> (a3\<lparr>ca_http := Some '':9000''\<rparr>, Inr ()))))"

definition app_Stop :: "app_net \<Rightarrow> content_app \<Rightarrow> content_app \<times> unit result" where
  "app_Stop net a =
     (case ca_contentServiceServer a of
        None \<Rightarrow> (a, Inl (Panic ''nil pointer dereference''))
      | Some g \<Rightarrow>
          (let a1 = a\<lparr>ca_contentServiceServer := Some (g\<lparr>gs_addr := None, gs_stopped := True\<rparr>)\<rparr>
           in if ca_dbOpen a1 then (a1\<lparr>ca_dbOpen := False\<rparr>, an_CloseDB net) else (a1, Inr ())))"

text \<open>
  \<^verbatim>\<open>main\<close> from its start to the shutdown signal and its end. \<^verbatim>\<open>log.Fatal\<close> exits without the deferred
  calls; the deferred \<^verbatim>\<open>Stop\<close> runs after the explicit one.
\<close>

datatype main_end = MainReturned | MainFatal go_error

definition content_main ::
    "unit result \<Rightarrow> content_env \<Rightarrow> app_net \<Rightarrow> contents \<Rightarrow> content_app option \<times> main_end" where
  "content_main intercept env net tbl =
     (case intercept of
        Inl e \<Rightarrow> (None, MainFatal e)
      | Inr _ \<Rightarrow>
     (case NewServer env tbl of
        Inl e \<Rightarrow> (None, MainFatal e)
      | Inr s \<Rightarrow>
     (case app_Start net (new_app s) of
        (a, Inl e) \<Rightarrow> (Some a, MainFatal e)
      | (a, Inr _) \<Rightarrow>
     (case app_Stop net a of
        (a1, Inl e) \<Rightarrow> (Some a1, MainFatal e)
      | (a1, Inr _) \<Rightarrow> (Some (fst (app_Stop net a1)), MainReturned)))))"

subsection \<open>The routes\<close>

datatype content_route = FreebeeRoute | ContentRoute

definition content_routes :: "(string \<times> string \<times> content_route) list" where
  "content_routes = [(''/test'', ''GET'', FreebeeRoute), (''/content/{id}'', ''GET'', ContentRoute)]"

text \<open>The router answers with the route and the variables it matched, or with its own response.\<close>

type_synonym mux_router =
  "(string \<times> string \<times> content_route) list \<Rightarrow> string \<Rightarrow> string \<Rightarrow> http_response + content_route \<times> (string \<rightharpoonup> string)"

definition serve_content :: "mux_router \<Rightarrow> content_env \<Rightarrow> (go_error \<Rightarrow> string) \<Rightarrow> fault \<Rightarrow> content_server
    \<Rightarrow> string \<Rightarrow> string \<Rightarrow> http_response \<Rightarrow> http_response" where
  "serve_content mux env text_of fault s meth path w =
     (case mux content_routes meth path of
        Inl r \<Rightarrow> r
      | Inr (FreebeeRoute, vars) \<Rightarrow> freebeeHandler w
      | Inr (ContentRoute, vars) \<Rightarrow>
          contentHandler env text_of fault (case vars ''id'' of None \<Rightarrow> [] | Some i \<Rightarrow> i) s w)"

subsection \<open>The commands of the client\<close>

datatype cli_flag = StringFlag string | Int64Flag string

datatype cli_action = ActAdd | ActUpdate | ActRemove | ActGet

record cli_command =
  cmd_Name :: string
  cmd_Usage :: string
  cmd_Action :: cli_action
  cmd_Flags :: "cli_flag list"

definition default_rpcserver :: string where
  "default_rpcserver = ''localhost:8080''"

definition appcli_commands :: "cli_command list" where
  "appcli_commands = [
     \<lparr>cmd_Name = ''addcontent'', cmd_Usage = ''add a content'', cmd_Action = ActAdd,
      cmd_Flags = [StringFlag ''id'', StringFlag ''title'', StringFlag ''author'', StringFlag ''filepath'',
        StringFlag ''recipient_lud16'', Int64Flag ''price'']\<rparr>,
     \<lparr>cmd_Name = ''updatecontent'', cmd_Usage = ''update the content'', cmd_Action = ActUpdate,
      cmd_Flags = [StringFlag ''id'', StringFlag ''title'', StringFlag ''author'', StringFlag ''filepath'',
        StringFlag ''recipient_lud16'', Int64Flag ''price'']\<rparr>,
     \<lparr>cmd_Name = ''removecontent'', cmd_Usage = ''remove the content'', cmd_Action = ActRemove,
      cmd_Flags = [StringFlag ''id'']\<rparr>,
     \<lparr>cmd_Name = ''getcontent'', cmd_Usage = ''get the content'', cmd_Action = ActGet,
      cmd_Flags = [StringFlag ''id'']\<rparr>]"

definition run_action :: "cli_action \<Rightarrow> 's content_client \<Rightarrow> cli_flags \<Rightarrow> 's \<Rightarrow> 's \<times> unit result" where
  "run_action act cl fl s =
     (case act of
        ActAdd \<Rightarrow> (case cli_addContent cl fl s of (s', r) \<Rightarrow> (s', rbind r (\<lambda>_. Inr ())))
      | ActUpdate \<Rightarrow> (case cli_updateContent cl fl s of (s', r) \<Rightarrow> (s', rbind r (\<lambda>_. Inr ())))
      | ActRemove \<Rightarrow> (case cli_removeContent cl fl s of (s', r) \<Rightarrow> (s', rbind r (\<lambda>_. Inr ())))
      | ActGet \<Rightarrow> (s, rbind (cli_getContent cl fl s) (\<lambda>_. Inr ())))"

text \<open>A flag that its command does not declare has the zero value, whatever is asked for it.\<close>

definition str_flag :: "cli_command \<Rightarrow> string \<Rightarrow> string \<Rightarrow> string" where
  "str_flag cmd name v = (if StringFlag name \<in> set (cmd_Flags cmd) then v else [])"

definition declared_flags :: "cli_command \<Rightarrow> cli_flags \<Rightarrow> cli_flags" where
  "declared_flags cmd fl =
     \<lparr>fl_id = str_flag cmd ''id'' (fl_id fl), fl_title = str_flag cmd ''title'' (fl_title fl),
      fl_author = str_flag cmd ''author'' (fl_author fl), fl_filepath = str_flag cmd ''filepath'' (fl_filepath fl),
      fl_recipient_lud16 = str_flag cmd ''recipient_lud16'' (fl_recipient_lud16 fl),
      fl_price = (if Int64Flag ''price'' \<in> set (cmd_Flags cmd) then fl_price fl else 0)\<rparr>"

definition run_command :: "string \<Rightarrow> 's content_client \<Rightarrow> cli_flags \<Rightarrow> 's \<Rightarrow> ('s \<times> unit result) option" where
  "run_command name cl fl s =
     (case List.find (\<lambda>cmd. cmd_Name cmd = name) appcli_commands of
        None \<Rightarrow> None
      | Some cmd \<Rightarrow> Some (run_action (cmd_Action cmd) cl (declared_flags cmd fl) s))"

subsection \<open>Properties\<close>

text \<open>The client reaches the content server at its default address, and its actions read declared flags only.\<close>

lemma default_rpcserver_port: "default_rpcserver = ''localhost'' @ '':8080''"
  by (simp add: default_rpcserver_def)

lemma id_only:
  assumes "fl_id fl = fl_id fl'"
  shows "run_action ActRemove cl fl s = run_action ActRemove cl fl' s" and "run_action ActGet cl fl s = run_action ActGet cl fl' s"
  by (simp_all add: run_action_def cli_removeContent_def cli_getContent_def assms split: sum.split cong del: rbind_cong)

lemma commands_declare_flags:
  assumes "cmd \<in> set appcli_commands"
  shows "run_action (cmd_Action cmd) cl (declared_flags cmd fl) s = run_action (cmd_Action cmd) cl fl s"
proof -
  have "declared_flags cmd fl = fl \<or>
      fl_id (declared_flags cmd fl) = fl_id fl \<and> (cmd_Action cmd = ActRemove \<or> cmd_Action cmd = ActGet)"
    if "cmd = appcli_commands ! i" and "i < 4" for i
  proof -
    from that(2) consider "i = 0" | "i = 1" | "i = 2" | "i = 3" by linarith
    then show ?thesis
      unfolding that(1) by cases (simp_all add: appcli_commands_def declared_flags_def str_flag_def)
  qed
  moreover have "length appcli_commands = 4" by (simp add: appcli_commands_def)
  with assms obtain i where "cmd = appcli_commands ! i" and "i < 4" by (auto simp: in_set_conv_nth)
  ultimately have "declared_flags cmd fl = fl \<or>
      fl_id (declared_flags cmd fl) = fl_id fl \<and> (cmd_Action cmd = ActRemove \<or> cmd_Action cmd = ActGet)" by blast
  then show ?thesis
  proof
    assume "fl_id (declared_flags cmd fl) = fl_id fl \<and> (cmd_Action cmd = ActRemove \<or> cmd_Action cmd = ActGet)"
    then show ?thesis using id_only [of "declared_flags cmd fl" fl cl s] by auto
  qed simp
qed

lemma run_command_eq:
  "run_command name cl fl s =
     map_option (\<lambda>cmd. run_action (cmd_Action cmd) cl fl s) (List.find (\<lambda>cmd. cmd_Name cmd = name) appcli_commands)"
proof (cases "List.find (\<lambda>cmd. cmd_Name cmd = name) appcli_commands")
  case (Some cmd)
  with commands_declare_flags [of cmd cl fl s] find_SomeD [OF Some] show ?thesis by (simp add: run_command_def)
qed (simp add: run_command_def)

text \<open>
  A daemon that returns from \<^verbatim>\<open>main\<close> has stopped its content server and closed its database; the
  second \<^verbatim>\<open>Stop\<close> is harmless. The price server and the HTTP server are never stopped.
\<close>

lemma app_Stop_twice:
  assumes "app_Stop net a = (a1, r)" and "ca_contentServiceServer a \<noteq> None"
  shows "app_Stop net a1 = (a1, Inr ())"
  using assms by (auto simp: app_Stop_def Let_def split: option.splits if_splits)

lemma content_main_returned:
  assumes "content_main intercept env net tbl = (Some a, MainReturned)"
  shows "\<not> ca_dbOpen a \<and> ca_contentServiceServer a = Some \<lparr>gs_addr = None, gs_stopped = True\<rparr> \<and>
     ca_pricesServer a = Some (serving '':8083'')"
  using assms
  by (auto simp: content_main_def app_Start_def app_Stop_def new_app_def serving_def created_def Let_def
      split: sum.splits prod.splits if_splits)

text \<open>When the second port is taken, the first one stays open although \<^verbatim>\<open>Start\<close> has failed.\<close>

lemma app_Start_half:
  assumes "an_Listen net '':8080'' = Inr ()" and "an_Listen net '':8083'' = Inl e"
  shows "\<exists>a'. app_Start net a = (a', Inl e) \<and> ca_contentServiceServer a' = Some (serving '':8080'')"
  using assms by (simp add: app_Start_def Let_def)

end
