(* ===== verification/Relay.thy ===== *)
theory Relay
  imports Go_Encoding Http_Model
begin

text \<open>
  The lnproxy relay, \<^verbatim>\<open>lnproxy/relay.go\<close>, and its HTTP handler in \<^verbatim>\<open>lnproxy/cmd/http-relay/main.go\<close>.
  A request carries an invoice; the relay adds a hold invoice with the same payment hash and a
  larger amount to its own node (\<open>wrap\<close>, \<open>OpenCircuit\<close>), waits in a goroutine until a payment of it
  is held, pays the original invoice, and settles the hold invoice with the preimage it bought
  (\<open>circuitSwitch\<close>).

  The node is the interface \<^verbatim>\<open>lnc.LN\<close> of another repository and a parameter, \<open>LN\<close>. Amounts, times
  and block counts are \<^verbatim>\<open>uint64\<close>, so all arithmetic is on 64-bit words and wraps as in Go.
  The goroutines of all circuits together are the step machine \<open>relay_step\<close>, whose steps are the
  returns of the calls to the node; a panic of one ends the process and with it all others.
  The field \<^verbatim>\<open>PaymentTimePreference\<close>, a float that no code reads, is left out.
\<close>

type_synonym u64 = "64 word"

subsection \<open>Parameters\<close>

record RelayParameters =
  MinAmountMsat :: u64
  MaxAmountMsat :: u64
  MinFeeBudgetMsat :: u64
  RoutingFeeBaseMsat :: u64
  RoutingFeePPM :: u64
  ExpiryBuffer :: u64
  MaxExpiry :: u64
  CltvDeltaAlpha :: u64
  CltvDeltaBeta :: u64
  RoutingBudgetAlpha :: u64
  RoutingBudgetBeta :: u64
  MaxCltvExpiry :: u64
  MinCltvExpiry :: u64
  PaymentTimeout :: u64

definition NewRelay :: RelayParameters where
  "NewRelay = \<lparr>MinAmountMsat = 10000, MaxAmountMsat = 1000000000, MinFeeBudgetMsat = 1000,
     RoutingFeeBaseMsat = 1000, RoutingFeePPM = 1000, ExpiryBuffer = 300, MaxExpiry = 604800,
     CltvDeltaAlpha = 42, CltvDeltaBeta = 42, RoutingBudgetAlpha = 1000, RoutingBudgetBeta = 1500000,
     MaxCltvExpiry = 1800, MinCltvExpiry = 200, PaymentTimeout = 600\<rparr>"

record relay_ProxyParameters =
  px_Invoice :: string
  px_RoutingMsat :: "u64 option"
  px_Description :: "string option"
  px_DescriptionHash :: "string option"

definition ProxyParameters_String :: "relay_ProxyParameters \<Rightarrow> string" where
  "ProxyParameters_String x =
     ''ProxyParameters {Invoice:'' @ px_Invoice x
     @ (case px_RoutingMsat x of None \<Rightarrow> [] | Some r \<Rightarrow> '' RoutingMsat:'' @ dec_nat (unat r))
     @ (case px_Description x of
          Some d \<Rightarrow> '' Description:'' @ [CHR 0x22] @ d @ [CHR 0x22]
        | None \<Rightarrow> (case px_DescriptionHash x of None \<Rightarrow> [] | Some h \<Rightarrow> '' DescriptionHash:'' @ h))
     @ ''}''"

subsection \<open>The node\<close>

text \<open>The decoded invoice; \<open>Features\<close> are the keys of the feature map in the order of its iteration.\<close>

record lnc_DecodedInvoice =
  NumMsat :: u64
  Features :: "string list"
  inv_PaymentHash :: string
  inv_DescriptionHash :: string
  inv_Description :: string
  inv_Timestamp :: u64
  inv_Expiry :: u64

record InvoiceParameters =
  ip_Hash :: bytes
  ip_Memo :: string
  ip_DescriptionHash :: bytes
  ip_Expiry :: u64
  ip_CltvExpiry :: u64
  ip_ValueMsat :: u64

record PaymentParameters =
  pay_Invoice :: string
  TimeoutSeconds :: u64
  FeeLimitMsat :: u64
  CltvLimit :: u64

datatype lnc_State = Accepted | Canceled | OtherState string

record InvoiceState =
  lnc_state :: lnc_State
  CltvExpiryDelta :: u64

text \<open>\<^verbatim>\<open>WatchInvoice\<close> returns a state and an error, and the code reads the state even with an error.\<close>

record LN =
  DecodeInvoice :: "string \<Rightarrow> lnc_DecodedInvoice result"
  EstimateRoutingFee :: "lnc_DecodedInvoice \<Rightarrow> u64 \<Rightarrow> (u64 \<times> u64) result"
  AddInvoice :: "InvoiceParameters \<Rightarrow> string result"
  WatchInvoice :: "bytes \<Rightarrow> InvoiceState \<times> go_error option"
  CancelInvoice :: "bytes \<Rightarrow> unit result"
  PayInvoice :: "PaymentParameters \<Rightarrow> bytes result"
  SettleInvoice :: "bytes \<Rightarrow> unit result"

subsection \<open>Wrapping an invoice\<close>

definition client_error :: "string \<Rightarrow> go_error" where
  "client_error msg = Join (Sentinel ClientFacing) (Errorf msg)"

definition known_features :: "string list" where
  "known_features = [''8'', ''9'', ''14'', ''15'', ''16'', ''17'', ''25'', ''48'', ''49'', ''149'', ''151'']"

definition check_amount :: "RelayParameters \<Rightarrow> u64 \<Rightarrow> unit result" where
  "check_amount rp n =
     rbind (ensure (n \<noteq> 0) (client_error ''zero amount invoices cannot be relayed trustlessly'')) (\<lambda>_.
     rbind (ensure (MinAmountMsat rp \<le> n) (client_error ''invoice amount too low'')) (\<lambda>_.
     ensure (n \<le> MaxAmountMsat rp) (client_error ''invoice amount too high'')))"

text \<open>Memo and description hash of the wrapped invoice.\<close>

definition wrap_description :: "relay_ProxyParameters \<Rightarrow> lnc_DecodedInvoice \<Rightarrow> (string \<times> bytes) result" where
  "wrap_description x p =
     (case (px_Description x, px_DescriptionHash x) of
        (Some d, Some h) \<Rightarrow> Inl (client_error ''description and description hash cannot both be set'')
      | (Some d, None) \<Rightarrow> Inr (d, [])
      | (None, Some h) \<Rightarrow> rbind (hex_decode h) (\<lambda>b. Inr ([], b))
      | (None, None) \<Rightarrow>
          if inv_DescriptionHash p \<noteq> [] then rbind (hex_decode (inv_DescriptionHash p)) (\<lambda>b. Inr ([], b))
          else Inr (inv_Description p, []))"

text \<open>\<open>now1\<close> and \<open>now2\<close> are the two readings of the clock, in Unix seconds.\<close>

definition wrap_expiry :: "RelayParameters \<Rightarrow> u64 \<Rightarrow> u64 \<Rightarrow> lnc_DecodedInvoice \<Rightarrow> u64 result" where
  "wrap_expiry rp now1 now2 p =
     rbind (ensure (\<not> inv_Timestamp p + inv_Expiry p < now1 + ExpiryBuffer rp)
              (client_error ''payment request expiration is too close.'')) (\<lambda>_.
     let expiry = (if inv_Expiry p > MaxExpiry rp then MaxExpiry rp else inv_Expiry p)
     in Inr (inv_Timestamp p + expiry - now2 - ExpiryBuffer rp))"

definition wrap_cltv :: "RelayParameters \<Rightarrow> u64 \<Rightarrow> u64 result" where
  "wrap_cltv rp min_cltv_delta =
     (let c = min_cltv_delta + CltvDeltaBeta rp + CltvDeltaAlpha rp
      in if c \<ge> MaxCltvExpiry rp then Inl (client_error ''cltv_expiry is too long'')
         else if c < MinCltvExpiry rp then Inr (MinCltvExpiry rp) else Inr c)"

definition routing_fee_msat :: "RelayParameters \<Rightarrow> u64 \<Rightarrow> u64" where
  "routing_fee_msat rp n = RoutingFeeBaseMsat rp + (n * RoutingFeePPM rp) div 1000000"

text \<open>Value of the wrapped invoice and budget for the fees of the outgoing payment.\<close>

definition wrap_value :: "RelayParameters \<Rightarrow> u64 option \<Rightarrow> u64 \<Rightarrow> u64 \<Rightarrow> (u64 \<times> u64) result" where
  "wrap_value rp custom min_fee_budget_msat n =
     (let routing_fee = routing_fee_msat rp n
      in case custom of
           Some r \<Rightarrow>
             rbind (ensure (\<not> r < MinFeeBudgetMsat rp + routing_fee) (client_error ''custom fee budget too low'')) (\<lambda>_.
               Inr (n + r, r - routing_fee))
         | None \<Rightarrow>
             let fee_budget = min_fee_budget_msat + RoutingBudgetAlpha rp + (min_fee_budget_msat * RoutingBudgetBeta rp) div 1000000
             in Inr (n + fee_budget + routing_fee, fee_budget))"

definition wrap :: "RelayParameters \<Rightarrow> LN \<Rightarrow> u64 \<Rightarrow> u64 \<Rightarrow> relay_ProxyParameters \<Rightarrow> (InvoiceParameters \<times> u64) result" where
  "wrap rp ln now1 now2 x =
     rbind (DecodeInvoice ln (px_Invoice x)) (\<lambda>p.
     rbind (check_amount rp (NumMsat p)) (\<lambda>_.
     case EstimateRoutingFee ln p 0 of
       Inl e \<Rightarrow> Inl (client_error ''could not find route'')
     | Inr (min_fee_budget_msat, min_cltv_delta) \<Rightarrow>
     rbind (rcheck (\<lambda>f. ensure (f \<in> set known_features) (client_error (''unknown feature flag: '' @ f))) (Features p)) (\<lambda>_.
     rbind (hex_decode (inv_PaymentHash p)) (\<lambda>hash.
     rbind (wrap_description x p) (\<lambda>(memo, dhash).
     rbind (wrap_expiry rp now1 now2 p) (\<lambda>expiry.
     rbind (wrap_cltv rp min_cltv_delta) (\<lambda>cltv.
     rbind (wrap_value rp (px_RoutingMsat x) min_fee_budget_msat (NumMsat p)) (\<lambda>(val, fee_budget).
       Inr (\<lparr>ip_Hash = hash, ip_Memo = memo, ip_DescriptionHash = dhash, ip_Expiry = expiry,
              ip_CltvExpiry = cltv, ip_ValueMsat = val\<rparr>, fee_budget)))))))))"

subsection \<open>Circuits\<close>

text \<open>The calls a circuit makes to the node, and how its goroutine ends.\<close>

datatype relay_call =
    CallWatch bytes
  | CallCancel bytes
  | CallPay PaymentParameters
  | CallSettle bytes

datatype circuit_end = Returned | Crashed

definition payment_of :: "RelayParameters \<Rightarrow> string \<Rightarrow> u64 \<Rightarrow> InvoiceState \<Rightarrow> PaymentParameters" where
  "payment_of rp invoice fee_budget_msat st =
     \<lparr>pay_Invoice = invoice, TimeoutSeconds = PaymentTimeout rp, FeeLimitMsat = fee_budget_msat,
      CltvLimit = CltvExpiryDelta st - CltvDeltaAlpha rp\<rparr>"

definition circuitSwitch :: "RelayParameters \<Rightarrow> LN \<Rightarrow> bytes \<Rightarrow> string \<Rightarrow> u64 \<Rightarrow> relay_call list \<times> circuit_end" where
  "circuitSwitch rp ln hash invoice fee_budget_msat =
     (case WatchInvoice ln hash of (st, err) \<Rightarrow>
        if err \<noteq> None \<or> lnc_state st \<noteq> Accepted then
          (if lnc_state st \<noteq> Canceled then ([CallWatch hash, CallCancel hash], Returned)
           else ([CallWatch hash], Returned))
        else
          (let pp = payment_of rp invoice fee_budget_msat st
           in case PayInvoice ln pp of
                Inl e \<Rightarrow>
                  if errors_is e PaymentFailed then ([CallWatch hash, CallPay pp, CallCancel hash], Returned)
                  else ([CallWatch hash, CallPay pp], Crashed)
              | Inr preimage \<Rightarrow>
                  (case SettleInvoice ln preimage of
                     Inl e \<Rightarrow> ([CallWatch hash, CallPay pp, CallSettle preimage], Crashed)
                   | Inr _ \<Rightarrow> ([CallWatch hash, CallPay pp, CallSettle preimage], Returned))))"

text \<open>
  \<^verbatim>\<open>OpenCircuit\<close>: the answer of the request, and the arguments of the goroutine it starts.
\<close>

definition OpenCircuit :: "RelayParameters \<Rightarrow> LN \<Rightarrow> u64 \<Rightarrow> u64 \<Rightarrow> relay_ProxyParameters
    \<Rightarrow> (bytes \<times> string \<times> u64) option \<times> string result" where
  "OpenCircuit rp ln now1 now2 x =
     (case wrap rp ln now1 now2 x of
        Inl e \<Rightarrow> (None, Inl e)
      | Inr (q, fee_budget_msat) \<Rightarrow>
          (case AddInvoice ln q of
             Inl e \<Rightarrow>
               if errors_is e PaymentHashExists
               then (None, Inl (Join (Sentinel ClientFacing) (Sentinel PaymentHashExists)))
               else (None, Inl e)
           | Inr proxy_invoice \<Rightarrow> (Some (ip_Hash q, px_Invoice x, fee_budget_msat), Inr proxy_invoice)))"

subsection \<open>The HTTP handler\<close>

record JsonError =
  Status :: string
  Reason :: string

definition makeJsonError :: "string \<Rightarrow> JsonError" where
  "makeJsonError reason = \<lparr>Status = ''ERROR'', Reason = reason\<rparr>"

datatype spec_body = SpecError JsonError | WrappedInvoice string

text \<open>\<^verbatim>\<open>Error()\<close>, with the texts of foreign errors as a parameter.\<close>

fun error_text :: "(go_error \<Rightarrow> string) \<Rightarrow> go_error \<Rightarrow> string" where
  "error_text text_of (Join a b) = error_text text_of a @ [CHR 0x0A] @ error_text text_of b"
| "error_text text_of (Sentinel s) = (if s = ClientFacing then [] else text_of (Sentinel s))"
| "error_text text_of (Errorf m) = m"
| "error_text text_of e = text_of e"

text \<open>
  The handler: response header fields, response body (always with status 200), and the circuit it
  opened. \<open>decoded\<close> is the request body as \<^verbatim>\<open>encoding/json\<close> decodes it.
\<close>

definition specApiHandler :: "(go_error \<Rightarrow> string) \<Rightarrow> RelayParameters \<Rightarrow> LN \<Rightarrow> u64 \<Rightarrow> u64 \<Rightarrow> relay_ProxyParameters result
    \<Rightarrow> http_header \<times> spec_body \<times> (bytes \<times> string \<times> u64) option" where
  "specApiHandler text_of rp ln now1 now2 decoded =
     (let hdr = header_Set (header_Set Map.empty ''Access-Control-Allow-Origin'' ''*'')
                  ''Access-Control-Allow-Headers'' ''Origin, X-Requested-With, Content-Type, Accept''
      in case decoded of
           Inl e \<Rightarrow> (hdr, SpecError (makeJsonError ''bad request''), None)
         | Inr x \<Rightarrow>
             (case OpenCircuit rp ln now1 now2 x of
                (c, Inl e) \<Rightarrow>
                  if errors_is e ClientFacing then (hdr, SpecError (makeJsonError (trim_space (error_text text_of e))), c)
                  else (hdr, SpecError (makeJsonError ''internal error''), c)
              | (c, Inr proxy_invoice) \<Rightarrow> (hdr, WrappedInvoice proxy_invoice, c)))"

subsection \<open>All circuits together\<close>

text \<open>
  A circuit between two calls: the arguments of its goroutine, what it has called and been answered
  so far, and the call it is blocked in. \<open>ci_wrapped\<close> and \<open>ci_amount\<close>, the wrapped invoice and the
  amount of the original one, are kept for the statements only.
\<close>

datatype ln_answer =
    AWatch InvoiceState "go_error option"
  | ACancel "unit result"
  | APay "bytes result"
  | ASettle "unit result"

datatype circuit_phase = Watching | Canceling | Paying | Settling | Done circuit_end

record circuit =
  ci_hash :: bytes
  ci_invoice :: string
  ci_budget :: u64
  ci_wrapped :: InvoiceParameters
  ci_amount :: u64
  ci_phase :: circuit_phase
  ci_calls :: "relay_call list"
  ci_answers :: "ln_answer list"

definition new_circuit :: "bytes \<Rightarrow> string \<Rightarrow> u64 \<Rightarrow> InvoiceParameters \<Rightarrow> u64 \<Rightarrow> circuit" where
  "new_circuit hash invoice budget q n =
     \<lparr>ci_hash = hash, ci_invoice = invoice, ci_budget = budget, ci_wrapped = q, ci_amount = n,
      ci_phase = Watching, ci_calls = [CallWatch hash], ci_answers = []\<rparr>"

definition enter :: "circuit_phase \<Rightarrow> relay_call list \<Rightarrow> ln_answer \<Rightarrow> circuit \<Rightarrow> circuit" where
  "enter ph calls a c = c\<lparr>ci_phase := ph, ci_calls := ci_calls c @ calls, ci_answers := ci_answers c @ [a]\<rparr>"

text \<open>The return of the call a circuit is blocked in. Answers to other calls do not concern it.\<close>

definition circuit_step :: "RelayParameters \<Rightarrow> ln_answer \<Rightarrow> circuit \<Rightarrow> circuit" where
  "circuit_step rp a c =
     (case (ci_phase c, a) of
        (Watching, AWatch st err) \<Rightarrow>
          if err \<noteq> None \<or> lnc_state st \<noteq> Accepted then
            (if lnc_state st \<noteq> Canceled then enter Canceling [CallCancel (ci_hash c)] a c
             else enter (Done Returned) [] a c)
          else enter Paying [CallPay (payment_of rp (ci_invoice c) (ci_budget c) st)] a c
      | (Canceling, ACancel r) \<Rightarrow> enter (Done Returned) [] a c
      | (Paying, APay (Inl e)) \<Rightarrow>
          if errors_is e PaymentFailed then enter Canceling [CallCancel (ci_hash c)] a c
          else enter (Done Crashed) [] a c
      | (Paying, APay (Inr preimage)) \<Rightarrow> enter Settling [CallSettle preimage] a c
      | (Settling, ASettle (Inl e)) \<Rightarrow> enter (Done Crashed) [] a c
      | (Settling, ASettle (Inr u)) \<Rightarrow> enter (Done Returned) [] a c
      | _ \<Rightarrow> c)"

record relay_system =
  rs_alive :: bool
  rs_circuits :: "circuit list"

datatype relay_event =
    EvRequest LN u64 u64 relay_ProxyParameters
  | EvAnswer nat ln_answer

text \<open>
  A request is handled with the node as it answers this request; an answer resumes the goroutine of
  one circuit. A panic in any goroutine ends the process.
\<close>

definition amount_of :: "LN \<Rightarrow> string \<Rightarrow> u64" where
  "amount_of ln invoice = (case DecodeInvoice ln invoice of Inl e \<Rightarrow> 0 | Inr p \<Rightarrow> NumMsat p)"

fun relay_step :: "RelayParameters \<Rightarrow> relay_event \<Rightarrow> relay_system \<Rightarrow> relay_system" where
  "relay_step rp (EvRequest ln now1 now2 x) s =
     (if \<not> rs_alive s then s
      else case (OpenCircuit rp ln now1 now2 x, wrap rp ln now1 now2 x) of
             ((Some (hash, invoice, budget), _), Inr (q, _)) \<Rightarrow>
               s\<lparr>rs_circuits := rs_circuits s @ [new_circuit hash invoice budget q (amount_of ln invoice)]\<rparr>
           | _ \<Rightarrow> s)"
| "relay_step rp (EvAnswer i a) s =
     (if \<not> rs_alive s \<or> \<not> i < length (rs_circuits s) then s
      else let c = circuit_step rp a (rs_circuits s ! i)
           in s\<lparr>rs_circuits := (rs_circuits s)[i := c], rs_alive := (ci_phase c \<noteq> Done Crashed)\<rparr>)"

text \<open>
  What the node promises: it does not add a second invoice with a payment hash it already has.
\<close>

definition node_law :: "relay_system \<Rightarrow> relay_event \<Rightarrow> bool" where
  "node_law s ev = (case ev of
       EvRequest ln now1 now2 x \<Rightarrow>
         (\<forall>c \<in> set (rs_circuits s). \<forall>q y. ip_Hash q = ci_hash c \<longrightarrow> AddInvoice ln q \<noteq> Inr y)
     | EvAnswer i a \<Rightarrow> True)"

inductive relay_reach :: "RelayParameters \<Rightarrow> relay_system \<Rightarrow> bool" for rp where
  start: "relay_reach rp \<lparr>rs_alive = True, rs_circuits = []\<rparr>"
| step: "relay_reach rp s \<Longrightarrow> node_law s ev \<Longrightarrow> relay_reach rp (relay_step rp ev s)"

subsection \<open>The invariant of a circuit\<close>

text \<open>The most the relay can have to pay for a circuit, fees included, and what it keeps.\<close>

definition outlay :: "circuit \<Rightarrow> nat" where
  "outlay c = unat (ci_amount c) + unat (ci_budget c)"

definition circuit_fee :: "RelayParameters \<Rightarrow> circuit \<Rightarrow> u64" where
  "circuit_fee rp c = routing_fee_msat rp (ci_amount c)"

definition circuit_terms :: "RelayParameters \<Rightarrow> circuit \<Rightarrow> bool" where
  "circuit_terms rp c \<longleftrightarrow>
     ci_hash c = ip_Hash (ci_wrapped c) \<and>
     ip_ValueMsat (ci_wrapped c) = ci_amount c + ci_budget c + circuit_fee rp c \<and>
     ci_amount c \<noteq> 0 \<and> MinAmountMsat rp \<le> ci_amount c \<and> ci_amount c \<le> MaxAmountMsat rp"

text \<open>
  The histories of a circuit with the arguments \<open>h\<close>, \<open>i\<close> and \<open>b\<close>: the calls it has made and the
  answers it has had, for each point of its program.
\<close>

inductive circuit_hist :: "RelayParameters \<Rightarrow> bytes \<Rightarrow> string \<Rightarrow> u64 \<Rightarrow> circuit_phase \<Rightarrow> relay_call list \<Rightarrow> ln_answer list \<Rightarrow> bool" for rp h i b where
  watching: "circuit_hist rp h i b Watching [CallWatch h] []"
| dropped: "lnc_state st = Canceled \<Longrightarrow>
    circuit_hist rp h i b (Done Returned) [CallWatch h] [AWatch st err]"
| unpaid: "err \<noteq> None \<or> lnc_state st \<noteq> Accepted \<Longrightarrow> lnc_state st \<noteq> Canceled \<Longrightarrow>
    circuit_hist rp h i b Canceling [CallWatch h, CallCancel h] [AWatch st err]"
| unpaid_done: "err \<noteq> None \<or> lnc_state st \<noteq> Accepted \<Longrightarrow> lnc_state st \<noteq> Canceled \<Longrightarrow>
    circuit_hist rp h i b (Done Returned) [CallWatch h, CallCancel h] [AWatch st err, ACancel r]"
| paying: "lnc_state st = Accepted \<Longrightarrow>
    circuit_hist rp h i b Paying [CallWatch h, CallPay (payment_of rp i b st)] [AWatch st None]"
| failed: "lnc_state st = Accepted \<Longrightarrow> errors_is e PaymentFailed \<Longrightarrow>
    circuit_hist rp h i b Canceling [CallWatch h, CallPay (payment_of rp i b st), CallCancel h] [AWatch st None, APay (Inl e)]"
| failed_done: "lnc_state st = Accepted \<Longrightarrow> errors_is e PaymentFailed \<Longrightarrow>
    circuit_hist rp h i b (Done Returned) [CallWatch h, CallPay (payment_of rp i b st), CallCancel h]
      [AWatch st None, APay (Inl e), ACancel r]"
| unknown: "lnc_state st = Accepted \<Longrightarrow> \<not> errors_is e PaymentFailed \<Longrightarrow>
    circuit_hist rp h i b (Done Crashed) [CallWatch h, CallPay (payment_of rp i b st)] [AWatch st None, APay (Inl e)]"
| settling: "lnc_state st = Accepted \<Longrightarrow>
    circuit_hist rp h i b Settling [CallWatch h, CallPay (payment_of rp i b st), CallSettle pre] [AWatch st None, APay (Inr pre)]"
| settled: "lnc_state st = Accepted \<Longrightarrow>
    circuit_hist rp h i b (Done Returned) [CallWatch h, CallPay (payment_of rp i b st), CallSettle pre]
      [AWatch st None, APay (Inr pre), ASettle (Inr ())]"
| unsettled: "lnc_state st = Accepted \<Longrightarrow>
    circuit_hist rp h i b (Done Crashed) [CallWatch h, CallPay (payment_of rp i b st), CallSettle pre]
      [AWatch st None, APay (Inr pre), ASettle (Inl e)]"

definition circuit_hist_of :: "RelayParameters \<Rightarrow> circuit \<Rightarrow> bool" where
  "circuit_hist_of rp c \<longleftrightarrow>
     circuit_hist rp (ci_hash c) (ci_invoice c) (ci_budget c) (ci_phase c) (ci_calls c) (ci_answers c)"

definition circuit_ok :: "RelayParameters \<Rightarrow> circuit \<Rightarrow> bool" where
  "circuit_ok rp c \<longleftrightarrow> circuit_terms rp c \<and> circuit_hist_of rp c"

inductive_cases circuit_histE: "circuit_hist rp h i b ph calls answers"

lemma circuit_terms_enter [simp]: "circuit_terms rp (enter ph calls a c) = circuit_terms rp c"
  by (simp add: circuit_terms_def enter_def circuit_fee_def)

lemma circuit_hist_step: "circuit_hist_of rp c \<Longrightarrow> circuit_hist_of rp (circuit_step rp a c)"
  unfolding circuit_hist_of_def
  by (erule circuit_histE)
    (auto simp: circuit_step_def enter_def intro: circuit_hist.intros split: ln_answer.splits sum.splits)

lemma circuit_ok_step: "circuit_ok rp c \<Longrightarrow> circuit_ok rp (circuit_step rp a c)"
proof -
  have "circuit_terms rp (circuit_step rp a c) = circuit_terms rp c"
    by (auto simp: circuit_step_def split: circuit_phase.splits ln_answer.splits sum.splits)
  then show "circuit_ok rp c \<Longrightarrow> circuit_ok rp (circuit_step rp a c)"
    unfolding circuit_ok_def using circuit_hist_step by blast
qed

lemma circuit_step_hash [simp]: "ci_hash (circuit_step rp a c) = ci_hash c"
  by (auto simp: circuit_step_def enter_def split: circuit_phase.splits ln_answer.splits sum.splits)

subsection \<open>What a wrapped invoice guarantees\<close>

lemma wrap_value_sum:
  "wrap_value rp custom m n = Inr (val, b) \<Longrightarrow> val = n + b + routing_fee_msat rp n"
  by (auto simp: wrap_value_def Let_def result_simps split: option.splits)

lemma check_amount_ok [result_simps]:
  "check_amount rp n = Inr u \<longleftrightarrow> n \<noteq> 0 \<and> MinAmountMsat rp \<le> n \<and> n \<le> MaxAmountMsat rp"
  by (auto simp: check_amount_def result_simps)

lemma wrap_ok_iff:
  "wrap rp ln now1 now2 x = Inr (q, b) \<longleftrightarrow>
     (\<exists>p m d. DecodeInvoice ln (px_Invoice x) = Inr p \<and> check_amount rp (NumMsat p) = Inr () \<and>
        EstimateRoutingFee ln p 0 = Inr (m, d) \<and> set (Features p) \<subseteq> set known_features \<and>
        hex_decode (inv_PaymentHash p) = Inr (ip_Hash q) \<and>
        wrap_description x p = Inr (ip_Memo q, ip_DescriptionHash q) \<and>
        wrap_expiry rp now1 now2 p = Inr (ip_Expiry q) \<and> wrap_cltv rp d = Inr (ip_CltvExpiry q) \<and>
        wrap_value rp (px_RoutingMsat x) m (NumMsat p) = Inr (ip_ValueMsat q, b))"
  (is "?l \<longleftrightarrow> ?r")
proof
  assume l: ?l
  then obtain p where p: "DecodeInvoice ln (px_Invoice x) = Inr p" by (auto simp: wrap_def rbind_eq_Inr)
  with l obtain m d where "EstimateRoutingFee ln p 0 = Inr (m, d)"
    by (cases "EstimateRoutingFee ln p 0") (auto simp: wrap_def rbind_eq_Inr)
  with l p show ?r by (auto simp: wrap_def rbind_eq_Inr rcheck_ok_iff ensure_eq_Inr)
next
  assume ?r
  then show ?l
    by (cases q) (auto simp: wrap_def rcheck_ok_iff rbind_eq_Inr ensure_eq_Inr subset_iff)
qed

lemma OpenCircuit_opens:
  "fst (OpenCircuit rp ln now1 now2 x) = Some (h, i, b) \<longleftrightarrow>
     (\<exists>q y. wrap rp ln now1 now2 x = Inr (q, b) \<and> AddInvoice ln q = Inr y \<and> h = ip_Hash q \<and> i = px_Invoice x)"
  by (auto simp: OpenCircuit_def split: sum.splits prod.splits)

lemma new_circuit_ok:
  assumes "wrap rp ln now1 now2 x = Inr (q, b)"
  shows "circuit_ok rp (new_circuit (ip_Hash q) (px_Invoice x) b q (amount_of ln (px_Invoice x)))"
  using assms
  by (auto simp: wrap_ok_iff circuit_ok_def circuit_terms_def circuit_hist_of_def new_circuit_def amount_of_def
      circuit_fee_def result_simps dest: wrap_value_sum intro: circuit_hist.intros)

lemma relay_step_request:
  obtains "relay_step rp (EvRequest ln now1 now2 x) s = s"
  | q b y where "wrap rp ln now1 now2 x = Inr (q, b)" "AddInvoice ln q = Inr y"
      "relay_step rp (EvRequest ln now1 now2 x) s =
         s\<lparr>rs_circuits := rs_circuits s @ [new_circuit (ip_Hash q) (px_Invoice x) b q (amount_of ln (px_Invoice x))]\<rparr>"
proof (cases "rs_alive s \<and> fst (OpenCircuit rp ln now1 now2 x) \<noteq> None")
  case True
  then obtain h i b where o: "fst (OpenCircuit rp ln now1 now2 x) = Some (h, i, b)" by auto
  then obtain q y where "wrap rp ln now1 now2 x = Inr (q, b)" "AddInvoice ln q = Inr y" "h = ip_Hash q" "i = px_Invoice x"
    by (auto simp: OpenCircuit_opens)
  with o True that(2) show ?thesis by (cases "OpenCircuit rp ln now1 now2 x") auto
next
  case False
  then have "relay_step rp (EvRequest ln now1 now2 x) s = s"
    by (cases "OpenCircuit rp ln now1 now2 x"; cases "fst (OpenCircuit rp ln now1 now2 x)") auto
  then show ?thesis by (rule that(1))
qed

text \<open>Every circuit of a running relay is in order, and no two have the same payment hash.\<close>

definition relay_inv :: "RelayParameters \<Rightarrow> relay_system \<Rightarrow> bool" where
  "relay_inv rp s \<longleftrightarrow> list_all (circuit_ok rp) (rs_circuits s) \<and> distinct (map ci_hash (rs_circuits s)) \<and>
     (rs_alive s \<longleftrightarrow> (\<forall>c \<in> set (rs_circuits s). ci_phase c \<noteq> Done Crashed))"

lemma relay_inv_request:
  assumes "relay_inv rp s" and "node_law s (EvRequest ln now1 now2 x)"
  shows "relay_inv rp (relay_step rp (EvRequest ln now1 now2 x) s)"
proof (rule relay_step_request [of rp ln now1 now2 x s])
  fix q b y assume w: "wrap rp ln now1 now2 x = Inr (q, b)" and y: "AddInvoice ln q = Inr y"
    and e: "relay_step rp (EvRequest ln now1 now2 x) s =
         s\<lparr>rs_circuits := rs_circuits s @ [new_circuit (ip_Hash q) (px_Invoice x) b q (amount_of ln (px_Invoice x))]\<rparr>"
  have "ip_Hash q \<notin> ci_hash ` set (rs_circuits s)" using assms(2) y by (auto simp: node_law_def)
  then show ?thesis unfolding e using assms(1) new_circuit_ok [OF w] by (auto simp: relay_inv_def new_circuit_def)
qed (use assms in simp)

lemma relay_inv_answer:
  assumes "relay_inv rp s"
  shows "relay_inv rp (relay_step rp (EvAnswer i a) s)"
proof (cases "rs_alive s \<and> i < length (rs_circuits s)")
  case True
  let ?d = "circuit_step rp a (rs_circuits s ! i)"
  have "map ci_hash ((rs_circuits s)[i := ?d]) = map ci_hash (rs_circuits s)"
    using True by (simp add: map_update list_update_same_conv)
  moreover have "\<forall>c \<in> set ((rs_circuits s)[i := ?d]). c = ?d \<or> c \<in> set (rs_circuits s)"
    using set_update_subset_insert [of "rs_circuits s" i ?d] by blast
  moreover have "?d \<in> set ((rs_circuits s)[i := ?d])" using True by (simp add: set_update_memI)
  moreover have "circuit_ok rp ?d" using assms True by (auto simp: relay_inv_def list_all_iff intro: circuit_ok_step)
  ultimately show ?thesis using assms True by (auto simp: relay_inv_def list_all_iff Let_def)
qed (use assms in auto)

lemma relay_reach_inv: "relay_reach rp s \<Longrightarrow> relay_inv rp s"
proof (induction rule: relay_reach.induct)
  case start
  then show ?case by (simp add: relay_inv_def)
next
  case (step s ev)
  then show ?case by (cases ev) (simp_all add: relay_inv_request relay_inv_answer del: relay_step.simps)
qed

subsection \<open>Properties\<close>

lemma circuit_hist_pay:
  assumes "circuit_hist rp h i b ph calls answers" and "CallPay pp \<in> set calls"
  shows "\<exists>st. lnc_state st = Accepted \<and> AWatch st None \<in> set answers \<and> pp = payment_of rp i b st"
  using assms by cases auto

lemma circuit_hist_settle:
  assumes "circuit_hist rp h i b ph calls answers"
  shows "CallSettle pre \<in> set calls \<longleftrightarrow> APay (Inr pre) \<in> set answers"
  using assms by cases auto

lemma circuit_hist_returned:
  assumes "circuit_hist rp h i b (Done Returned) calls answers"
  shows "ASettle (Inr ()) \<in> set answers \<and> (\<exists>pre. APay (Inr pre) \<in> set answers) \<or>
     (\<forall>pre. APay (Inr pre) \<notin> set answers) \<and>
       (CallCancel h \<in> set calls \<or> (\<exists>st err. AWatch st err \<in> set answers \<and> lnc_state st = Canceled))"
  using assms by cases auto

lemma value_exact:
  assumes "outlay c + unat (circuit_fee rp c) < 2 ^ 64"
    and "ip_ValueMsat (ci_wrapped c) = ci_amount c + ci_budget c + circuit_fee rp c"
  shows "unat (ip_ValueMsat (ci_wrapped c)) = outlay c + unat (circuit_fee rp c)"
proof -
  have "unat (ci_amount c + ci_budget c) = outlay c"
    using assms(1) unat_add_lem [of "ci_amount c" "ci_budget c"] by (simp add: outlay_def)
  then show ?thesis using assms unat_add_lem [of "ci_amount c + ci_budget c" "circuit_fee rp c"] by simp
qed

text \<open>
  C5: in every reachable state of all circuits together, the relay has called for a payment of the
  original invoice only after the node reported a payment of the wrapped one as held. When amount,
  routing budget and fee of the circuit sum to less than 2 to the power of 64, which a budget that the client
  chooses can exceed, amount and fee limit of the payment and the relay's own fee add up to the
  value of the wrapped invoice, so that it never pays more than it receives. It settles with
  exactly the preimage that the payment returned; a goroutine that returned has
  settled if it has paid and otherwise has called for cancellation or found the invoice cancelled;
  and no two circuits have the same payment hash.
\<close>

theorem relay_never_loses:
  assumes "relay_reach rp s" and "c \<in> set (rs_circuits s)"
  shows "(\<forall>pp. CallPay pp \<in> set (ci_calls c) \<longrightarrow>
            (\<exists>st. lnc_state st = Accepted \<and> AWatch st None \<in> set (ci_answers c)) \<and> pay_Invoice pp = ci_invoice c \<and>
            (outlay c + unat (circuit_fee rp c) < 2 ^ 64 \<longrightarrow>
             unat (ci_amount c) + unat (FeeLimitMsat pp) + unat (circuit_fee rp c) = unat (ip_ValueMsat (ci_wrapped c))))
     \<and> (\<forall>pre. CallSettle pre \<in> set (ci_calls c) \<longleftrightarrow> APay (Inr pre) \<in> set (ci_answers c))
     \<and> (ci_phase c = Done Returned \<longrightarrow>
          ASettle (Inr ()) \<in> set (ci_answers c) \<and> (\<exists>pre. APay (Inr pre) \<in> set (ci_answers c)) \<or>
          (\<forall>pre. APay (Inr pre) \<notin> set (ci_answers c)) \<and>
            (CallCancel (ci_hash c) \<in> set (ci_calls c) \<or>
             (\<exists>st err. AWatch st err \<in> set (ci_answers c) \<and> lnc_state st = Canceled)))
     \<and> ci_hash c = ip_Hash (ci_wrapped c) \<and> distinct (map ci_hash (rs_circuits s))"
proof -
  have i: "relay_inv rp s" using assms(1) by (rule relay_reach_inv)
  then have ok: "circuit_terms rp c" "circuit_hist_of rp c"
    using assms(2) by (auto simp: relay_inv_def list_all_iff circuit_ok_def)
  have v: "outlay c + unat (circuit_fee rp c) < 2 ^ 64 \<Longrightarrow>
      unat (ip_ValueMsat (ci_wrapped c)) = outlay c + unat (circuit_fee rp c)"
    using value_exact ok(1) by (simp add: circuit_terms_def)
  have "\<forall>pp. CallPay pp \<in> set (ci_calls c) \<longrightarrow>
            (\<exists>st. lnc_state st = Accepted \<and> AWatch st None \<in> set (ci_answers c)) \<and> pay_Invoice pp = ci_invoice c \<and>
            (outlay c + unat (circuit_fee rp c) < 2 ^ 64 \<longrightarrow>
             unat (ci_amount c) + unat (FeeLimitMsat pp) + unat (circuit_fee rp c) = unat (ip_ValueMsat (ci_wrapped c)))"
    using ok(2) circuit_hist_pay v unfolding circuit_hist_of_def outlay_def by (fastforce simp: payment_of_def)
  moreover have "\<forall>pre. CallSettle pre \<in> set (ci_calls c) \<longleftrightarrow> APay (Inr pre) \<in> set (ci_answers c)"
    using ok(2) circuit_hist_settle unfolding circuit_hist_of_def by blast
  moreover have "ci_phase c = Done Returned \<longrightarrow>
          ASettle (Inr ()) \<in> set (ci_answers c) \<and> (\<exists>pre. APay (Inr pre) \<in> set (ci_answers c)) \<or>
          (\<forall>pre. APay (Inr pre) \<notin> set (ci_answers c)) \<and>
            (CallCancel (ci_hash c) \<in> set (ci_calls c) \<or>
             (\<exists>st err. AWatch st err \<in> set (ci_answers c) \<and> lnc_state st = Canceled))"
    using ok(2) circuit_hist_returned unfolding circuit_hist_of_def by metis
  ultimately show ?thesis using ok(1) i by (simp add: circuit_terms_def relay_inv_def)
qed

text \<open>The node's answer to the call that a circuit is blocked in.\<close>

definition answer_of :: "LN \<Rightarrow> circuit \<Rightarrow> ln_answer" where
  "answer_of ln c = (case last (ci_calls c) of
       CallWatch h \<Rightarrow> AWatch (fst (WatchInvoice ln h)) (snd (WatchInvoice ln h))
     | CallCancel h \<Rightarrow> ACancel (CancelInvoice ln h)
     | CallPay pp \<Rightarrow> APay (PayInvoice ln pp)
     | CallSettle pre \<Rightarrow> ASettle (SettleInvoice ln pre))"

text \<open>
  The step machine is the goroutine cut at its calls: answered by the node, a circuit ends within
  three steps, with exactly the calls and the end of \<^verbatim>\<open>circuitSwitch\<close>.
\<close>

lemma circuit_machine_agrees:
  "\<exists>c. ((\<lambda>c. circuit_step rp (answer_of ln c) c) ^^ 3) (new_circuit h i b q n) = c \<and>
     ci_phase c = Done (snd (circuitSwitch rp ln h i b)) \<and> ci_calls c = fst (circuitSwitch rp ln h i b)"
proof (cases "snd (WatchInvoice ln h) \<noteq> None \<or> lnc_state (fst (WatchInvoice ln h)) \<noteq> Accepted")
  case True
  then show ?thesis
    by (cases "WatchInvoice ln h")
      (auto simp: eval_nat_numeral circuitSwitch_def circuit_step_def answer_of_def new_circuit_def enter_def Let_def)
next
  case False
  let ?pp = "payment_of rp i b (fst (WatchInvoice ln h))"
  show ?thesis
  proof (cases "PayInvoice ln ?pp")
    case (Inl e)
    with False show ?thesis
      by (cases "WatchInvoice ln h")
        (auto simp: eval_nat_numeral circuitSwitch_def circuit_step_def answer_of_def new_circuit_def enter_def Let_def)
  next
    case (Inr pre)
    with False show ?thesis
      by (cases "WatchInvoice ln h"; cases "SettleInvoice ln pre")
        (auto simp: eval_nat_numeral circuitSwitch_def circuit_step_def answer_of_def new_circuit_def enter_def Let_def)
  qed
qed

text \<open>
  C34: a budget chosen by the client is added to the amount in 64 bits without a check. Within the
  range the wrapped invoice is worth the amount and the budget; past it the wrapped invoice is worth
  less than the invoice that the relay is to pay for it.
\<close>

theorem custom_budget_range:
  assumes "wrap rp ln now1 now2 x = Inr (q, b)" and "px_RoutingMsat x = Some r"
  shows "(unat (amount_of ln (px_Invoice x)) + unat r < 2 ^ 64 \<longrightarrow>
            unat (ip_ValueMsat q) = unat (amount_of ln (px_Invoice x)) + unat r) \<and>
         (\<not> unat (amount_of ln (px_Invoice x)) + unat r < 2 ^ 64 \<longrightarrow>
            unat (ip_ValueMsat q) < unat (amount_of ln (px_Invoice x)))"
proof -
  let ?n = "amount_of ln (px_Invoice x)"
  have v: "ip_ValueMsat q = ?n + r"
    using assms by (auto simp: wrap_ok_iff wrap_value_def amount_of_def result_simps Let_def)
  have "unat (?n + r) < unat ?n" if "\<not> unat ?n + unat r < 2 ^ 64"
  proof -
    have "unat r < 2 ^ 64" "unat ?n < 2 ^ 64" using unsigned_less [of r] unsigned_less [of ?n] by simp_all
    moreover have "unat (?n + r) = (unat ?n + unat r) mod 2 ^ 64" by (simp add: unat_word_ariths)
    ultimately show ?thesis using that by (simp add: le_mod_geq)
  qed
  then show ?thesis using unat_add_lem [of ?n r] v by auto
qed

text \<open>
  C35: the lifetime of a wrapped invoice. If the clock has not passed the original's lifetime, cut to
  the maximum, less the buffer, then the wrapped invoice lapses exactly that buffer before it and
  so before the original. If it has, which the check of the code does not exclude for an invoice
  that was valid for longer than the maximum, the subtraction wraps and the wrapped invoice gets a
  lifetime of about \<^term>\<open>2 ^ 64 :: nat\<close> seconds.
\<close>

theorem wrapped_invoice_expiry:
  assumes "wrap rp ln now1 now2 x = Inr (q, b)" and "DecodeInvoice ln (px_Invoice x) = Inr p"
    and "unat (inv_Timestamp p) + unat (inv_Expiry p) < 2 ^ 64" and "unat now2 + unat (ExpiryBuffer rp) < 2 ^ 64"
  defines "life \<equiv> unat (inv_Timestamp p) + min (unat (inv_Expiry p)) (unat (MaxExpiry rp))"
  shows "(unat now2 + unat (ExpiryBuffer rp) \<le> life \<longrightarrow> unat now2 + unat (ip_Expiry q) + unat (ExpiryBuffer rp) = life) \<and>
         (life < unat now2 + unat (ExpiryBuffer rp) \<longrightarrow>
            unat (ip_Expiry q) + (unat now2 + unat (ExpiryBuffer rp) - life) = 2 ^ 64)"
proof -
  define e where "e = (if inv_Expiry p > MaxExpiry rp then MaxExpiry rp else inv_Expiry p)"
  let ?b = "now2 + ExpiryBuffer rp"
  have "unat e = min (unat (inv_Expiry p)) (unat (MaxExpiry rp))" by (auto simp: e_def word_less_nat_alt)
  then have l: "unat (inv_Timestamp p + e) = life"
    using unat_add_lem [of "inv_Timestamp p" e] assms(3) unfolding life_def by (simp add: min_def split: if_splits)
  have u: "unat ?b = unat now2 + unat (ExpiryBuffer rp)" using unat_add_lem [of now2 "ExpiryBuffer rp"] assms(4) by simp
  have q: "ip_Expiry q = inv_Timestamp p + e - ?b"
    using assms(1,2) by (auto simp: wrap_ok_iff wrap_expiry_def e_def result_simps Let_def diff_diff_eq)
  have "unat (inv_Timestamp p + e - ?b) = life - unat ?b" if "unat ?b \<le> life"
    using that unat_sub [of ?b "inv_Timestamp p + e"] l by (simp add: word_le_nat_alt)
  moreover have "unat (inv_Timestamp p + e - ?b) = 2 ^ 64 + life - unat ?b" if "life < unat ?b"
    using that unat_sub_if' [of "inv_Timestamp p + e" ?b] l by simp
  moreover have "unat ?b < 2 ^ 64" using unsigned_less [of ?b] by simp
  ultimately show ?thesis unfolding q u [symmetric] using u by auto
qed

subsection \<open>Concrete nodes\<close>

text \<open>
  A node that decodes every invoice, with the bytes of the invoice for its payment hash, and adds
  an invoice only for the payment hash \<open>h\<close>.
\<close>

definition sample_node :: "u64 \<Rightarrow> bytes \<Rightarrow> LN" where
  "sample_node n h =
     \<lparr>DecodeInvoice = (\<lambda>i. Inr \<lparr>NumMsat = n, Features = [''9'', ''15''], inv_PaymentHash = hex_encode i,
        inv_DescriptionHash = [], inv_Description = ''d'', inv_Timestamp = 1000000, inv_Expiry = 2592000\<rparr>),
      EstimateRoutingFee = (\<lambda>p k. Inr (1000, 80)),
      AddInvoice = (\<lambda>q. if ip_Hash q = h then Inr ''wrapped'' else Inl (Sentinel PaymentHashExists)),
      WatchInvoice = (\<lambda>h. (\<lparr>lnc_state = Accepted, CltvExpiryDelta = 200\<rparr>, None)),
      CancelInvoice = (\<lambda>h. Inr ()), PayInvoice = (\<lambda>pp. Inr ''pre''), SettleInvoice = (\<lambda>p. Inr ())\<rparr>"

definition sample_ask :: "string \<Rightarrow> u64 option \<Rightarrow> relay_ProxyParameters" where
  "sample_ask i r = \<lparr>px_Invoice = i, px_RoutingMsat = r, px_Description = None, px_DescriptionHash = None\<rparr>"

lemma sample_wrap:
  "wrap NewRelay (sample_node 600000000 h) 1000300 1000300 (sample_ask i None) =
     Inr (\<lparr>ip_Hash = i, ip_Memo = ''d'', ip_DescriptionHash = [], ip_Expiry = 604200,
           ip_CltvExpiry = 200, ip_ValueMsat = 600604500\<rparr>, 3500)"
  by (simp add: wrap_def sample_node_def sample_ask_def NewRelay_def check_amount_def known_features_def wrap_description_def
      wrap_expiry_def wrap_cltv_def wrap_value_def routing_fee_msat_def ensure_def cong del: rbind_cong)

definition sample_circuit :: "string \<Rightarrow> circuit" where
  "sample_circuit i = new_circuit i i 3500
     \<lparr>ip_Hash = i, ip_Memo = ''d'', ip_DescriptionHash = [], ip_Expiry = 604200, ip_CltvExpiry = 200, ip_ValueMsat = 600604500\<rparr> 600000000"

lemma sample_open:
  "rs_alive s \<Longrightarrow> relay_step NewRelay (EvRequest (sample_node 600000000 i) 1000300 1000300 (sample_ask i None)) s =
     s\<lparr>rs_circuits := rs_circuits s @ [sample_circuit i]\<rparr>"
  by (simp add: OpenCircuit_def sample_wrap sample_circuit_def) (simp add: sample_node_def sample_ask_def amount_of_def)

lemma sample_two_circuits:
  "relay_reach NewRelay \<lparr>rs_alive = True, rs_circuits = [sample_circuit ''a'', sample_circuit ''b'']\<rparr>"
proof -
  have 1: "relay_reach NewRelay \<lparr>rs_alive = True, rs_circuits = [sample_circuit ''a'']\<rparr>"
    using relay_reach.step [OF relay_reach.start, of "EvRequest (sample_node 600000000 ''a'') 1000300 1000300 (sample_ask ''a'' None)" NewRelay]
    by (simp add: node_law_def sample_open del: relay_step.simps)
  show ?thesis
    using relay_reach.step [OF 1, of "EvRequest (sample_node 600000000 ''b'') 1000300 1000300 (sample_ask ''b'' None)"]
    by (simp add: node_law_def sample_open del: relay_step.simps)
      (simp add: sample_circuit_def new_circuit_def sample_node_def)
qed

text \<open>A circuit whose payment may have left the node while the wrapped invoice is not settled.\<close>

definition in_limbo :: "circuit \<Rightarrow> bool" where
  "in_limbo c = (ci_phase c = Paying \<or> ci_phase c = Settling \<or> ci_phase c = Done Crashed)"

abbreviation sample_held :: ln_answer where
  "sample_held \<equiv> AWatch \<lparr>lnc_state = Accepted, CltvExpiryDelta = 200\<rparr> None"

lemma sample_run: "relay_reach rp s \<Longrightarrow> relay_reach rp (foldl (\<lambda>s (i, a). relay_step rp (EvAnswer i a) s) s evs)"
proof (induction evs arbitrary: s)
  case (Cons ev evs)
  then show ?case by (cases ev) (simp add: relay_reach.step node_law_def del: relay_step.simps)
qed simp

text \<open>
  A panic of one circuit ends the process while other circuits may be between payment and
  settlement, so the amount left unsettled is not bounded by the largest amount of one invoice:
  with the default parameters a process can end with circuits worth more than that in this state.
\<close>

lemma limbo_exceeds_one_invoice:
  "\<exists>s. relay_reach NewRelay s \<and> \<not> rs_alive s \<and>
     unat (MaxAmountMsat NewRelay) < sum_list (map (unat \<circ> ci_amount) (filter in_limbo (rs_circuits s)))"
proof -
  let ?s = "foldl (\<lambda>s (i, a). relay_step NewRelay (EvAnswer i a) s)
     \<lparr>rs_alive = True, rs_circuits = [sample_circuit ''a'', sample_circuit ''b'']\<rparr>
     [(0, sample_held), (1, sample_held), (0, APay (Inl (External ''connection'')))]"
  have "relay_reach NewRelay ?s" by (rule sample_run [OF sample_two_circuits])
  moreover have "\<not> rs_alive ?s \<and>
     unat (MaxAmountMsat NewRelay) < sum_list (map (unat \<circ> ci_amount) (filter in_limbo (rs_circuits ?s)))"
    by (simp add: sample_circuit_def new_circuit_def circuit_step_def enter_def in_limbo_def NewRelay_def Let_def)
  ultimately show ?thesis by blast
qed

theorem relay_never_loses_witness:
  "\<exists>s c pp. relay_reach NewRelay s \<and> c \<in> set (rs_circuits s) \<and> CallPay pp \<in> set (ci_calls c) \<and>
     unat (ci_amount c) + unat (FeeLimitMsat pp) + unat (circuit_fee NewRelay c) = unat (ip_ValueMsat (ci_wrapped c)) \<and>
     CallSettle ''pre'' \<in> set (ci_calls c)"
proof -
  let ?s = "foldl (\<lambda>s (i, a). relay_step NewRelay (EvAnswer i a) s)
     \<lparr>rs_alive = True, rs_circuits = [sample_circuit ''a'', sample_circuit ''b'']\<rparr>
     [(0, sample_held), (0, APay (Inr ''pre''))]"
  have r: "relay_reach NewRelay ?s" by (rule sample_run [OF sample_two_circuits])
  have m: "hd (rs_circuits ?s) \<in> set (rs_circuits ?s)" by (simp add: Let_def)
  have o: "outlay (hd (rs_circuits ?s)) + unat (circuit_fee NewRelay (hd (rs_circuits ?s))) < 2 ^ 64"
    by (simp add: Let_def sample_circuit_def new_circuit_def circuit_step_def enter_def outlay_def circuit_fee_def routing_fee_msat_def NewRelay_def)
  have "\<exists>pp. CallPay pp \<in> set (ci_calls (hd (rs_circuits ?s)))" "APay (Inr ''pre'') \<in> set (ci_answers (hd (rs_circuits ?s)))"
    by (simp_all add: Let_def sample_circuit_def new_circuit_def circuit_step_def enter_def)
  with relay_never_loses [OF r m] r m o show ?thesis by blast
qed

lemma sample_wrap_ok:
  "\<exists>q b. wrap NewRelay (sample_node 600000000 h) 1000300 1000300 (sample_ask i (Some (-599999999))) = Inr (q, b)"
  "\<exists>q b. wrap NewRelay (sample_node 600000000 h) 1700000 1700000 (sample_ask i None) = Inr (q, b)"
  by (simp_all add: wrap_def sample_node_def sample_ask_def NewRelay_def check_amount_def known_features_def wrap_description_def
      wrap_expiry_def wrap_cltv_def wrap_value_def routing_fee_msat_def ensure_def cong del: rbind_cong)

theorem custom_budget_range_witness:
  "\<exists>q b. wrap NewRelay (sample_node 600000000 ''a'') 1000300 1000300 (sample_ask ''a'' (Some (-599999999))) = Inr (q, b) \<and>
     unat (ip_ValueMsat q) < 600000000"
proof -
  obtain q b where w: "wrap NewRelay (sample_node 600000000 ''a'') 1000300 1000300 (sample_ask ''a'' (Some (-599999999))) = Inr (q, b)"
    using sample_wrap_ok(1) by blast
  have "amount_of (sample_node 600000000 ''a'') (px_Invoice (sample_ask ''a'' (Some (-599999999)))) = 600000000"
    by (simp add: amount_of_def sample_node_def)
  with custom_budget_range [OF w, of "-599999999"] w show ?thesis by (auto simp: sample_ask_def)
qed

theorem wrapped_invoice_expiry_witness:
  "\<exists>q b p. wrap NewRelay (sample_node 600000000 ''a'') 1700000 1700000 (sample_ask ''a'' None) = Inr (q, b) \<and>
     unat (ip_Expiry q) + 95500 = 2 ^ 64"
proof -
  let ?n = "sample_node 600000000 ''a''" and ?x = "sample_ask ''a'' None"
  obtain q b where w: "wrap NewRelay ?n 1700000 1700000 ?x = Inr (q, b)"
    using sample_wrap_ok(2) by blast
  obtain p where p: "DecodeInvoice ?n (px_Invoice ?x) = Inr p" "inv_Timestamp p = 1000000" "inv_Expiry p = 2592000"
    by (simp add: sample_node_def)
  from wrapped_invoice_expiry [OF w p(1)] p(2,3) w show ?thesis by (auto simp: NewRelay_def)
qed

end
