(* ===== verification/Relay_Main.thy ===== *)
theory Relay_Main
  imports Relay
begin

text \<open>
  The process around the relay, \<^verbatim>\<open>main\<close> of \<^verbatim>\<open>lnproxy/cmd/http-relay/main.go\<close>: how it is set up
  from its flags, and how it shuts down. On the first interrupt the HTTP server stops accepting
  and its requests are waited for, then the wait group of the relay holds the process until every
  circuit has ended. The goroutines of \<^verbatim>\<open>main\<close>, the requests and the circuits are one step machine
  on top of the circuits of \<^verbatim>\<open>Relay\<close>.
\<close>

subsection \<open>The set-up\<close>

record relay_flags =
  rf_port :: string
  rf_lnd :: string
  rf_lnd_cert :: string
  rf_args :: "string list"

definition default_relay_flags :: "string list \<Rightarrow> relay_flags" where
  "default_relay_flags args = \<lparr>rf_port = ''4747'', rf_lnd = ''https://127.0.0.1:8080'', rf_lnd_cert = ''.lnd/tls.cert'',
     rf_args = args\<rparr>"

record lnd_url =
  lu_Scheme :: string
  lu_Host :: string
  lu_Path :: string

text \<open>\<open>None\<close> stands for the certificates of the system, \<open>Some\<close> for a pool of its own.\<close>

record 'c Lnd =
  lnd_Host :: lnd_url
  lnd_RootCAs :: "'c list option"
  lnd_Macaroon :: string

record relay_http_server =
  hs_Addr :: string
  hs_ReadHeaderTimeout :: int
  hs_ReadTimeout :: int
  hs_WriteTimeout :: int
  hs_MaxHeaderBytes :: int

datatype relay_exit = ExitUsage | ExitFatal string go_error

text \<open>
  Files, URL parsing and the certificates found in a PEM file are parameters; \<^verbatim>\<open>AppendCertsFromPEM\<close>
  skips what it cannot parse and its result is not looked at.
\<close>

record 'c relay_os =
  os_ReadFile :: "string \<Rightarrow> bytes result"
  os_ParseURL :: "string \<Rightarrow> lnd_url result"
  os_CertsOfPEM :: "bytes \<Rightarrow> 'c list"

definition relay_tls :: "'c relay_os \<Rightarrow> string \<Rightarrow> relay_exit + 'c list option" where
  "relay_tls os lndCertPath =
     (if lndCertPath = [] then Inr None
      else case os_ReadFile os lndCertPath of
             Inl e \<Rightarrow> Inl (ExitFatal ''unable to read lnd tls certificate file:'' e)
           | Inr lndCert \<Rightarrow> Inr (Some ([] @ os_CertsOfPEM os lndCert)))"

definition relay_lnd :: "'c relay_os \<Rightarrow> relay_flags \<Rightarrow> relay_exit + 'c Lnd" where
  "relay_lnd os fl =
     (if length (rf_args fl) \<noteq> 1 then Inl ExitUsage
      else case os_ReadFile os (hd (rf_args fl)) of
             Inl e \<Rightarrow> Inl (ExitFatal ''unable to read lnproxy macaroon file:'' e)
           | Inr macaroonBytes \<Rightarrow>
      (case os_ParseURL os (rf_lnd fl) of
             Inl e \<Rightarrow> Inl (ExitFatal ''unable to parse lnd host url:'' e)
           | Inr lndHost \<Rightarrow>
      (case relay_tls os (rf_lnd_cert fl) of
             Inl x \<Rightarrow> Inl x
           | Inr rootCAs \<Rightarrow>
               Inr \<lparr>lnd_Host = lndHost\<lparr>lu_Path := ''/''\<rparr>, lnd_RootCAs = rootCAs,
                    lnd_Macaroon = hex_encode macaroonBytes\<rparr>)))"

definition relay_server :: "string \<Rightarrow> relay_http_server" where
  "relay_server httpPort =
     \<lparr>hs_Addr = ''0.0.0.0:'' @ httpPort, hs_ReadHeaderTimeout = seconds 2, hs_ReadTimeout = seconds 20,
      hs_WriteTimeout = seconds 20, hs_MaxHeaderBytes = 1048576\<rparr>"

subsection \<open>The process\<close>

text \<open>
  \<open>Listening\<close> until the interrupt, \<open>ShuttingDown\<close> while \<^verbatim>\<open>server.Shutdown\<close> waits for the requests,
  \<open>Draining\<close> in \<^verbatim>\<open>WaitGroup.Wait\<close>, where interrupts are reset to their default and end the process.
\<close>

datatype main_phase = Listening | ShuttingDown | Draining | Exited | Killed

record relay_main =
  rm_sys :: relay_system
  rm_phase :: main_phase
  rm_requests :: nat
  rm_wg :: int

definition relay_main_start :: relay_main where
  "relay_main_start = \<lparr>rm_sys = \<lparr>rs_alive = True, rs_circuits = []\<rparr>, rm_phase = Listening, rm_requests = 0, rm_wg = 0\<rparr>"

datatype main_event =
    Arrive
  | Handle "relay_ProxyParameters result" LN u64 u64
  | Answer nat ln_answer
  | Interrupt
  | Idle
  | Drained

definition is_done :: "circuit \<Rightarrow> bool" where
  "is_done c = (case ci_phase c of Done _ \<Rightarrow> True | _ \<Rightarrow> False)"

definition running :: "relay_main \<Rightarrow> bool" where
  "running s = (rs_alive (rm_sys s) \<and> rm_phase s \<noteq> Exited \<and> rm_phase s \<noteq> Killed)"

text \<open>
  The handler adds one to the wait group before it starts the goroutine of a circuit, and that
  goroutine takes it away when it ends.
\<close>

definition handle_request :: "RelayParameters \<Rightarrow> relay_ProxyParameters result \<Rightarrow> LN \<Rightarrow> u64 \<Rightarrow> u64 \<Rightarrow> relay_main \<Rightarrow> relay_main" where
  "handle_request rp decoded ln now1 now2 s =
     (case decoded of
        Inl e \<Rightarrow> s\<lparr>rm_requests := rm_requests s - 1\<rparr>
      | Inr x \<Rightarrow>
          s\<lparr>rm_sys := relay_step rp (EvRequest ln now1 now2 x) (rm_sys s),
            rm_wg := rm_wg s + (if fst (OpenCircuit rp ln now1 now2 x) = None then 0 else 1),
            rm_requests := rm_requests s - 1\<rparr>)"

definition resume_circuit :: "RelayParameters \<Rightarrow> nat \<Rightarrow> ln_answer \<Rightarrow> relay_main \<Rightarrow> relay_main" where
  "resume_circuit rp i a s =
     (if \<not> i < length (rs_circuits (rm_sys s)) then s
      else let c = rs_circuits (rm_sys s) ! i
           in s\<lparr>rm_sys := relay_step rp (EvAnswer i a) (rm_sys s),
                rm_wg := rm_wg s - (if \<not> is_done c \<and> is_done (circuit_step rp a c) then 1 else 0)\<rparr>)"

definition main_step :: "RelayParameters \<Rightarrow> main_event \<Rightarrow> relay_main \<Rightarrow> relay_main" where
  "main_step rp ev s =
     (if \<not> running s then s
      else case ev of
             Arrive \<Rightarrow> if rm_phase s = Listening then s\<lparr>rm_requests := rm_requests s + 1\<rparr> else s
           | Handle decoded ln now1 now2 \<Rightarrow>
               if rm_requests s = 0 then s else handle_request rp decoded ln now1 now2 s
           | Answer i a \<Rightarrow> resume_circuit rp i a s
           | Interrupt \<Rightarrow>
               (case rm_phase s of
                  Listening \<Rightarrow> s\<lparr>rm_phase := ShuttingDown\<rparr>
                | Draining \<Rightarrow> s\<lparr>rm_phase := Killed\<rparr>
                | _ \<Rightarrow> s)
           | Idle \<Rightarrow> if rm_phase s = ShuttingDown \<and> rm_requests s = 0 then s\<lparr>rm_phase := Draining\<rparr> else s
           | Drained \<Rightarrow> if rm_phase s = Draining \<and> rm_wg s = 0 then s\<lparr>rm_phase := Exited\<rparr> else s)"

text \<open>The node keeps its promise on payment hashes for every request that is handled.\<close>

definition main_law :: "relay_main \<Rightarrow> main_event \<Rightarrow> bool" where
  "main_law s ev = (case ev of
       Handle (Inr x) ln now1 now2 \<Rightarrow> node_law (rm_sys s) (EvRequest ln now1 now2 x)
     | _ \<Rightarrow> True)"

inductive main_reach :: "RelayParameters \<Rightarrow> relay_main \<Rightarrow> bool" for rp where
  start: "main_reach rp relay_main_start"
| step: "main_reach rp s \<Longrightarrow> main_law s ev \<Longrightarrow> main_reach rp (main_step rp ev s)"

subsection \<open>The process runs the circuits of the relay\<close>

definition open_circuits :: "relay_main \<Rightarrow> circuit list" where
  "open_circuits s = filter (\<lambda>c. \<not> is_done c) (rs_circuits (rm_sys s))"

lemma is_done_iff: "is_done c \<longleftrightarrow> (\<exists>e. ci_phase c = Done e)"
  by (auto simp: is_done_def split: circuit_phase.splits)

lemma circuit_step_done: "is_done c \<Longrightarrow> circuit_step rp a c = c"
  by (auto simp: is_done_iff circuit_step_def split: ln_answer.splits)

lemma length_filter_update:
  assumes "i < length xs"
  shows "int (length (filter P (xs[i := y]))) = int (length (filter P xs)) - (if P (xs ! i) then 1 else 0) + (if P y then 1 else 0)"
proof -
  have "xs = take i xs @ xs ! i # drop (Suc i) xs" using assms by (simp add: id_take_nth_drop)
  then have "length (filter P xs) = length (filter P (take i xs @ xs ! i # drop (Suc i) xs))" by simp
  then show ?thesis using assms by (simp add: upd_conv_take_nth_drop)
qed

lemma OpenCircuit_request:
  assumes "rs_alive t"
  shows "int (length (filter (\<lambda>c. \<not> is_done c) (rs_circuits (relay_step rp (EvRequest ln now1 now2 x) t)))) =
     int (length (filter (\<lambda>c. \<not> is_done c) (rs_circuits t))) + (if fst (OpenCircuit rp ln now1 now2 x) = None then 0 else 1)"
  using assms by (auto simp: OpenCircuit_def is_done_def new_circuit_def split: sum.splits prod.splits)

definition main_inv :: "RelayParameters \<Rightarrow> relay_main \<Rightarrow> bool" where
  "main_inv rp s \<longleftrightarrow> relay_reach rp (rm_sys s) \<and> rm_wg s = int (length (open_circuits s)) \<and>
     (rm_phase s = Draining \<or> rm_phase s = Exited \<or> rm_phase s = Killed \<longrightarrow> rm_requests s = 0) \<and>
     (rm_phase s = Exited \<longrightarrow> rs_alive (rm_sys s) \<and> open_circuits s = [])"

lemma main_inv_start: "main_inv rp relay_main_start"
  by (simp add: main_inv_def relay_main_start_def open_circuits_def relay_reach.start)

lemma main_inv_handle:
  assumes "main_inv rp s" and "running s" and "rm_requests s \<noteq> 0" and "main_law s (Handle decoded ln now1 now2)"
  shows "main_inv rp (handle_request rp decoded ln now1 now2 s)"
proof (cases decoded)
  case (Inl e)
  with assms show ?thesis by (auto simp: main_inv_def handle_request_def open_circuits_def)
next
  case (Inr x)
  have alive: "rs_alive (rm_sys s)" and ph: "rm_phase s = Listening \<or> rm_phase s = ShuttingDown"
    using assms(1-3) by (cases "rm_phase s"; auto simp: running_def main_inv_def)+
  have "relay_reach rp (relay_step rp (EvRequest ln now1 now2 x) (rm_sys s))"
    using assms(1,4) Inr by (simp add: main_inv_def main_law_def relay_reach.step del: relay_step.simps)
  with OpenCircuit_request [OF alive, of rp ln now1 now2 x] assms(1) ph Inr show ?thesis
    by (auto simp: main_inv_def handle_request_def open_circuits_def simp del: relay_step.simps)
qed

lemma main_inv_resume:
  assumes "main_inv rp s" and "running s"
  shows "main_inv rp (resume_circuit rp i a s)"
proof (cases "i < length (rs_circuits (rm_sys s))")
  case True
  let ?c = "rs_circuits (rm_sys s) ! i"
  have "relay_reach rp (relay_step rp (EvAnswer i a) (rm_sys s))"
    using assms(1) by (simp add: main_inv_def node_law_def relay_reach.step del: relay_step.simps)
  moreover have "rs_circuits (relay_step rp (EvAnswer i a) (rm_sys s)) = (rs_circuits (rm_sys s))[i := circuit_step rp a ?c]"
    using assms(2) True by (simp add: running_def Let_def)
  moreover have "is_done ?c \<Longrightarrow> is_done (circuit_step rp a ?c)" by (simp add: circuit_step_done)
  ultimately show ?thesis
    using assms True length_filter_update [OF True, of "\<lambda>c. \<not> is_done c" "circuit_step rp a ?c"]
    by (auto simp: main_inv_def resume_circuit_def open_circuits_def running_def Let_def simp del: relay_step.simps)
qed (use assms in \<open>simp add: resume_circuit_def\<close>)

lemma main_inv_step:
  assumes "main_inv rp s" and "main_law s ev"
  shows "main_inv rp (main_step rp ev s)"
proof (cases "running s")
  case True
  note i = assms(1) True
  show ?thesis
  proof (cases ev)
    case Arrive
    with i show ?thesis by (auto simp: main_step_def main_inv_def open_circuits_def)
  next
    case (Handle decoded ln now1 now2)
    with i assms(2) main_inv_handle [of rp s decoded ln now1 now2] show ?thesis by (simp add: main_step_def)
  next
    case (Answer j a)
    with i main_inv_resume [of rp s j a] show ?thesis by (simp add: main_step_def)
  next
    case Interrupt
    with i show ?thesis by (auto simp: main_step_def main_inv_def open_circuits_def split: main_phase.splits)
  next
    case Idle
    with i show ?thesis by (auto simp: main_step_def main_inv_def open_circuits_def)
  next
    case Drained
    with i show ?thesis by (auto simp: main_step_def main_inv_def open_circuits_def running_def)
  qed
qed (use assms in \<open>simp add: main_step_def\<close>)

lemma main_reach_inv: "main_reach rp s \<Longrightarrow> main_inv rp s"
  by (induction rule: main_reach.induct) (auto intro: main_inv_start main_inv_step)

subsection \<open>Progress\<close>

text \<open>The answers a circuit can still need, and the answers that end the call it is blocked in.\<close>

definition circuit_left :: "circuit \<Rightarrow> nat" where
  "circuit_left c = (case ci_phase c of Watching \<Rightarrow> 3 | Paying \<Rightarrow> 2 | Canceling \<Rightarrow> 1 | Settling \<Rightarrow> 1 | Done _ \<Rightarrow> 0)"

definition fits :: "circuit \<Rightarrow> ln_answer \<Rightarrow> bool" where
  "fits c a = (case (ci_phase c, a) of
       (Watching, AWatch _ _) \<Rightarrow> True | (Canceling, ACancel _) \<Rightarrow> True | (Paying, APay _) \<Rightarrow> True
     | (Settling, ASettle _) \<Rightarrow> True | _ \<Rightarrow> False)"

definition main_left :: "relay_main \<Rightarrow> nat" where
  "main_left s = sum_list (map circuit_left (rs_circuits (rm_sys s)))"

lemma circuit_left_step: "fits c a \<Longrightarrow> circuit_left (circuit_step rp a c) < circuit_left c"
  by (auto simp: fits_def circuit_left_def circuit_step_def enter_def split: circuit_phase.splits ln_answer.splits sum.splits)

lemma main_left_answer:
  assumes "running s" and "i < length (rs_circuits (rm_sys s))" and "fits (rs_circuits (rm_sys s) ! i) a"
  shows "main_left (main_step rp (Answer i a) s) < main_left s"
proof -
  let ?cs = "rs_circuits (rm_sys s)"
  have "rs_circuits (rm_sys (main_step rp (Answer i a) s)) = ?cs[i := circuit_step rp a (?cs ! i)]"
    using assms(1,2) by (simp add: main_step_def resume_circuit_def running_def Let_def)
  moreover have "?cs = take i ?cs @ ?cs ! i # drop (Suc i) ?cs" using assms(2) by (simp add: id_take_nth_drop)
  then have "sum_list (map circuit_left ?cs) =
      sum_list (map circuit_left (take i ?cs)) + circuit_left (?cs ! i) + sum_list (map circuit_left (drop (Suc i) ?cs))"
    by (metis add.assoc list.simps(9) map_append sum_list.Cons sum_list_append)
  ultimately show ?thesis
    using assms(2) circuit_left_step [OF assms(3), of rp] by (simp add: main_left_def upd_conv_take_nth_drop)
qed

lemma open_circuits_Nil: "open_circuits s = [] \<longleftrightarrow> (\<forall>c \<in> set (rs_circuits (rm_sys s)). is_done c)"
  by (auto simp: open_circuits_def filter_empty_conv)

lemma open_circuits_nth:
  "open_circuits s \<noteq> [] \<Longrightarrow> \<exists>i < length (rs_circuits (rm_sys s)). \<not> is_done (rs_circuits (rm_sys s) ! i)"
  by (auto simp: open_circuits_Nil in_set_conv_nth)

lemma no_request_no_circuit:
  "rm_requests s = 0 \<Longrightarrow> length (rs_circuits (rm_sys (main_step rp ev s))) = length (rs_circuits (rm_sys s))"
  by (auto simp: main_step_def resume_circuit_def Let_def split: main_event.splits main_phase.splits)

subsection \<open>Properties\<close>

text \<open>
  C12: the process leaves no circuit behind. In every reachable state of the process the counter
  of the wait group is the number of circuits that have not ended. While the process waits for the
  circuits, none is added, and it makes progress: either it exits, or some circuit has not ended
  and every answer of the node to the call it is blocked in brings the end nearer, by a measure of
  at most three answers for each circuit. When the process has exited by itself, every circuit has
  returned, and every payment the relay made has been claimed with its preimage.
\<close>

theorem relay_shutdown_clean:
  assumes "main_reach rp s"
  shows "rm_wg s = int (length (filter (\<lambda>c. \<not> is_done c) (rs_circuits (rm_sys s))))
     \<and> (rm_phase s = Draining \<longrightarrow>
          (\<forall>ev. length (rs_circuits (rm_sys (main_step rp ev s))) = length (rs_circuits (rm_sys s))))
     \<and> (rm_phase s = Draining \<and> rs_alive (rm_sys s) \<longrightarrow>
          rm_phase (main_step rp Drained s) = Exited \<or>
          (\<exists>i < length (rs_circuits (rm_sys s)). \<not> is_done (rs_circuits (rm_sys s) ! i) \<and>
             (\<forall>a. fits (rs_circuits (rm_sys s) ! i) a \<longrightarrow> main_left (main_step rp (Answer i a) s) < main_left s)))
     \<and> (rm_phase s = Exited \<longrightarrow> (\<forall>c \<in> set (rs_circuits (rm_sys s)). ci_phase c = Done Returned \<and>
          (\<forall>pre. APay (Inr pre) \<in> set (ci_answers c) \<longrightarrow>
             CallSettle pre \<in> set (ci_calls c) \<and> ASettle (Inr ()) \<in> set (ci_answers c))))"
proof -
  have i: "main_inv rp s" using assms by (rule main_reach_inv)
  have r: "relay_inv rp (rm_sys s)" using i relay_reach_inv by (auto simp: main_inv_def)
  have "rm_phase (main_step rp Drained s) = Exited \<or>
          (\<exists>i < length (rs_circuits (rm_sys s)). \<not> is_done (rs_circuits (rm_sys s) ! i) \<and>
             (\<forall>a. fits (rs_circuits (rm_sys s) ! i) a \<longrightarrow> main_left (main_step rp (Answer i a) s) < main_left s))"
    if "rm_phase s = Draining \<and> rs_alive (rm_sys s)"
  proof (cases "open_circuits s = []")
    case True
    with that i show ?thesis by (simp add: main_step_def running_def main_inv_def)
  next
    case False
    from open_circuits_nth [OF this] main_left_answer [of s _ _ rp] that show ?thesis by (auto simp: running_def)
  qed
  moreover have "ci_phase c = Done Returned \<and> (\<forall>pre. APay (Inr pre) \<in> set (ci_answers c) \<longrightarrow>
             CallSettle pre \<in> set (ci_calls c) \<and> ASettle (Inr ()) \<in> set (ci_answers c))"
    if "rm_phase s = Exited" and c: "c \<in> set (rs_circuits (rm_sys s))" for c
  proof -
    have "is_done c" "ci_phase c \<noteq> Done Crashed" using i r that by (auto simp: main_inv_def relay_inv_def open_circuits_Nil)
    then have d: "ci_phase c = Done Returned" by (metis circuit_end.exhaust is_done_iff)
    have "circuit_hist rp (ci_hash c) (ci_invoice c) (ci_budget c) (ci_phase c) (ci_calls c) (ci_answers c)"
      using r c by (auto simp: relay_inv_def list_all_iff circuit_ok_def circuit_hist_of_def)
    with d circuit_hist_returned circuit_hist_settle show ?thesis by metis
  qed
  moreover have "rm_phase s = Draining \<Longrightarrow> rm_requests s = 0" using i by (simp add: main_inv_def)
  ultimately show ?thesis using i no_request_no_circuit [of s rp] by (simp add: main_inv_def open_circuits_def)
qed

subsection \<open>A shutdown\<close>

fun main_run :: "RelayParameters \<Rightarrow> main_event list \<Rightarrow> relay_main \<Rightarrow> relay_main" where
  "main_run rp [] s = s"
| "main_run rp (ev # evs) s = main_run rp evs (main_step rp ev s)"

fun main_laws :: "RelayParameters \<Rightarrow> main_event list \<Rightarrow> relay_main \<Rightarrow> bool" where
  "main_laws rp [] s = True"
| "main_laws rp (ev # evs) s = (main_law s ev \<and> main_laws rp evs (main_step rp ev s))"

lemma main_run_reach: "main_reach rp s \<Longrightarrow> main_laws rp evs s \<Longrightarrow> main_reach rp (main_run rp evs s)"
  by (induction rp evs s rule: main_run.induct) (simp_all add: main_reach.step)

lemma sample_opened:
  "main_run NewRelay [Arrive, Handle (Inr (sample_ask ''a'' None)) (sample_node 600000000 ''a'') 1000300 1000300] relay_main_start =
     \<lparr>rm_sys = \<lparr>rs_alive = True, rs_circuits = [sample_circuit ''a'']\<rparr>, rm_phase = Listening, rm_requests = 0, rm_wg = 1\<rparr>"
  by (simp add: relay_main_start_def main_step_def running_def handle_request_def sample_open OpenCircuit_def sample_wrap
      del: relay_step.simps) (simp add: sample_node_def)

lemma sample_reach:
  "main_reach NewRelay \<lparr>rm_sys = \<lparr>rs_alive = True, rs_circuits = [sample_circuit ''a'']\<rparr>, rm_phase = Listening,
     rm_requests = 0, rm_wg = 1\<rparr>"
  using main_run_reach [OF main_reach.start,
    of NewRelay "[Arrive, Handle (Inr (sample_ask ''a'' None)) (sample_node 600000000 ''a'') 1000300 1000300]"]
  unfolding sample_opened by (simp add: main_law_def node_law_def relay_main_start_def main_step_def running_def)

definition sample_shutdown :: relay_main where
  "sample_shutdown = main_run NewRelay
     [Interrupt, Idle, Answer 0 sample_held, Answer 0 (APay (Inr ''pre'')), Answer 0 (ASettle (Inr ())), Drained]
     \<lparr>rm_sys = \<lparr>rs_alive = True, rs_circuits = [sample_circuit ''a'']\<rparr>, rm_phase = Listening, rm_requests = 0, rm_wg = 1\<rparr>"

theorem relay_shutdown_clean_witness:
  "rm_phase sample_shutdown = Exited \<and> (\<exists>c. rs_circuits (rm_sys sample_shutdown) = [c] \<and> ci_phase c = Done Returned \<and>
     CallSettle ''pre'' \<in> set (ci_calls c))"
proof -
  have "main_reach NewRelay sample_shutdown"
    unfolding sample_shutdown_def by (rule main_run_reach [OF sample_reach]) (simp add: main_law_def)
  note clean = relay_shutdown_clean [OF this]
  have ex: "rm_phase sample_shutdown = Exited"
    by (simp add: sample_shutdown_def main_step_def running_def resume_circuit_def sample_circuit_def new_circuit_def
        circuit_step_def enter_def is_done_def Let_def)
  obtain c where c: "rs_circuits (rm_sys sample_shutdown) = [c]" "APay (Inr ''pre'') \<in> set (ci_answers c)"
    by (simp add: sample_shutdown_def main_step_def running_def resume_circuit_def sample_circuit_def new_circuit_def
        circuit_step_def enter_def is_done_def Let_def)
  show ?thesis using clean ex c by (simp del: split_paired_Ex)
qed

text \<open>
  A second interrupt, while the circuits are waited for, ends the process at once and can leave a
  payment that was made and not claimed.
\<close>

lemma second_interrupt_kills:
  "\<exists>s. main_reach NewRelay s \<and> rm_phase s = Killed \<and>
     (\<exists>c \<in> set (rs_circuits (rm_sys s)). in_limbo c \<and> (\<exists>pre. APay (Inr pre) \<in> set (ci_answers c)))"
proof -
  let ?s = "main_run NewRelay [Interrupt, Idle, Answer 0 sample_held, Answer 0 (APay (Inr ''pre'')), Interrupt]
     \<lparr>rm_sys = \<lparr>rs_alive = True, rs_circuits = [sample_circuit ''a'']\<rparr>, rm_phase = Listening, rm_requests = 0, rm_wg = 1\<rparr>"
  have "main_reach NewRelay ?s" by (rule main_run_reach [OF sample_reach]) (simp add: main_law_def)
  moreover have "rm_phase ?s = Killed \<and>
     (\<exists>c \<in> set (rs_circuits (rm_sys ?s)). in_limbo c \<and> (\<exists>pre. APay (Inr pre) \<in> set (ci_answers c)))"
    by (simp add: main_step_def running_def resume_circuit_def sample_circuit_def new_circuit_def
        circuit_step_def enter_def is_done_def in_limbo_def Let_def)
  ultimately show ?thesis by blast
qed

text \<open>
  What the set-up hands to the node client: a path that is always the root, the macaroon of the
  file in hexadecimal, and no process without exactly one argument.
\<close>

lemma relay_lnd_ok:
  assumes "relay_lnd os fl = Inr lnd"
  shows "\<exists>path b. rf_args fl = [path] \<and> os_ReadFile os path = Inr b \<and> hex_decode (lnd_Macaroon lnd) = Inr b \<and>
     lu_Path (lnd_Host lnd) = ''/'' \<and> (lnd_RootCAs lnd = None \<longleftrightarrow> rf_lnd_cert fl = [])"
  using assms
  by (cases "rf_args fl") (auto simp: relay_lnd_def relay_tls_def split: sum.splits if_splits)

end
