(* ===== verification/Logging.thy ===== *)
theory Logging
  imports Go_Base
begin

text \<open>
  \<^verbatim>\<open>aperture/log.go\<close> and the \<^verbatim>\<open>log.go\<close> of the packages: which logger each package writes to, and what a
  critical line asks for. The writer and the loggers are lnd's and parameters, as is the interceptor of
  signals; text and level of the lines are not modelled.
\<close>

datatype log_package =
  PkgAperture | PkgAuth | PkgLsat | PkgProxy | PkgChallenger | PkgApertureDB | PkgLnc | PkgLndclient

text \<open>The constants \<^verbatim>\<open>Subsystem\<close>; the last one is the literal that stands for lnd's client.\<close>

fun Subsystem :: "log_package \<Rightarrow> string" where
  "Subsystem PkgAperture = ''APER''"
| "Subsystem PkgAuth = ''AUTH''"
| "Subsystem PkgLsat = ''L402''"
| "Subsystem PkgProxy = ''PRXY''"
| "Subsystem PkgChallenger = ''CHLL''"
| "Subsystem PkgApertureDB = ''APDB''"
| "Subsystem PkgLnc = ''LNCS''"
| "Subsystem PkgLndclient = ''LNDC''"

record 'i interceptor_ops =
  sg_Listening :: "'i \<Rightarrow> bool"
  sg_RequestShutdown :: "'i \<Rightarrow> 'i"

text \<open>
  \<open>ll_GenSubLogger\<close> is \<^verbatim>\<open>root.GenSubLogger\<close>, which takes what a critical line calls, \<open>ll_NewSubLogger\<close> is
  \<^verbatim>\<open>build.NewSubLogger\<close>, \<open>ll_Added\<close> the logger that \<^verbatim>\<open>lnd.AddSubLogger\<close> makes for a tag, registers, and hands
  to \<^verbatim>\<open>UseLogger\<close>.
\<close>

record ('i, 'l) lnd_log =
  ll_GenSubLogger :: "string \<Rightarrow> ('i \<Rightarrow> 'i) \<Rightarrow> 'l"
  ll_NewSubLogger :: "string \<Rightarrow> (string \<Rightarrow> 'l) option \<Rightarrow> 'l"
  ll_Added :: "string \<Rightarrow> 'l"

text \<open>The package variables \<^verbatim>\<open>log\<close>, and the loggers registered with the writer, whose levels can be set.\<close>

record 'l log_state =
  lg_log :: "log_package \<Rightarrow> 'l"
  lg_registered :: "(string \<times> 'l) list"

definition UseLogger :: "log_package \<Rightarrow> 'l \<Rightarrow> 'l log_state \<Rightarrow> 'l log_state" where
  "UseLogger p logger st = st\<lparr>lg_log := (lg_log st)(p := logger)\<rparr>"

text \<open>The \<^verbatim>\<open>init\<close> functions of the packages.\<close>

definition init_loggers :: "('i, 'l) lnd_log \<Rightarrow> 'l log_state" where
  "init_loggers ll = \<lparr>lg_log = (\<lambda>p. ll_NewSubLogger ll (Subsystem p) None), lg_registered = []\<rparr>"

definition log_shutdown :: "'i interceptor_ops \<Rightarrow> 'i \<Rightarrow> 'i" where
  "log_shutdown sg i = (if \<not> sg_Listening sg i then i else sg_RequestShutdown sg i)"

definition genSubLogger :: "('i, 'l) lnd_log \<Rightarrow> 'i interceptor_ops \<Rightarrow> string \<Rightarrow> 'l" where
  "genSubLogger ll sg tag = ll_GenSubLogger ll tag (log_shutdown sg)"

definition AddSubLogger :: "('i, 'l) lnd_log \<Rightarrow> log_package \<Rightarrow> 'l log_state \<Rightarrow> 'l log_state" where
  "AddSubLogger ll p st =
     (let logger = ll_Added ll (Subsystem p)
      in UseLogger p logger (st\<lparr>lg_registered := lg_registered st @ [(Subsystem p, logger)]\<rparr>))"

definition SetupLoggers :: "('i, 'l) lnd_log \<Rightarrow> 'i interceptor_ops \<Rightarrow> 'l log_state \<Rightarrow> 'l log_state" where
  "SetupLoggers ll sg st =
     (let log = ll_NewSubLogger ll (Subsystem PkgAperture) (Some (genSubLogger ll sg));
          st = UseLogger PkgAperture log st;
          st = st\<lparr>lg_registered := lg_registered st @ [(Subsystem PkgAperture, log)]\<rparr>;
          st = AddSubLogger ll PkgAuth st;
          st = AddSubLogger ll PkgLsat st;
          st = AddSubLogger ll PkgProxy st;
          st = AddSubLogger ll PkgChallenger st;
          st = AddSubLogger ll PkgApertureDB st
      in AddSubLogger ll PkgLndclient st)"

subsection \<open>Lines with a prefix\<close>

text \<open>\<^verbatim>\<open>PrefixLog\<close> of the proxy: the prefix becomes part of the format, at each of the four levels.\<close>

datatype log_level = LevelDebug | LevelInfo | LevelWarn | LevelError

record 'a PrefixLog =
  pl_logger :: "log_level \<Rightarrow> string \<Rightarrow> string list \<Rightarrow> 'a"
  pl_prefix :: string

definition PrefixLog_write :: "log_level \<Rightarrow> 'a PrefixLog \<Rightarrow> string \<Rightarrow> string list \<Rightarrow> 'a" where
  "PrefixLog_write level s format params = pl_logger s level (pl_prefix s @ '' '' @ format) params"

subsection \<open>Every package but one\<close>

lemma Subsystem_inj: "Subsystem p = Subsystem q \<longleftrightarrow> p = q"
  by (cases p; cases q) simp_all

text \<open>
  After the set-up each package writes to the logger that is registered under its own tag, with no tag
  twice. The package \<^verbatim>\<open>lnc\<close> is not among them: its logger stays the one that writes nothing.
\<close>

lemma SetupLoggers_registers:
  assumes "st = SetupLoggers ll sg (init_loggers ll)"
  shows "distinct (map fst (lg_registered st))"
    and "map_of (lg_registered st) (Subsystem p) = (if p = PkgLnc then None else Some (lg_log st p))"
    and "lg_log st PkgLnc = ll_NewSubLogger ll ''LNCS'' None"
  unfolding assms
  by (simp_all add: SetupLoggers_def AddSubLogger_def UseLogger_def init_loggers_def Let_def) (cases p; simp)

text \<open>A critical line asks for a shutdown exactly while the interceptor listens, and then only once if it stops listening.\<close>

lemma log_shutdown_once:
  assumes "\<And>i. \<not> sg_Listening sg (sg_RequestShutdown sg i)"
  shows "log_shutdown sg (log_shutdown sg i) = log_shutdown sg i"
  by (simp add: log_shutdown_def assms)

end
