(* ===== verification/Lsat_Token.thy ===== *)
theory Lsat_Token
  imports Lsat_Header Lsat_Identifier
begin

text \<open>
  \<^verbatim>\<open>aperture/lsat/token.go\<close>: the client's token, its creation from a challenge, the macaroon
  with the proof of payment added, and the binary form in which the token store keeps it.
  A macaroon pointer is a value here: \<^verbatim>\<open>Clone\<close> is the identity.
\<close>

record 'm Token =
  tok_PaymentHash :: bytes
  Preimage :: bytes
  AmountPaid :: "64 word"
  RoutingFeePaid :: "64 word"
  TimeCreated :: time
  baseMac :: 'm

definition zeroPreimage :: bytes where
  "zeroPreimage = replicate 32 NUL"

definition tokenFromChallenge ::
    "'m macaroon_ops \<Rightarrow> lntypes_ops \<Rightarrow> time \<Rightarrow> bytes \<Rightarrow> bytes \<Rightarrow> 'm Token result" where
  "tokenFromChallenge mo lt now baseMacBytes paymentHash =
     (case mac_UnmarshalBinary mo baseMacBytes of
        Inl e \<Rightarrow> Inl (Errorf ''unable to unmarshal macaroon'')
      | Inr mac \<Rightarrow> rbind (lnt_MakeHash lt paymentHash) (\<lambda>hash.
          Inr \<lparr>tok_PaymentHash = hash, Preimage = zeroPreimage, AmountPaid = 0,
               RoutingFeePaid = 0, TimeCreated = now, baseMac = mac\<rparr>))"

definition BaseMacaroon :: "'m Token \<Rightarrow> 'm" where
  "BaseMacaroon t = baseMac t"

definition PaidMacaroon :: "'m macaroon_ops \<Rightarrow> lntypes_ops \<Rightarrow> 'm Token \<Rightarrow> 'm result" where
  "PaidMacaroon mo lt t =
     AddFirstPartyCaveats mo (BaseMacaroon t) [NewCaveat PreimageKey (lnt_PreimageString lt (Preimage t))]"

definition IsValid :: "'m Token \<Rightarrow> bool" where
  "IsValid t = True"

definition isPending :: "'m Token \<Rightarrow> bool" where
  "isPending t \<longleftrightarrow> Preimage t = zeroPreimage"

definition serializeToken :: "'m macaroon_ops \<Rightarrow> 'm Token \<Rightarrow> bytes result" where
  "serializeToken mo t =
     rbind (mac_MarshalBinary mo (baseMac t)) (\<lambda>baseMacBytes.
       Inr (be_bytes 4 (length baseMacBytes mod 2 ^ 32) @ baseMacBytes @ tok_PaymentHash t @ Preimage t
            @ be_bytes 8 (unat (AmountPaid t)) @ be_bytes 8 (unat (RoutingFeePaid t))
            @ be_bytes 8 (nat (unix_nano (TimeCreated t) mod 2 ^ 64))))"

definition deserializeToken ::
    "'m macaroon_ops \<Rightarrow> lntypes_ops \<Rightarrow> time \<Rightarrow> bytes \<Rightarrow> 'm Token result" where
  "deserializeToken mo lt now r0 =
     rbind (read_full 4 r0) (\<lambda>(macLen, r1).
     rbind (read_full (be_val macLen) r1) (\<lambda>(macBytes, r2).
     rbind (read_full HashSize r2) (\<lambda>(paymentHash, r3).
     rbind (tokenFromChallenge mo lt now macBytes paymentHash) (\<lambda>token.
     rbind (read_full 32 r3) (\<lambda>(preimage, r4).
     rbind (read_full 8 r4) (\<lambda>(amountPaid, r5).
     rbind (read_full 8 r5) (\<lambda>(routingFeePaid, r6).
     rbind (read_full 8 r6) (\<lambda>(unixNano, r7).
       Inr (token\<lparr>Preimage := preimage, AmountPaid := word_of_nat (be_val amountPaid),
                  RoutingFeePaid := word_of_nat (be_val routingFeePaid),
                  TimeCreated := time_Unix 0 (wrap64 (int (be_val unixNano)))\<rparr>)))))))))"

subsection \<open>Properties\<close>

text \<open>Arrays of the right size, a macaroon that fits its length field, an instant that fits 64
  bits of nanoseconds.\<close>

definition storable_time :: "time \<Rightarrow> bool" where
  "storable_time t \<longleftrightarrow> 0 \<le> snd t \<and> snd t < 1000000000 \<and> in_int64 (fst t) \<and>
     in_int64 ((fst t - unix_to_internal) * 1000000000 + snd t)"

definition wf_Token :: "'m macaroon_ops \<Rightarrow> 'm Token \<Rightarrow> bool" where
  "wf_Token mo t \<longleftrightarrow> length (tok_PaymentHash t) = 32 \<and> length (Preimage t) = 32 \<and>
     storable_time (TimeCreated t) \<and>
     (\<forall>b. mac_MarshalBinary mo (baseMac t) = Inr b \<longrightarrow> length b < 2 ^ 32)"

lemma nano_split:
  fixes s n :: int
  assumes "0 \<le> n" and "n < 1000000000"
  shows "(s * 1000000000 + n) div 1000000000 = s" and "(s * 1000000000 + n) mod 1000000000 = n"
  using assms by simp_all

lemma unix_nano_storable:
  assumes "storable_time t"
  shows "unix_nano t = (fst t - unix_to_internal) * 1000000000 + snd t"
    and "in_int64 (unix_nano t)" and "time_Unix 0 (unix_nano t) = t"
proof -
  let ?s = "fst t - unix_to_internal"
  from assms have n: "0 \<le> snd t" "snd t < 1000000000" "in_int64 (fst t)"
    "in_int64 (?s * 1000000000 + snd t)" by (simp_all add: storable_time_def)
  then have s: "in_int64 ?s" by (auto simp: in_int64_def)
  show u: "unix_nano t = ?s * 1000000000 + snd t"
    using n s by (simp add: unix_nano_def wrap64_id)
  show "in_int64 (unix_nano t)" using n(4) u by simp
  have "(?s * 1000000000 + snd t) div 1000000000 = ?s" "(?s * 1000000000 + snd t) mod 1000000000 = snd t"
    using n(1,2) by (rule nano_split)+
  then have "time_Unix 0 (unix_nano t) = (wrap64 (wrap64 ?s + unix_to_internal), snd t)"
    by (simp add: time_Unix_def u)
  with n(3) s show "time_Unix 0 (unix_nano t) = t" by (simp add: wrap64_id prod_eq_iff)
qed

lemma wrap64_mod: "wrap64 (x mod 2 ^ 64) = wrap64 x"
  unfolding wrap64_def by (simp add: mod_add_left_eq)

lemma stored_nano:
  "in_int64 n \<Longrightarrow> wrap64 (int (nat (n mod 2 ^ 64) mod 256 ^ 8)) = n"
proof -
  assume n: "in_int64 n"
  have lt: "nat (n mod 2 ^ 64) < 256 ^ 8" by (simp add: nat_less_iff)
  have "wrap64 (int (nat (n mod 2 ^ 64) mod 256 ^ 8)) = wrap64 (n mod 2 ^ 64)"
    using lt by simp
  also have "\<dots> = n" by (simp only: wrap64_mod wrap64_id [OF n])
  finally show ?thesis .
qed

lemma word64_stored: "word_of_nat (be_val (be_bytes 8 (unat w))) = (w :: 64 word)"
proof -
  have "unat w < 256 ^ 8" using unsigned_less [of w] by simp
  then show ?thesis by simp
qed

lemma deserialize_serializeToken:
  assumes "macaroon_lib mo" and "lntypes_lib lt" and "wf_Token mo t"
    and "serializeToken mo t = Inr b"
  shows "deserializeToken mo lt now b = Inr t"
proof -
  from assms(4) obtain mb where mb: "mac_MarshalBinary mo (baseMac t) = Inr mb"
    and b: "b = be_bytes 4 (length mb mod 2 ^ 32) @ mb @ tok_PaymentHash t @ Preimage t
            @ be_bytes 8 (unat (AmountPaid t)) @ be_bytes 8 (unat (RoutingFeePaid t))
            @ be_bytes 8 (nat (unix_nano (TimeCreated t) mod 2 ^ 64))"
    by (auto simp: serializeToken_def rbind_eq_Inr)
  from assms(3) mb have wf: "length (tok_PaymentHash t) = 32" "length (Preimage t) = 32"
    "storable_time (TimeCreated t)" "length mb < 2 ^ 32" by (simp_all add: wf_Token_def)
  have len: "be_val (be_bytes 4 (length mb)) = length mb" using wf(4) by simp
  have tok: "tokenFromChallenge mo lt now mb (tok_PaymentHash t) =
      Inr \<lparr>tok_PaymentHash = tok_PaymentHash t, Preimage = zeroPreimage, AmountPaid = 0,
           RoutingFeePaid = 0, TimeCreated = now, baseMac = baseMac t\<rparr>"
    using macaroon_lib_Marshal [OF assms(1) mb] lntypes_lib_simps(3) [OF assms(2) wf(1)]
    by (simp add: tokenFromChallenge_def)
  have tm: "time_Unix 0 (wrap64 (int (be_val (be_bytes 8 (nat (unix_nano (TimeCreated t) mod 2 ^ 64))))))
      = TimeCreated t"
    using stored_nano unix_nano_storable [OF wf(3)] by (simp del: of_nat_mod)
  show ?thesis
    unfolding deserializeToken_def b
    by (simp add: read_full_append read_full_exact len tok wf tm word64_stored
        del: be_val_be_bytes power_numeral numeral_power_eq_of_nat_cancel_iff)
qed

lemma PaidMacaroon_preimage:
  assumes "macaroon_lib mo" and "lntypes_lib lt" and "PaidMacaroon mo lt t = Inr m"
  shows "HasCaveat mo m PreimageKey = Some (hex_encode (Preimage t))"
proof -
  let ?c = "NewCaveat PreimageKey (lnt_PreimageString lt (Preimage t))"
  have "CHR ''='' \<notin> set (Condition ?c)" by (simp add: NewCaveat_def PreimageKey_def)
  from HasCaveat_added(1) [OF assms(1) assms(3) [unfolded PaidMacaroon_def] this]
  show ?thesis by (simp add: NewCaveat_def lntypes_lib_simps [OF assms(2)])
qed

lemma tokenFromChallenge_pending:
  "tokenFromChallenge mo lt now b h = Inr t \<Longrightarrow> isPending t"
  by (auto simp: tokenFromChallenge_def isPending_def rbind_eq_Inr split: sum.splits)

end
