(* ===== verification/Lsat_Store.thy ===== *)
theory Lsat_Store
  imports Lsat_Token
begin

text \<open>
  \<^verbatim>\<open>aperture/lsat/store.go\<close>: the file store of the client's token. The file system is a map
  from paths to contents; \<open>file_io\<close> says which calls of one operation fail and how, a failed
  write possibly leaving a prefix of the data. The operations return the new file system
  beside their result.

  The contract of the interface \<^verbatim>\<open>Store\<close> is the locale \<open>token_store\<close> over three abstract
  states (no token, a pending one, a paid one); the file store is an interpretation of it.
\<close>

type_synonym file_system = "string \<rightharpoonup> bytes"

record file_io =
  io_Stat :: "string \<Rightarrow> go_error option"
  io_ReadFile :: "string \<Rightarrow> go_error option"
  io_WriteFile :: "string \<Rightarrow> (nat option \<times> go_error) option"
  io_Remove :: "string \<Rightarrow> go_error option"
  io_ReadDir :: "string \<Rightarrow> string list result"
  io_MkdirAll :: "string \<Rightarrow> go_error option"

text \<open>\<open>io_Stat\<close> is an error other than "does not exist". A failing \<^verbatim>\<open>WriteFile\<close> either could not
  open the file (\<open>None\<close>) or truncated it and wrote a number of bytes.\<close>

definition ReadFile :: "file_io \<Rightarrow> file_system \<Rightarrow> string \<Rightarrow> bytes result" where
  "ReadFile io fs path =
     (case io_ReadFile io path of
        Some e \<Rightarrow> Inl e
      | None \<Rightarrow> (case fs path of None \<Rightarrow> Inl (External ''file does not exist'') | Some b \<Rightarrow> Inr b))"

definition WriteFile :: "file_io \<Rightarrow> file_system \<Rightarrow> string \<Rightarrow> bytes \<Rightarrow> file_system \<times> unit result" where
  "WriteFile io fs path b =
     (case io_WriteFile io path of
        None \<Rightarrow> (fs(path \<mapsto> b), Inr ())
      | Some (None, e) \<Rightarrow> (fs, Inl e)
      | Some (Some n, e) \<Rightarrow> (fs(path \<mapsto> take n b), Inl e))"

definition Remove :: "file_io \<Rightarrow> file_system \<Rightarrow> string \<Rightarrow> file_system \<times> unit result" where
  "Remove io fs path =
     (case io_Remove io path of
        Some e \<Rightarrow> (fs, Inl e)
      | None \<Rightarrow> if fs path = None then (fs, Inl (External ''file does not exist''))
                else (fs(path := None), Inr ()))"

definition storeFileName :: string where "storeFileName = ''lsat.token''"
definition storeFileNamePending :: string where "storeFileNamePending = ''lsat.token.pending''"

text \<open>\<^verbatim>\<open>filepath.Join\<close> for a directory that is already a clean path.\<close>

definition filepath_Join :: "string \<Rightarrow> string \<Rightarrow> string" where
  "filepath_Join dir name = dir @ ''/'' @ name"

record FileStore =
  storeDir :: string
  fileName :: string
  fileNamePending :: string

definition fileExists :: "file_io \<Rightarrow> file_system \<Rightarrow> string \<Rightarrow> bool" where
  "fileExists io fs path \<longleftrightarrow> fs path \<noteq> None \<or> io_Stat io path \<noteq> None"

text \<open>Whether the directory is there is an argument; \<^verbatim>\<open>storeDir\<close> is \<^verbatim>\<open>filepath.Dir(fileName)\<close>.\<close>

definition NewFileStore :: "file_io \<Rightarrow> bool \<Rightarrow> string \<Rightarrow> FileStore result" where
  "NewFileStore io dirExists dir =
     (let store = \<lparr>storeDir = dir, fileName = filepath_Join dir storeFileName,
                   fileNamePending = filepath_Join dir storeFileNamePending\<rparr>
      in if dirExists then Inr store
         else (case io_MkdirAll io dir of Some e \<Rightarrow> Inl e | None \<Rightarrow> Inr store))"

definition readTokenFile ::
    "'m macaroon_ops \<Rightarrow> lntypes_ops \<Rightarrow> time \<Rightarrow> file_io \<Rightarrow> file_system \<Rightarrow> string \<Rightarrow> 'm Token result" where
  "readTokenFile mo lt now io fs tokenFile =
     rbind (ReadFile io fs tokenFile) (\<lambda>b. deserializeToken mo lt now b)"

definition currentToken ::
    "'m macaroon_ops \<Rightarrow> lntypes_ops \<Rightarrow> time \<Rightarrow> file_io \<Rightarrow> FileStore \<Rightarrow> file_system \<Rightarrow> 'm Token result" where
  "currentToken mo lt now io f fs =
     (if fileExists io fs (fileName f) then readTokenFile mo lt now io fs (fileName f)
      else if fileExists io fs (fileNamePending f) then readTokenFile mo lt now io fs (fileNamePending f)
      else Inl (Sentinel ErrNoToken))"

definition AllTokens ::
    "'m macaroon_ops \<Rightarrow> lntypes_ops \<Rightarrow> time \<Rightarrow> file_io \<Rightarrow> FileStore \<Rightarrow> file_system
       \<Rightarrow> (string \<times> 'm Token) list result" where
  "AllTokens mo lt now io f fs =
     rbind (io_ReadDir io (storeDir f)) (\<lambda>files.
       rmap (\<lambda>name. let path = filepath_Join (storeDir f) name
                    in rbind (readTokenFile mo lt now io fs path) (\<lambda>t. Inr (path, t)))
         (filter (\<lambda>name. has_prefix name storeFileName) files))"

definition StoreToken ::
    "'m macaroon_ops \<Rightarrow> lntypes_ops \<Rightarrow> time \<Rightarrow> file_io \<Rightarrow> FileStore \<Rightarrow> file_system \<Rightarrow> 'm Token
       \<Rightarrow> file_system \<times> unit result" where
  "StoreToken mo lt now io f fs newToken =
     (case serializeToken mo newToken of
        Inl e \<Rightarrow> (fs, Inl e)
      | Inr b \<Rightarrow>
          (case currentToken mo lt now io f fs of
             Inl e \<Rightarrow>
               if e = Sentinel ErrNoToken
               then WriteFile io fs (if isPending newToken then fileNamePending f else fileName f) b
               else (fs, Inl e)
           | Inr current \<Rightarrow>
               if isPending current \<and> \<not> isPending newToken then
                 if tok_PaymentHash current \<noteq> tok_PaymentHash newToken
                 then (fs, Inl (Errorf ''new paid token doesn't match existing pending token''))
                 else (case WriteFile io fs (fileName f) b of
                         (fs', Inl e) \<Rightarrow> (fs', Inl e)
                       | (fs', Inr _) \<Rightarrow> (fst (Remove io fs' (fileNamePending f)), Inr ()))
               else (fs, Inl (Sentinel ErrNoReplace))))"

definition RemovePendingToken ::
    "file_io \<Rightarrow> FileStore \<Rightarrow> file_system \<Rightarrow> file_system \<times> unit result" where
  "RemovePendingToken io f fs =
     (if \<not> fileExists io fs (fileNamePending f) then (fs, Inl (Sentinel ErrNoToken))
      else Remove io fs (fileNamePending f))"

subsection \<open>The contract of a token store\<close>

datatype 'm store_state = NoToken | Pending "'m Token" | Paid "'m Token"

fun spec_current :: "'m store_state \<Rightarrow> 'm Token result" where
  "spec_current NoToken = Inl (Sentinel ErrNoToken)"
| "spec_current (Pending t) = Inr t"
| "spec_current (Paid t) = Inr t"

fun spec_store :: "'m store_state \<Rightarrow> 'm Token \<Rightarrow> 'm store_state \<times> unit result" where
  "spec_store NoToken t = (if isPending t then Pending t else Paid t, Inr ())"
| "spec_store (Pending p) t =
     (if isPending t then (Pending p, Inl (Sentinel ErrNoReplace))
      else if tok_PaymentHash p \<noteq> tok_PaymentHash t
      then (Pending p, Inl (Errorf ''new paid token doesn't match existing pending token''))
      else (Paid t, Inr ()))"
| "spec_store (Paid p) t = (Paid p, Inl (Sentinel ErrNoReplace))"

fun spec_remove :: "'m store_state \<Rightarrow> 'm store_state" where
  "spec_remove (Pending p) = NoToken"
| "spec_remove s = s"

text \<open>The three methods of the interface \<^verbatim>\<open>Store\<close> that the client calls.\<close>

record ('s, 'm) store_ops =
  st_CurrentToken :: "'s \<Rightarrow> 'm Token result"
  st_StoreToken :: "'s \<Rightarrow> 'm Token \<Rightarrow> 's \<times> unit result"
  st_RemovePendingToken :: "'s \<Rightarrow> 's \<times> unit result"

locale token_store =
  fixes st :: "('s, 'm) store_ops"
    and rep :: "'s \<Rightarrow> 'm store_state \<Rightarrow> bool"
    and storable :: "'m Token \<Rightarrow> bool"
  assumes current_spec: "rep s a \<Longrightarrow> st_CurrentToken st s = spec_current a"
    and store_spec: "rep s a \<Longrightarrow> storable t \<Longrightarrow>
      rep (fst (st_StoreToken st s t)) (fst (spec_store a t)) \<and>
      snd (st_StoreToken st s t) = snd (spec_store a t)"
    and remove_spec: "rep s a \<Longrightarrow> rep (fst (st_RemovePendingToken st s)) (spec_remove a)"
    and remove_pending: "rep s (Pending p) \<Longrightarrow> snd (st_RemovePendingToken st s) = Inr ()"
    and rep_pending: "rep s (Pending p) \<Longrightarrow> storable p \<and> isPending p"
    and rep_paid: "rep s (Paid p) \<Longrightarrow> \<not> isPending p"
begin

lemma paid_kept:
  "rep s (Paid p) \<Longrightarrow> storable t \<Longrightarrow> rep (fst (st_StoreToken st s t)) (Paid p)"
  using store_spec [of s "Paid p" t] by simp

lemma store_then_current:
  assumes "rep s a" and "storable t" and "st_StoreToken st s t = (s', Inr ())"
  shows "st_CurrentToken st s' = Inr t \<and> rep s' (if isPending t then Pending t else Paid t)"
proof -
  from store_spec [OF assms(1,2)] assms(3)
  have r: "rep s' (fst (spec_store a t))" and ok: "snd (spec_store a t) = Inr ()" by auto
  from ok have "fst (spec_store a t) = (if isPending t then Pending t else Paid t)"
    by (cases a) (auto split: if_splits)
  with r current_spec [OF r] show ?thesis by (auto split: if_splits)
qed

text \<open>Storing the paid form of a pending token always succeeds.\<close>

lemma pay_pending:
  assumes "rep s (Pending p)" and "storable t" and "\<not> isPending t" and "tok_PaymentHash t = tok_PaymentHash p"
  shows "snd (st_StoreToken st s t) = Inr () \<and> rep (fst (st_StoreToken st s t)) (Paid t)"
  using store_spec [OF assms(1,2)] assms(3,4) by simp

lemma remove_then_none:
  "rep s (Pending p) \<Longrightarrow> st_RemovePendingToken st s = (s', r) \<Longrightarrow> r = Inr () \<and> rep s' NoToken"
  using remove_spec [of s "Pending p"] remove_pending [of s p] by auto

end

subsection \<open>The file store implements the contract\<close>

definition healthy_io :: "file_io \<Rightarrow> bool" where
  "healthy_io io \<longleftrightarrow> (\<forall>p. io_Stat io p = None) \<and> (\<forall>p. io_ReadFile io p = None) \<and>
     (\<forall>p. io_WriteFile io p = None) \<and> (\<forall>p. io_Remove io p = None)"

definition storable_token :: "'m macaroon_ops \<Rightarrow> 'm Token \<Rightarrow> bool" where
  "storable_token mo t \<longleftrightarrow> wf_Token mo t \<and> is_ok (mac_MarshalBinary mo (baseMac t))"

definition holds_token :: "'m macaroon_ops \<Rightarrow> file_system \<Rightarrow> string \<Rightarrow> 'm Token \<Rightarrow> bool" where
  "holds_token mo fs path t \<longleftrightarrow>
     (case fs path of None \<Rightarrow> False | Some b \<Rightarrow> serializeToken mo t = Inr b) \<and> storable_token mo t"

lemma holds_token_iff:
  "holds_token mo fs path t \<longleftrightarrow>
     (\<exists>b. fs path = Some b \<and> serializeToken mo t = Inr b) \<and> storable_token mo t"
  by (auto simp: holds_token_def split: option.splits)

fun represents :: "'m macaroon_ops \<Rightarrow> FileStore \<Rightarrow> file_system \<Rightarrow> 'm store_state \<Rightarrow> bool" where
  "represents mo f fs NoToken \<longleftrightarrow> fs (fileName f) = None \<and> fs (fileNamePending f) = None"
| "represents mo f fs (Pending t) \<longleftrightarrow>
     fs (fileName f) = None \<and> holds_token mo fs (fileNamePending f) t \<and> isPending t"
| "represents mo f fs (Paid t) \<longleftrightarrow> holds_token mo fs (fileName f) t \<and> \<not> isPending t"

definition file_store_ops ::
    "'m macaroon_ops \<Rightarrow> lntypes_ops \<Rightarrow> time \<Rightarrow> file_io \<Rightarrow> FileStore \<Rightarrow> (file_system, 'm) store_ops" where
  "file_store_ops mo lt now io f = \<lparr>
     st_CurrentToken = currentToken mo lt now io f,
     st_StoreToken = StoreToken mo lt now io f,
     st_RemovePendingToken = RemovePendingToken io f \<rparr>"

lemma serialize_storable:
  "storable_token mo t \<Longrightarrow> \<exists>b. serializeToken mo t = Inr b"
  by (auto simp: storable_token_def serializeToken_def is_ok_iff)

lemma readTokenFile_holds:
  assumes "macaroon_lib mo" and "lntypes_lib lt" and "io_ReadFile io path = None"
    and "holds_token mo fs path t"
  shows "readTokenFile mo lt now io fs path = Inr t"
proof -
  from assms(4) obtain b where b: "serializeToken mo t = Inr b" "fs path = Some b"
    and wf: "wf_Token mo t"
    by (auto simp: holds_token_iff storable_token_def)
  then show ?thesis
    using deserialize_serializeToken [OF assms(1,2) wf b(1)]
    by (simp add: readTokenFile_def ReadFile_def assms(3))
qed

lemma holds_token_exists: "holds_token mo fs path t \<Longrightarrow> fs path \<noteq> None"
  by (auto simp: holds_token_iff)

lemma currentToken_represents:
  assumes "macaroon_lib mo" and "lntypes_lib lt" and "healthy_io io" and "represents mo f fs a"
  shows "currentToken mo lt now io f fs = spec_current a"
proof -
  from assms(3) have io: "io_Stat io p = None" "io_ReadFile io p = None" for p
    by (simp_all add: healthy_io_def)
  show ?thesis
  proof (cases a)
    case NoToken
    with assms(4) show ?thesis by (simp add: currentToken_def fileExists_def io)
  next
    case (Pending t)
    with assms(4) have h: "holds_token mo fs (fileNamePending f) t" and n: "fs (fileName f) = None" by auto
    from readTokenFile_holds [OF assms(1,2) io(2) h, of now] holds_token_exists [OF h] n Pending
    show ?thesis by (simp add: currentToken_def fileExists_def io)
  next
    case (Paid t)
    with assms(4) have h: "holds_token mo fs (fileName f) t" by auto
    from readTokenFile_holds [OF assms(1,2) io(2) h, of now] holds_token_exists [OF h] Paid
    show ?thesis by (simp add: currentToken_def fileExists_def io)
  qed
qed

lemma holds_token_written:
  "storable_token mo t \<Longrightarrow> serializeToken mo t = Inr b \<Longrightarrow> holds_token mo (fs(p \<mapsto> b)) p t"
  by (simp add: holds_token_iff)

lemma StoreToken_represents:
  assumes "macaroon_lib mo" and "lntypes_lib lt" and "healthy_io io"
    and ne: "fileName f \<noteq> fileNamePending f"
    and "represents mo f fs a" and "storable_token mo t"
  shows "represents mo f (fst (StoreToken mo lt now io f fs t)) (fst (spec_store a t)) \<and>
         snd (StoreToken mo lt now io f fs t) = snd (spec_store a t)"
proof -
  obtain b where b: "serializeToken mo t = Inr b" using serialize_storable [OF assms(6)] by blast
  have cur: "currentToken mo lt now io f fs = spec_current a"
    by (rule currentToken_represents [OF assms(1-3,5)])
  have wr: "holds_token mo (fs(p \<mapsto> b)) p t" for p fs
    by (rule holds_token_written [OF assms(6) b])
  have io: "io_WriteFile io p = None" "io_Remove io p = None" for p
    using assms(3) by (simp_all add: healthy_io_def)
  have rm: "holds_token mo (fst (Remove io (fs'(fileName f \<mapsto> b)) (fileNamePending f))) (fileName f) t" for fs'
    using wr [of fs' "fileName f"] ne by (auto simp: Remove_def io holds_token_iff)
  show ?thesis
    using assms(5) ne rm by (cases a) (auto simp: StoreToken_def b cur WriteFile_def io wr)
qed

lemma RemovePendingToken_represents:
  assumes "healthy_io io" and ne: "fileName f \<noteq> fileNamePending f" and "represents mo f fs a"
  shows "represents mo f (fst (RemovePendingToken io f fs)) (spec_remove a)"
    and "a = Pending p \<Longrightarrow> snd (RemovePendingToken io f fs) = Inr ()"
proof -
  have io: "io_Stat io p = None" "io_Remove io p = None" for p
    using assms(1) by (simp_all add: healthy_io_def)
  show "represents mo f (fst (RemovePendingToken io f fs)) (spec_remove a)"
    using assms(3) ne
    by (cases a) (auto simp: RemovePendingToken_def Remove_def fileExists_def io holds_token_iff)
  show "a = Pending p \<Longrightarrow> snd (RemovePendingToken io f fs) = Inr ()"
    using assms(3)
    by (auto simp: RemovePendingToken_def Remove_def fileExists_def io holds_token_iff)
qed

text \<open>The representation relation carries what the file store relies on: a working file system, the
  libraries, and two different file names.\<close>

definition file_rep ::
    "'m macaroon_ops \<Rightarrow> lntypes_ops \<Rightarrow> file_io \<Rightarrow> FileStore \<Rightarrow> file_system \<Rightarrow> 'm store_state \<Rightarrow> bool" where
  "file_rep mo lt io f fs a \<longleftrightarrow> macaroon_lib mo \<and> lntypes_lib lt \<and> healthy_io io \<and>
     fileName f \<noteq> fileNamePending f \<and> represents mo f fs a"

interpretation file_store: token_store "file_store_ops mo lt now io f" "file_rep mo lt io f" "storable_token mo"
proof
  fix s a assume r: "file_rep mo lt io f s a"
  then show "st_CurrentToken (file_store_ops mo lt now io f) s = spec_current a"
    using currentToken_represents [of mo lt io f s a now] by (simp add: file_rep_def file_store_ops_def)
  fix t assume "storable_token mo t"
  with r show "file_rep mo lt io f (fst (st_StoreToken (file_store_ops mo lt now io f) s t)) (fst (spec_store a t)) \<and>
      snd (st_StoreToken (file_store_ops mo lt now io f) s t) = snd (spec_store a t)"
    using StoreToken_represents [of mo lt io f s a t now] by (simp add: file_rep_def file_store_ops_def)
next
  fix s a assume "file_rep mo lt io f s a"
  then show "file_rep mo lt io f (fst (st_RemovePendingToken (file_store_ops mo lt now io f) s)) (spec_remove a)"
    using RemovePendingToken_represents(1) [of io f mo s a] by (simp add: file_rep_def file_store_ops_def)
next
  fix s p assume "file_rep mo lt io f s (Pending p)"
  then show "snd (st_RemovePendingToken (file_store_ops mo lt now io f) s) = Inr ()"
    using RemovePendingToken_represents(2) [of io f mo s "Pending p" p]
    by (simp add: file_rep_def file_store_ops_def)
qed (auto simp: file_rep_def holds_token_def)

lemma NewFileStore_names:
  "NewFileStore io ex dir = Inr f \<Longrightarrow> fileName f \<noteq> fileNamePending f"
  by (auto simp: NewFileStore_def Let_def filepath_Join_def storeFileName_def storeFileNamePending_def
      split: if_splits option.splits)

subsection \<open>Faults\<close>

text \<open>A call of the store with the faults it meets, and a history of such calls.\<close>

datatype 'm store_call = CallStore time file_io "'m Token" | CallRemove file_io

fun run_call ::
    "'m macaroon_ops \<Rightarrow> lntypes_ops \<Rightarrow> FileStore \<Rightarrow> file_system \<Rightarrow> 'm store_call \<Rightarrow> file_system" where
  "run_call mo lt f fs (CallStore now io t) = fst (StoreToken mo lt now io f fs t)"
| "run_call mo lt f fs (CallRemove io) = fst (RemovePendingToken io f fs)"

lemma currentToken_paid:
  assumes "macaroon_lib mo" and "lntypes_lib lt" and "represents mo f fs (Paid t)"
  shows "currentToken mo lt now io f fs = (case io_ReadFile io (fileName f) of None \<Rightarrow> Inr t | Some e \<Rightarrow> Inl e)"
proof -
  from assms(3) have h: "holds_token mo fs (fileName f) t" by simp
  have "readTokenFile mo lt now io fs (fileName f) =
      (case io_ReadFile io (fileName f) of None \<Rightarrow> Inr t | Some e \<Rightarrow> Inl e)"
    using readTokenFile_holds [OF assms(1,2) _ h, of io now]
    by (cases "io_ReadFile io (fileName f)") (simp_all add: readTokenFile_def ReadFile_def)
  with holds_token_exists [OF h] show ?thesis by (simp add: currentToken_def fileExists_def)
qed

text \<open>The faults of the operating system are never the sentinel of this package.\<close>

definition os_errors :: "file_io \<Rightarrow> bool" where
  "os_errors io \<longleftrightarrow> (\<forall>p. io_ReadFile io p \<noteq> Some (Sentinel ErrNoToken))"

fun call_io :: "'m store_call \<Rightarrow> file_io" where
  "call_io (CallStore now io t) = io"
| "call_io (CallRemove io) = io"

lemma StoreToken_paid:
  assumes "macaroon_lib mo" and "lntypes_lib lt" and "represents mo f fs (Paid t)" and "os_errors io"
  shows "fst (StoreToken mo lt now io f fs t') = fs \<and> \<not> is_ok (snd (StoreToken mo lt now io f fs t'))"
proof -
  have "\<not> isPending t" using assms(3) by simp
  with currentToken_paid [OF assms(1-3), of now io] assms(4) show ?thesis
    by (auto simp: StoreToken_def os_errors_def split: sum.splits option.splits)
qed

lemma run_call_paid:
  assumes "macaroon_lib mo" and "lntypes_lib lt" and "fileName f \<noteq> fileNamePending f"
    and "represents mo f fs (Paid t)" and "os_errors (call_io c)"
  shows "represents mo f (run_call mo lt f fs c) (Paid t)"
proof (cases c)
  case (CallStore now io t')
  with assms StoreToken_paid [OF assms(1,2,4), of io now t'] show ?thesis by simp
next
  case (CallRemove io)
  with assms(3,4) show ?thesis
    by (auto simp: RemovePendingToken_def Remove_def holds_token_iff split: option.splits)
qed

text \<open>
  C9: whatever calls follow and whatever faults they meet (reads, writes and removals that
  fail, writes that stop halfway), a paid token in the store stays the paid token of the store.
\<close>

theorem paid_token_survives:
  assumes "macaroon_lib mo" and "lntypes_lib lt" and "fileName f \<noteq> fileNamePending f"
    and "represents mo f fs (Paid t)" and "\<forall>c \<in> set calls. os_errors (call_io c)"
  shows "represents mo f (foldl (run_call mo lt f) fs calls) (Paid t)"
  using assms(4,5)
proof (induction calls arbitrary: fs)
  case (Cons c cs)
  then show ?case using run_call_paid [OF assms(1-3)] by simp
qed simp

definition sample_io :: file_io where
  "sample_io = \<lparr>io_Stat = (\<lambda>p. None), io_ReadFile = (\<lambda>p. None), io_WriteFile = (\<lambda>p. None),
     io_Remove = (\<lambda>p. None), io_ReadDir = (\<lambda>d. Inr []), io_MkdirAll = (\<lambda>d. None)\<rparr>"

definition sample_FileStore :: FileStore where
  "sample_FileStore = \<lparr>storeDir = ''/d'', fileName = ''/d/lsat.token'', fileNamePending = ''/d/lsat.token.pending''\<rparr>"

definition sample_Token :: "char \<Rightarrow> bytes list Token" where
  "sample_Token c = \<lparr>tok_PaymentHash = replicate 32 (CHR ''h''), Preimage = replicate 32 c, AmountPaid = 5,
     RoutingFeePaid = 1, TimeCreated = (unix_to_internal, 7), baseMac = [''k'', ''i'']\<rparr>"

definition sample_lt :: lntypes_ops where
  "sample_lt = sample_lntypes_ops (\<lambda>p. p)"

lemma sample_lt_lib: "lntypes_lib sample_lt"
  by (simp add: sample_lt_def sample_lntypes_lib)

lemma sample_Token_storable: "storable_token sample_macaroon_ops (sample_Token c)"
  by (auto simp: storable_token_def wf_Token_def sample_Token_def storable_time_def in_int64_def
      unix_to_internal_def sample_macaroon_ops_def is_ok_iff)

lemma sample_Token_isPending: "isPending (sample_Token c) \<longleftrightarrow> c = NUL"
  by (simp add: isPending_def sample_Token_def zeroPreimage_def replicate_eq_replicate)

definition sample_paid_fs :: file_system where
  "sample_paid_fs = fst (StoreToken sample_macaroon_ops sample_lt (0, 0) sample_io sample_FileStore
      Map.empty (sample_Token (CHR ''p'')))"

lemma sample_io_ok: "healthy_io sample_io" "os_errors sample_io"
  by (simp_all add: healthy_io_def os_errors_def sample_io_def)

lemma sample_names: "fileName sample_FileStore \<noteq> fileNamePending sample_FileStore"
  by (simp add: sample_FileStore_def)

lemma sample_paid_fs: "represents sample_macaroon_ops sample_FileStore sample_paid_fs (Paid (sample_Token (CHR ''p'')))"
  using StoreToken_represents [OF sample_macaroon_lib sample_lt_lib sample_io_ok(1) sample_names,
      of Map.empty NoToken "sample_Token (CHR ''p'')" "(0, 0)"] sample_Token_storable
  by (simp add: sample_paid_fs_def sample_Token_isPending)

theorem paid_token_survives_witness:
  "represents sample_macaroon_ops sample_FileStore
     (foldl (run_call sample_macaroon_ops sample_lt sample_FileStore) sample_paid_fs
        [CallStore (0, 0) sample_io (sample_Token NUL), CallRemove sample_io])
     (Paid (sample_Token (CHR ''p'')))"
  by (rule paid_token_survives [OF sample_macaroon_lib sample_lt_lib sample_names sample_paid_fs])
    (simp add: sample_io_ok)

text \<open>
  C18: a file store over a working file system behaves as the three-state machine of the
  contract, on every branch of \<^verbatim>\<open>CurrentToken\<close>, \<^verbatim>\<open>StoreToken\<close> and \<^verbatim>\<open>RemovePendingToken\<close>: it
  refuses to replace a paid token, pays a pending token only with the same payment hash, and
  reads back exactly what was stored. Removing reports a missing pending token, unless a paid one
  stands beside a pending file that was left over.
\<close>

theorem file_store_refines:
  assumes "macaroon_lib mo" and "lntypes_lib lt" and "healthy_io io" and "NewFileStore io ex dir = Inr f"
    and "represents mo f fs a" and "storable_token mo t"
  shows "currentToken mo lt now io f fs = spec_current a \<and>
     represents mo f (fst (StoreToken mo lt now io f fs t)) (fst (spec_store a t)) \<and>
     snd (StoreToken mo lt now io f fs t) = snd (spec_store a t) \<and>
     represents mo f (fst (RemovePendingToken io f fs)) (spec_remove a) \<and>
     snd (RemovePendingToken io f fs) \<in>
       (case a of NoToken \<Rightarrow> {Inl (Sentinel ErrNoToken)} | Pending p \<Rightarrow> {Inr ()} | Paid p \<Rightarrow> {Inr (), Inl (Sentinel ErrNoToken)})"
proof -
  have r: "file_rep mo lt io f fs a" using assms NewFileStore_names by (simp add: file_rep_def)
  have "io_Stat io p = None" "io_Remove io p = None" for p using assms(3) by (simp_all add: healthy_io_def)
  then have rm: "snd (RemovePendingToken io f fs) \<in>
       (case a of NoToken \<Rightarrow> {Inl (Sentinel ErrNoToken)} | Pending p \<Rightarrow> {Inr ()} | Paid p \<Rightarrow> {Inr (), Inl (Sentinel ErrNoToken)})"
    using assms(5) by (cases a) (auto simp: RemovePendingToken_def Remove_def fileExists_def holds_token_iff)
  from file_store.current_spec [OF r] file_store.store_spec [OF r assms(6), of now]
    file_store.remove_spec [OF r]
  show ?thesis using rm by (simp add: file_store_ops_def file_rep_def)
qed

lemma sample_NewFileStore: "NewFileStore sample_io True ''/d'' = Inr sample_FileStore"
  by (simp add: NewFileStore_def sample_FileStore_def filepath_Join_def storeFileName_def storeFileNamePending_def)

theorem file_store_refines_witness:
  "currentToken sample_macaroon_ops sample_lt (0, 0) sample_io sample_FileStore sample_paid_fs
     = Inr (sample_Token (CHR ''p''))"
  using file_store_refines [OF sample_macaroon_lib sample_lt_lib sample_io_ok(1) sample_NewFileStore
      sample_paid_fs sample_Token_storable, of "(0, 0)"] by simp

text \<open>
  The comment in \<^verbatim>\<open>StoreToken\<close> says that the pending token is still around when writing
  the paid one goes wrong. Its file is, but a write that fails after creating the file leaves
  a paid file that cannot be read, and the store then answers every later request with that
  error instead of the pending token.
\<close>

lemma failed_write_hides_pending:
  assumes "macaroon_lib mo" and "lntypes_lib lt" and "fileName f \<noteq> fileNamePending f"
    and "represents mo f fs (Pending p)" and "storable_token mo t" and "\<not> isPending t"
    and "tok_PaymentHash p = tok_PaymentHash t"
    and "io_Stat io (fileName f) = None" and "io_ReadFile io (fileNamePending f) = None"
    and "io_WriteFile io (fileName f) = Some (Some 0, e)" and "healthy_io io'"
  shows "let fs' = fst (StoreToken mo lt now io f fs t) in
     holds_token mo fs' (fileNamePending f) p \<and>
     currentToken mo lt now io' f fs' = Inl (Sentinel IoEOF)"
proof -
  from assms(4) have h: "holds_token mo fs (fileNamePending f) p" and n: "fs (fileName f) = None"
    and pp: "isPending p" by simp_all
  have cur: "currentToken mo lt now io f fs = Inr p"
    using readTokenFile_holds [OF assms(1,2,9) h, of now] holds_token_exists [OF h] n assms(8)
    by (simp add: currentToken_def fileExists_def)
  obtain b where b: "serializeToken mo t = Inr b" using serialize_storable [OF assms(5)] by blast
  have fs': "StoreToken mo lt now io f fs t = (fs(fileName f \<mapsto> []), Inl e)"
    using assms(6,7,10) pp by (simp add: StoreToken_def b cur WriteFile_def)
  have "currentToken mo lt now io' f (fs(fileName f \<mapsto> [])) = Inl (Sentinel IoEOF)"
    using assms(11) by (simp add: currentToken_def fileExists_def readTokenFile_def ReadFile_def
        healthy_io_def deserializeToken_def read_full_def)
  with fs' h assms(3) show ?thesis by (simp add: holds_token_iff)
qed

definition sample_pending_fs :: file_system where
  "sample_pending_fs = fst (StoreToken sample_macaroon_ops sample_lt (0, 0) sample_io sample_FileStore
      Map.empty (sample_Token NUL))"

lemma sample_pending_fs: "represents sample_macaroon_ops sample_FileStore sample_pending_fs (Pending (sample_Token NUL))"
  using StoreToken_represents [OF sample_macaroon_lib sample_lt_lib sample_io_ok(1) sample_names,
      of Map.empty NoToken "sample_Token NUL" "(0, 0)"] sample_Token_storable
  by (simp add: sample_pending_fs_def sample_Token_isPending)

lemma failed_write_hides_pending_example:
  "currentToken sample_macaroon_ops sample_lt (0, 0) sample_io sample_FileStore
     (fst (StoreToken sample_macaroon_ops sample_lt (0, 0)
        (sample_io\<lparr>io_WriteFile := (\<lambda>p. Some (Some 0, External ''no space left''))\<rparr>) sample_FileStore
        sample_pending_fs (sample_Token (CHR ''p'')))) = Inl (Sentinel IoEOF)"
  using failed_write_hides_pending [OF sample_macaroon_lib sample_lt_lib sample_names sample_pending_fs
      sample_Token_storable [of "CHR ''p''"], where
      io = "sample_io\<lparr>io_WriteFile := (\<lambda>p. Some (Some 0, External ''no space left''))\<rparr>"
      and e = "External ''no space left''" and io' = sample_io and now = "(0, 0)"]
  by (simp add: sample_Token_isPending sample_io_ok Let_def) (simp add: sample_Token_def sample_io_def Let_def)

end
