(* ===== verification/Client_Interceptor.thy ===== *)
theory Client_Interceptor
  imports Lsat_Store
begin

text \<open>
  \<^verbatim>\<open>aperture/lsat/client_interceptor.go\<close> and \<^verbatim>\<open>credential.go\<close>: the gRPC client interceptor that
  attaches the stored token to a call, recognises a payment challenge, pays for a token or
  resumes an interrupted payment, and repeats the call.

  What the interceptor only calls is a parameter: the token store (the record of the interface
  \<^verbatim>\<open>Store\<close>), and in \<open>client_env\<close> the invoice decoder, lnd's payment calls, the gRPC status
  library and the two attempts at the intercepted call. The state is the store and the trace of
  the external calls made so far, newest first, which is what the safety properties are about.
  The interceptor holds one lock for the whole call, so a history is a sequence of calls.
\<close>

subsection \<open>Credentials\<close>

record 'm MacaroonCredential =
  mc_Macaroon :: 'm
  AllowInsecure :: bool

definition NewMacaroonCredential :: "'m \<Rightarrow> bool \<Rightarrow> 'm MacaroonCredential" where
  "NewMacaroonCredential m allowInsecure = \<lparr>mc_Macaroon = m, AllowInsecure = allowInsecure\<rparr>"

definition RequireTransportSecurity :: "'m MacaroonCredential \<Rightarrow> bool" where
  "RequireTransportSecurity m = (\<not> AllowInsecure m)"

definition GetRequestMetadata :: "'m macaroon_ops \<Rightarrow> 'm MacaroonCredential \<Rightarrow> (string \<rightharpoonup> string) result" where
  "GetRequestMetadata mo m =
     rbind (mac_MarshalBinary mo (mc_Macaroon m)) (\<lambda>macBytes. Inr [''macaroon'' \<mapsto> hex_encode macBytes])"

subsection \<open>The environment\<close>

definition GRPCErrCode :: nat where "GRPCErrCode = 13"
definition GRPCErrCodeNew :: nat where "GRPCErrCodeNew = 2"
definition GRPCErrMessage :: string where "GRPCErrMessage = ''payment required''"

record Invoice =
  inv_MilliSat :: "64 word option"
  inv_PaymentHash :: bytes

datatype Payment_State = Payment_UNKNOWN | Payment_IN_FLIGHT | Payment_SUCCEEDED | Payment_FAILED

record PaymentStatus =
  ps_State :: Payment_State
  ps_Preimage :: bytes
  ps_Value :: "64 word"
  ps_Fee :: "64 word"

text \<open>What arrives first on the channels of the two waiting loops. A tracking loop that receives
  nothing more runs into its timeout, so the end of the list is the timeout.\<close>

datatype pay_outcome = PayErr go_error | PayDone bytes int int | PayTimeout | PayParentDone

datatype track_event = TrackStatus PaymentStatus | TrackErr go_error | TrackTimeout

datatype 'm call_opt = PerRPCCredentials "'m MacaroonCredential" | Trailer | OtherOpt string

record 'm client_env =
  ce_Decode :: "string \<Rightarrow> Invoice result"
  ce_MSat :: "int \<Rightarrow> 64 word"
  ce_FromError :: "go_error \<Rightarrow> (nat \<times> string) option"
  ce_PayInvoice :: "string \<Rightarrow> int \<Rightarrow> pay_outcome"
  ce_TrackPayment :: "bytes \<Rightarrow> track_event list result"
  ce_Invoke :: "nat \<Rightarrow> 'm call_opt list \<Rightarrow> go_error option \<times> string list"
  ce_Now :: time

record ClientInterceptor =
  ci_maxCost :: int
  ci_maxFee :: int
  ci_allowInsecure :: bool

datatype 'm client_event =
    EvStore "'m Token" "unit result"
  | EvRemove "unit result"
  | EvPay string int
  | EvTrack bytes
  | EvInvoke "'m call_opt list"

record ('s, 'm) client_state =
  cs_store :: 's
  cs_trace :: "'m client_event list"

record 'm interceptContext =
  ic_opts :: "'m call_opt list"
  ic_metadata :: "string list"
  ic_token :: "'m Token option"

definition do_store ::
    "('s, 'm) store_ops \<Rightarrow> ('s, 'm) client_state \<Rightarrow> 'm Token \<Rightarrow> ('s, 'm) client_state \<times> unit result" where
  "do_store st cs t =
     (let (s, r) = st_StoreToken st (cs_store cs) t
      in (cs\<lparr>cs_store := s, cs_trace := EvStore t r # cs_trace cs\<rparr>, r))"

definition do_remove :: "('s, 'm) store_ops \<Rightarrow> ('s, 'm) client_state \<Rightarrow> ('s, 'm) client_state \<times> unit result" where
  "do_remove st cs =
     (let (s, r) = st_RemovePendingToken st (cs_store cs)
      in (cs\<lparr>cs_store := s, cs_trace := EvRemove r # cs_trace cs\<rparr>, r))"

definition emit :: "'m client_event \<Rightarrow> ('s, 'm) client_state \<Rightarrow> ('s, 'm) client_state" where
  "emit e cs = cs\<lparr>cs_trace := e # cs_trace cs\<rparr>"

subsection \<open>The challenge header\<close>

text \<open>
  \<^verbatim>\<open>L402 macaroon="(.*?)", invoice="(.*?)"\<close>: \<open>lazyGroups\<close> lists the candidates of a lazy group
  that is followed by a literal, shortest first; the search takes the leftmost start.
\<close>

fun lazyGroups :: "string \<Rightarrow> string \<Rightarrow> (string \<times> string) list" where
  "lazyGroups lit [] = (if lit = [] then [([], [])] else [])"
| "lazyGroups lit (c # cs) =
     (if has_prefix (c # cs) lit then [([], drop (length lit) (c # cs))] else []) @
     (if c = CHR 0x0A then [] else map (\<lambda>(g, r). (c # g, r)) (lazyGroups lit cs))"

definition challengeStart :: string where
  "challengeStart = ''L402 macaroon='' @ [CHR 0x22]"

definition challengeMiddle :: string where
  "challengeMiddle = [CHR 0x22] @ '', invoice='' @ [CHR 0x22]"

definition authHeaderAt :: "string \<Rightarrow> (string \<times> string) option" where
  "authHeaderAt s =
     (if has_prefix s challengeStart then
        (case [(g1, g2). (g1, r1) \<leftarrow> lazyGroups challengeMiddle (drop (length challengeStart) s),
                         (g2, r2) \<leftarrow> lazyGroups [CHR 0x22] r1] of
           [] \<Rightarrow> None | m # ms \<Rightarrow> Some m)
      else None)"

fun authHeaderRegex :: "string \<Rightarrow> (string \<times> string) option" where
  "authHeaderRegex [] = None"
| "authHeaderRegex (c # cs) =
     (case authHeaderAt (c # cs) of Some m \<Rightarrow> Some m | None \<Rightarrow> authHeaderRegex cs)"

subsection \<open>The interceptor\<close>

definition IsPaymentRequired :: "'m client_env \<Rightarrow> go_error option \<Rightarrow> bool" where
  "IsPaymentRequired env err =
     (case err of
        None \<Rightarrow> False
      | Some e \<Rightarrow>
          (case ce_FromError env e of
             None \<Rightarrow> False
           | Some (code, msg) \<Rightarrow>
               contains (to_lower msg) GRPCErrMessage \<and> (code = GRPCErrCode \<or> code = GRPCErrCodeNew)))"

definition extractPaymentDetails :: "'m Token \<Rightarrow> PaymentStatus \<Rightarrow> 'm Token" where
  "extractPaymentDetails token status =
     token\<lparr>Preimage := ps_Preimage status, AmountPaid := ps_Value status, RoutingFeePaid := ps_Fee status\<rparr>"

definition addLsatCredentials ::
    "'m macaroon_ops \<Rightarrow> lntypes_ops \<Rightarrow> ClientInterceptor \<Rightarrow> 'm interceptContext \<Rightarrow> 'm interceptContext result" where
  "addLsatCredentials mo lt i iCtx =
     (case ic_token iCtx of
        None \<Rightarrow> Inl (Errorf ''cannot add nil token to context'')
      | Some token \<Rightarrow> rbind (PaidMacaroon mo lt token) (\<lambda>mac.
          Inr (iCtx\<lparr>ic_opts := ic_opts iCtx @
                 [PerRPCCredentials (NewMacaroonCredential mac (ci_allowInsecure i))]\<rparr>)))"

definition newInterceptContext ::
    "'m macaroon_ops \<Rightarrow> lntypes_ops \<Rightarrow> ('s, 'm) store_ops \<Rightarrow> ClientInterceptor \<Rightarrow> ('s, 'm) client_state
       \<Rightarrow> 'm call_opt list \<Rightarrow> 'm interceptContext result" where
  "newInterceptContext mo lt st i cs opts =
     rbind
       (case st_CurrentToken st (cs_store cs) of
          Inl e \<Rightarrow>
            if e = Sentinel ErrNoToken
            then Inr \<lparr>ic_opts = opts, ic_metadata = [], ic_token = None\<rparr>
            else Inl (Errorf ''getting token from store failed'')
        | Inr t \<Rightarrow>
            let iCtx = \<lparr>ic_opts = opts, ic_metadata = [], ic_token = Some t\<rparr> in
            if \<not> isPending t
            then (case addLsatCredentials mo lt i iCtx of
                    Inl e \<Rightarrow> Inl (Errorf ''adding macaroon failed'')
                  | Inr iCtx' \<Rightarrow> Inr iCtx')
            else Inr iCtx)
       (\<lambda>iCtx. Inr (iCtx\<lparr>ic_opts := ic_opts iCtx @ [Trailer]\<rparr>))"

text \<open>\<^verbatim>\<open>payLsatToken\<close> in its two halves: reading and checking the challenge, then storing the pending
  token and paying.\<close>

definition parseChallenge ::
    "'m macaroon_ops \<Rightarrow> lntypes_ops \<Rightarrow> 'm client_env \<Rightarrow> ClientInterceptor \<Rightarrow> string list
       \<Rightarrow> (string \<times> 'm Token) result" where
  "parseChallenge mo lt env i md =
     (case md of
        [] \<Rightarrow> Inl (Errorf ''auth header not found in response'')
      | authHeader # _ \<Rightarrow>
          (case authHeaderRegex authHeader of
             None \<Rightarrow> Inl (Errorf ''invalid auth header format'')
           | Some (macBase64, invoiceStr) \<Rightarrow>
               (case b64_decode macBase64 of
                  Inl _ \<Rightarrow> Inl (Errorf ''base64 decode of macaroon failed'')
                | Inr macBytes \<Rightarrow>
                    (case ce_Decode env invoiceStr of
                       Inl _ \<Rightarrow> Inl (Errorf ''unable to decode invoice'')
                     | Inr invoice \<Rightarrow>
                         if (case inv_MilliSat invoice of None \<Rightarrow> False
                             | Some a \<Rightarrow> a > ce_MSat env (ci_maxCost i))
                         then Inl (Errorf ''cannot pay for L402 automatically, cost exceeds configured max cost'')
                         else (case tokenFromChallenge mo lt (ce_Now env) macBytes (inv_PaymentHash invoice) of
                                 Inl _ \<Rightarrow> Inl (Errorf ''unable to create token'')
                               | Inr token \<Rightarrow> Inr (invoiceStr, token))))))"

definition payLsatToken ::
    "'m macaroon_ops \<Rightarrow> lntypes_ops \<Rightarrow> ('s, 'm) store_ops \<Rightarrow> 'm client_env \<Rightarrow> ClientInterceptor
       \<Rightarrow> ('s, 'm) client_state \<Rightarrow> string list \<Rightarrow> ('s, 'm) client_state \<times> 'm Token result" where
  "payLsatToken mo lt st env i cs md =
     (case parseChallenge mo lt env i md of
        Inl e \<Rightarrow> (cs, Inl e)
      | Inr (invoiceStr, token) \<Rightarrow>
     (case do_store st cs token of
        (cs1, Inl _) \<Rightarrow> (cs1, Inl (Errorf ''unable to store pending token''))
      | (cs1, Inr _) \<Rightarrow>
          let cs2 = emit (EvPay invoiceStr (ci_maxFee i)) cs1 in
          (case ce_PayInvoice env invoiceStr (ci_maxFee i) of
             PayErr e \<Rightarrow> (cs2, Inl e)
           | PayTimeout \<Rightarrow> (cs2, Inl (Errorf ''payment timed out. try again to track payment.''))
           | PayParentDone \<Rightarrow> (cs2, Inl (Errorf ''parent context canceled. try again to track payment.''))
           | PayDone preimage paidAmt paidFee \<Rightarrow>
               let token' = token\<lparr>Preimage := preimage, AmountPaid := ce_MSat env paidAmt,
                                  RoutingFeePaid := ce_MSat env paidFee\<rparr>
               in (case do_store st cs2 token' of
                     (cs3, Inl e) \<Rightarrow> (cs3, Inl e)
                   | (cs3, Inr _) \<Rightarrow> (cs3, Inr token')))))"

fun trackLoop ::
    "('s, 'm) store_ops \<Rightarrow> ('s, 'm) client_state \<Rightarrow> 'm Token \<Rightarrow> track_event list
       \<Rightarrow> ('s, 'm) client_state \<times> 'm Token result" where
  "trackLoop st cs token [] = (cs, Inl (Errorf ''payment tracking timed out.''))"
| "trackLoop st cs token (TrackTimeout # es) = (cs, Inl (Errorf ''payment tracking timed out.''))"
| "trackLoop st cs token (TrackErr e # es) = (cs, Inl (Errorf ''payment tracking failed''))"
| "trackLoop st cs token (TrackStatus r # es) =
     (case ps_State r of
        Payment_SUCCEEDED \<Rightarrow>
          (let token' = extractPaymentDetails token r
           in (case do_store st cs token' of
                 (cs', Inl e) \<Rightarrow> (cs', Inl e)
               | (cs', Inr _) \<Rightarrow> (cs', Inr token')))
      | Payment_IN_FLIGHT \<Rightarrow> trackLoop st cs token es
      | Payment_FAILED \<Rightarrow> (cs, Inl (Sentinel ErrPaymentFailedTerminally))
      | Payment_UNKNOWN \<Rightarrow> (cs, Inl (Errorf ''payment tracking failed with state'')))"

definition trackPayment ::
    "('s, 'm) store_ops \<Rightarrow> 'm client_env \<Rightarrow> ('s, 'm) client_state \<Rightarrow> 'm Token
       \<Rightarrow> ('s, 'm) client_state \<times> 'm Token result" where
  "trackPayment st env cs token =
     (let cs1 = emit (EvTrack (tok_PaymentHash token)) cs in
      case ce_TrackPayment env (tok_PaymentHash token) of
        Inl e \<Rightarrow> (cs1, Inl (Errorf ''track payment call to lnd failed''))
      | Inr events \<Rightarrow> trackLoop st cs1 token events)"

text \<open>The token that \<^verbatim>\<open>handlePayment\<close> ends up with, before the credentials are added.\<close>

definition obtainToken ::
    "'m macaroon_ops \<Rightarrow> lntypes_ops \<Rightarrow> ('s, 'm) store_ops \<Rightarrow> 'm client_env \<Rightarrow> ClientInterceptor
       \<Rightarrow> ('s, 'm) client_state \<Rightarrow> 'm interceptContext \<Rightarrow> ('s, 'm) client_state \<times> 'm Token result" where
  "obtainToken mo lt st env i cs iCtx =
     (case ic_token iCtx of
        Some token \<Rightarrow>
          if isPending token then
            (case trackPayment st env cs token of
               (cs1, Inr token') \<Rightarrow> (cs1, Inr token')
             | (cs1, Inl e) \<Rightarrow>
                 if e = Sentinel ErrPaymentFailedTerminally then
                   (case do_remove st cs1 of
                      (cs2, Inl _) \<Rightarrow> (cs2, Inl (Errorf ''error removing pending token, cannot retry payment''))
                    | (cs2, Inr _) \<Rightarrow> payLsatToken mo lt st env i cs2 (ic_metadata iCtx))
                 else (cs1, Inl e))
          else (cs, Inr token)
      | None \<Rightarrow> payLsatToken mo lt st env i cs (ic_metadata iCtx))"

definition handlePayment ::
    "'m macaroon_ops \<Rightarrow> lntypes_ops \<Rightarrow> ('s, 'm) store_ops \<Rightarrow> 'm client_env \<Rightarrow> ClientInterceptor
       \<Rightarrow> ('s, 'm) client_state \<Rightarrow> 'm interceptContext \<Rightarrow> ('s, 'm) client_state \<times> 'm interceptContext result" where
  "handlePayment mo lt st env i cs iCtx =
     (case obtainToken mo lt st env i cs iCtx of
        (cs', Inl e) \<Rightarrow> (cs', Inl e)
      | (cs', Inr token) \<Rightarrow>
          (case addLsatCredentials mo lt i (iCtx\<lparr>ic_token := Some token\<rparr>) of
             Inl e \<Rightarrow> (cs', Inl (Errorf ''adding macaroon failed''))
           | Inr iCtx' \<Rightarrow> (cs', Inr iCtx')))"

text \<open>The result of an intercepted unary call is its error; \<open>None\<close> is success.\<close>

definition UnaryInterceptor ::
    "'m macaroon_ops \<Rightarrow> lntypes_ops \<Rightarrow> ('s, 'm) store_ops \<Rightarrow> 'm client_env \<Rightarrow> ClientInterceptor
       \<Rightarrow> ('s, 'm) client_state \<Rightarrow> 'm call_opt list \<Rightarrow> ('s, 'm) client_state \<times> go_error option" where
  "UnaryInterceptor mo lt st env i cs opts =
     (case newInterceptContext mo lt st i cs opts of
        Inl e \<Rightarrow> (cs, Some e)
      | Inr iCtx \<Rightarrow>
          let (err, md) = ce_Invoke env 0 (ic_opts iCtx);
              cs1 = emit (EvInvoke (ic_opts iCtx)) cs
          in if \<not> IsPaymentRequired env err then (cs1, err)
             else (case handlePayment mo lt st env i cs1 (iCtx\<lparr>ic_metadata := md\<rparr>) of
                     (cs2, Inl e) \<Rightarrow> (cs2, Some e)
                   | (cs2, Inr iCtx') \<Rightarrow>
                       (emit (EvInvoke (ic_opts iCtx')) cs2, fst (ce_Invoke env 1 (ic_opts iCtx')))))"

text \<open>\<^verbatim>\<open>StreamInterceptor\<close> is the same code around a call that also returns a stream.\<close>

definition StreamInterceptor ::
    "'m macaroon_ops \<Rightarrow> lntypes_ops \<Rightarrow> ('s, 'm) store_ops \<Rightarrow> 'm client_env
       \<Rightarrow> (nat \<Rightarrow> 'm call_opt list \<Rightarrow> 'x) \<Rightarrow> ClientInterceptor \<Rightarrow> ('s, 'm) client_state \<Rightarrow> 'm call_opt list
       \<Rightarrow> ('s, 'm) client_state \<times> 'x option \<times> go_error option" where
  "StreamInterceptor mo lt st env streamer i cs opts =
     (case newInterceptContext mo lt st i cs opts of
        Inl e \<Rightarrow> (cs, None, Some e)
      | Inr iCtx \<Rightarrow>
          let (err, md) = ce_Invoke env 0 (ic_opts iCtx);
              cs1 = emit (EvInvoke (ic_opts iCtx)) cs
          in if \<not> IsPaymentRequired env err then (cs1, Some (streamer 0 (ic_opts iCtx)), err)
             else (case handlePayment mo lt st env i cs1 (iCtx\<lparr>ic_metadata := md\<rparr>) of
                     (cs2, Inl e) \<Rightarrow> (cs2, None, Some e)
                   | (cs2, Inr iCtx') \<Rightarrow>
                       (emit (EvInvoke (ic_opts iCtx')) cs2, Some (streamer 1 (ic_opts iCtx')),
                        fst (ce_Invoke env 1 (ic_opts iCtx')))))"

subsection \<open>Payments are guarded\<close>

text \<open>The cost limit, and what must be true of a trace (newest event first) at each payment in it.\<close>

definition within_cost :: "'m client_env \<Rightarrow> ClientInterceptor \<Rightarrow> Invoice \<Rightarrow> bool" where
  "within_cost env i ivc =
     (case inv_MilliSat ivc of None \<Rightarrow> True | Some a \<Rightarrow> a \<le> ce_MSat env (ci_maxCost i))"

fun stored_pending :: "lntypes_ops \<Rightarrow> Invoice \<Rightarrow> 'm client_event list \<Rightarrow> bool" where
  "stored_pending lt ivc (EvStore t (Inr u) # tr) =
     (isPending t \<and> lnt_MakeHash lt (inv_PaymentHash ivc) = Inr (tok_PaymentHash t))"
| "stored_pending lt ivc tr = False"

fun guarded :: "lntypes_ops \<Rightarrow> 'm client_env \<Rightarrow> ClientInterceptor \<Rightarrow> 'm client_event list \<Rightarrow> bool" where
  "guarded lt env i [] = True"
| "guarded lt env i (EvPay s fee # tr) =
     (fee = ci_maxFee i \<and>
      (case ce_Decode env s of Inl _ \<Rightarrow> False | Inr ivc \<Rightarrow> within_cost env i ivc \<and> stored_pending lt ivc tr) \<and>
      guarded lt env i tr)"
| "guarded lt env i (e # tr) = guarded lt env i tr"

fun is_pay :: "'m client_event \<Rightarrow> bool" where
  "is_pay (EvPay s fee) = True"
| "is_pay e = False"

fun is_invoke :: "'m client_event \<Rightarrow> bool" where
  "is_invoke (EvInvoke opts) = True"
| "is_invoke e = False"

definition pays :: "'m client_event list \<Rightarrow> nat" where
  "pays tr = length (filter is_pay tr)"

definition invokes :: "'m client_event list \<Rightarrow> nat" where
  "invokes tr = length (filter is_invoke tr)"

lemma count_simps [simp]:
  "pays [] = 0" "pays (EvPay s fee # tr) = Suc (pays tr)" "pays (EvStore t r # tr) = pays tr"
  "pays (EvRemove r # tr) = pays tr" "pays (EvTrack h # tr) = pays tr" "pays (EvInvoke os # tr) = pays tr"
  "invokes [] = 0" "invokes (EvPay s fee # tr) = invokes tr" "invokes (EvStore t r # tr) = invokes tr"
  "invokes (EvRemove r # tr) = invokes tr" "invokes (EvTrack h # tr) = invokes tr"
  "invokes (EvInvoke os # tr) = Suc (invokes tr)"
  by (simp_all add: pays_def invokes_def)

lemma emit_simps [simp]:
  "cs_trace (emit e cs) = e # cs_trace cs" "cs_store (emit e cs) = cs_store cs"
  by (simp_all add: emit_def)

lemma do_store_trace:
  "do_store st cs t = (cs', r) \<Longrightarrow> cs_trace cs' = EvStore t r # cs_trace cs"
  by (auto simp: do_store_def split: prod.splits)

lemma do_store_store:
  "do_store st cs t = (cs', r) \<Longrightarrow> st_StoreToken st (cs_store cs) t = (cs_store cs', r)"
  by (auto simp: do_store_def split: prod.splits)

lemma do_remove_trace:
  "do_remove st cs = (cs', r) \<Longrightarrow> cs_trace cs' = EvRemove r # cs_trace cs"
  by (auto simp: do_remove_def split: prod.splits)

lemma do_remove_store:
  "do_remove st cs = (cs', r) \<Longrightarrow> st_RemovePendingToken st (cs_store cs) = (cs_store cs', r)"
  by (auto simp: do_remove_def split: prod.splits)

lemma parseChallenge_ok:
  assumes "parseChallenge mo lt env i md = Inr (invoiceStr, token)"
  obtains h hs b64 b ivc where "md = h # hs" and "authHeaderRegex h = Some (b64, invoiceStr)"
    and "b64_decode b64 = Inr b" and "ce_Decode env invoiceStr = Inr ivc" and "within_cost env i ivc"
    and "tokenFromChallenge mo lt (ce_Now env) b (inv_PaymentHash ivc) = Inr token"
proof -
  from assms obtain h hs where md: "md = h # hs" by (cases md) (auto simp: parseChallenge_def)
  with assms obtain b64 where rx: "authHeaderRegex h = Some (b64, invoiceStr)"
    by (cases "authHeaderRegex h") (auto simp: parseChallenge_def split: sum.splits if_splits)
  with md assms obtain b where b: "b64_decode b64 = Inr b"
    by (cases "b64_decode b64") (auto simp: parseChallenge_def)
  with md rx assms obtain ivc where ivc: "ce_Decode env invoiceStr = Inr ivc"
    by (cases "ce_Decode env invoiceStr") (auto simp: parseChallenge_def)
  with md rx b assms have "within_cost env i ivc \<and>
      tokenFromChallenge mo lt (ce_Now env) b (inv_PaymentHash ivc) = Inr token"
    by (auto simp: parseChallenge_def within_cost_def split: if_splits sum.splits option.splits)
  with md rx b ivc that show ?thesis by blast
qed

lemma tokenFromChallenge_hash:
  "tokenFromChallenge mo lt now b h = Inr t \<Longrightarrow> lnt_MakeHash lt h = Inr (tok_PaymentHash t)"
  by (auto simp: tokenFromChallenge_def rbind_eq_Inr split: sum.splits)

lemma payLsatToken_trace:
  assumes "payLsatToken mo lt st env i cs md = (cs', r)"
  shows "(guarded lt env i (cs_trace cs) \<longrightarrow> guarded lt env i (cs_trace cs')) \<and>
    pays (cs_trace cs') \<le> Suc (pays (cs_trace cs)) \<and> invokes (cs_trace cs') = invokes (cs_trace cs)"
proof (cases "parseChallenge mo lt env i md")
  case (Inl e)
  with assms show ?thesis by (simp add: payLsatToken_def)
next
  case (Inr p)
  obtain invoiceStr token where p: "p = (invoiceStr, token)" by (cases p)
  obtain ivc b where
    ivc: "ce_Decode env invoiceStr = Inr ivc" "within_cost env i ivc"
    and tc: "tokenFromChallenge mo lt (ce_Now env) b (inv_PaymentHash ivc) = Inr token"
    by (rule parseChallenge_ok [OF Inr [unfolded p]])
  note t = tokenFromChallenge_pending [OF tc] tokenFromChallenge_hash [OF tc]
  obtain cs1 r1 where d: "do_store st cs token = (cs1, r1)" by fastforce
  show ?thesis
  proof (cases r1)
    case (Inl e)
    with assms \<open>parseChallenge mo lt env i md = Inr p\<close> p d do_store_trace [OF d] show ?thesis
      by (simp add: payLsatToken_def)
  next
    case (Inr u)
    with assms \<open>parseChallenge mo lt env i md = Inr p\<close> p d do_store_trace [OF d] ivc t show ?thesis
      by (auto simp: payLsatToken_def Let_def split: pay_outcome.splits prod.splits sum.splits
          dest!: do_store_trace)
  qed
qed

lemma trackLoop_trace:
  "trackLoop st cs token es = (cs', r) \<Longrightarrow>
     (guarded lt env i (cs_trace cs) \<longrightarrow> guarded lt env i (cs_trace cs')) \<and>
     pays (cs_trace cs') = pays (cs_trace cs) \<and> invokes (cs_trace cs') = invokes (cs_trace cs)"
  by (induction st cs token es rule: trackLoop.induct)
    (auto simp: Let_def split: Payment_State.splits prod.splits sum.splits dest!: do_store_trace)

lemma trackPayment_trace:
  "trackPayment st env cs token = (cs', r) \<Longrightarrow>
     (guarded lt env i (cs_trace cs) \<longrightarrow> guarded lt env i (cs_trace cs')) \<and>
     pays (cs_trace cs') = pays (cs_trace cs) \<and> invokes (cs_trace cs') = invokes (cs_trace cs)"
  using trackLoop_trace [of st "emit (EvTrack (tok_PaymentHash token)) cs" token _ cs' r lt env i]
  by (auto simp: trackPayment_def Let_def split: sum.splits)

lemma obtainToken_trace:
  assumes "obtainToken mo lt st env i cs iCtx = (cs', r)"
  shows "(guarded lt env i (cs_trace cs) \<longrightarrow> guarded lt env i (cs_trace cs')) \<and>
    pays (cs_trace cs') \<le> Suc (pays (cs_trace cs)) \<and> invokes (cs_trace cs') = invokes (cs_trace cs)"
proof (cases "ic_token iCtx")
  case None
  with assms payLsatToken_trace show ?thesis by (simp add: obtainToken_def)
next
  case (Some token)
  obtain cs1 r1 where tr: "trackPayment st env cs token = (cs1, r1)" by fastforce
  obtain cs2 r2 where rm: "do_remove st cs1 = (cs2, r2)" by fastforce
  from assms Some tr rm trackPayment_trace [OF tr, of lt i] do_remove_trace [OF rm]
    payLsatToken_trace [of mo lt st env i cs2 "ic_metadata iCtx" cs' r]
  show ?thesis by (auto simp: obtainToken_def split: if_splits sum.splits)
qed

lemma handlePayment_trace:
  assumes "handlePayment mo lt st env i cs iCtx = (cs', r)"
  shows "(guarded lt env i (cs_trace cs) \<longrightarrow> guarded lt env i (cs_trace cs')) \<and>
    pays (cs_trace cs') \<le> Suc (pays (cs_trace cs)) \<and> invokes (cs_trace cs') = invokes (cs_trace cs)"
proof -
  obtain c1 r1 where o: "obtainToken mo lt st env i cs iCtx = (c1, r1)" by fastforce
  with assms have "cs' = c1" by (auto simp: handlePayment_def split: sum.splits)
  with obtainToken_trace [OF o] show ?thesis by simp
qed

lemma UnaryInterceptor_trace:
  assumes "UnaryInterceptor mo lt st env i cs opts = (cs', r)"
  shows "(guarded lt env i (cs_trace cs) \<longrightarrow> guarded lt env i (cs_trace cs')) \<and>
    pays (cs_trace cs') \<le> Suc (pays (cs_trace cs)) \<and> invokes (cs_trace cs') \<le> invokes (cs_trace cs) + 2"
proof (cases "newInterceptContext mo lt st i cs opts")
  case (Inl e)
  with assms show ?thesis by (simp add: UnaryInterceptor_def)
next
  case (Inr c)
  obtain err md where inv0: "ce_Invoke env 0 (ic_opts c) = (err, md)" by fastforce
  obtain c1 r1 where h: "handlePayment mo lt st env i (emit (EvInvoke (ic_opts c)) cs) (c\<lparr>ic_metadata := md\<rparr>) = (c1, r1)"
    by fastforce
  from assms Inr inv0 h handlePayment_trace [OF h] show ?thesis
    by (auto simp: UnaryInterceptor_def Let_def split: if_splits sum.splits)
qed

subsection \<open>The client over a token store\<close>

text \<open>What the client relies on: the tokens it makes can be stored, and preimages have 32 bytes.\<close>

definition storable_challenge ::
    "'m macaroon_ops \<Rightarrow> lntypes_ops \<Rightarrow> 'm client_env \<Rightarrow> ClientInterceptor \<Rightarrow> ('m Token \<Rightarrow> bool)
       \<Rightarrow> string list \<Rightarrow> bool" where
  "storable_challenge mo lt env i storable md \<longleftrightarrow>
     (\<forall>s t. parseChallenge mo lt env i md = Inr (s, t) \<longrightarrow> storable t)"

definition storable_env :: "'m client_env \<Rightarrow> ('m Token \<Rightarrow> bool) \<Rightarrow> bool" where
  "storable_env env storable \<longleftrightarrow>
     (\<forall>t p a f. storable t \<and> length p = 32 \<longrightarrow>
        storable (t\<lparr>Preimage := p, AmountPaid := a, RoutingFeePaid := f\<rparr>)) \<and>
     (\<forall>s f p a fee. ce_PayInvoice env s f = PayDone p a fee \<longrightarrow> length p = 32) \<and>
     (\<forall>h es r. ce_TrackPayment env h = Inr es \<and> TrackStatus r \<in> set es \<longrightarrow> length (ps_Preimage r) = 32)"

context token_store
begin

lemma do_store_rep:
  assumes "rep (cs_store cs) a" and "storable t" and "do_store st cs t = (cs', r)"
  shows "rep (cs_store cs') (fst (spec_store a t)) \<and> r = snd (spec_store a t)"
  using store_spec [OF assms(1,2)] do_store_store [OF assms(3)] by simp

lemma payLsatToken_rep:
  assumes "storable_env env storable" and "rep (cs_store cs) a"
    and "payLsatToken mo lt st env i cs md = (cs', r)" and "storable_challenge mo lt env i storable md"
  shows "\<exists>a'. rep (cs_store cs') a' \<and> (\<forall>t. r = Inr t \<longrightarrow> a' = Paid t)"
proof (cases "parseChallenge mo lt env i md")
  case (Inl e)
  with assms show ?thesis by (auto simp: payLsatToken_def)
next
  case (Inr p)
  obtain invoiceStr token where p: "p = (invoiceStr, token)" by (cases p)
  obtain b and ivc :: Invoice where
    tc: "tokenFromChallenge mo lt (ce_Now env) b (inv_PaymentHash ivc) = Inr token"
    by (rule parseChallenge_ok [OF Inr [unfolded p]])
  have tok: "storable token" "isPending token"
    using Inr p assms(4) tokenFromChallenge_pending [OF tc] by (auto simp: storable_challenge_def)
  obtain cs1 r1 where d: "do_store st cs token = (cs1, r1)" by fastforce
  have r1: "rep (cs_store cs1) (fst (spec_store a token))" "r1 = snd (spec_store a token)"
    using do_store_rep [OF assms(2) tok(1) d] by simp_all
  show ?thesis
  proof (cases "\<exists>u p am fee. r1 = Inr u \<and> ce_PayInvoice env invoiceStr (ci_maxFee i) = PayDone p am fee")
    case False
    with assms(3) Inr p d r1(1) show ?thesis
      by (cases r1) (auto simp: payLsatToken_def Let_def split: pay_outcome.splits intro!: exI [of _ "fst (spec_store a token)"])
  next
    case True
    then obtain u p' am fee where ok: "r1 = Inr u" and pay: "ce_PayInvoice env invoiceStr (ci_maxFee i) = PayDone p' am fee"
      by blast
    let ?t = "token\<lparr>Preimage := p', AmountPaid := ce_MSat env am, RoutingFeePaid := ce_MSat env fee\<rparr>"
    let ?cs2 = "emit (EvPay invoiceStr (ci_maxFee i)) cs1"
    have pend: "rep (cs_store ?cs2) (Pending token)" using r1 ok tok(2) by (cases a) auto
    have "length p' = 32" using pay assms(1) unfolding storable_env_def by blast
    then have st': "storable ?t" using tok(1) assms(1) by (simp add: storable_env_def)
    obtain cs3 r3 where d3: "do_store st ?cs2 ?t = (cs3, r3)" by fastforce
    from do_store_rep [OF pend st' d3] have r3: "rep (cs_store cs3) (fst (spec_store (Pending token) ?t))"
      and e3: "r3 = snd (spec_store (Pending token) ?t)" by simp_all
    from assms(3) Inr p d ok pay d3 have "cs' = cs3" "\<forall>t. r = Inr t \<longrightarrow> t = ?t \<and> r3 = Inr ()"
      by (auto simp: payLsatToken_def Let_def split: sum.splits)
    with r3 e3 show ?thesis
      by (auto split: if_splits)
  qed
qed

lemma trackLoop_rep:
  assumes "\<forall>r. TrackStatus r \<in> set es \<longrightarrow> storable (extractPaymentDetails token r)"
    and "rep (cs_store cs) (Pending token)" and "trackLoop st cs token es = (cs', r)"
  shows "rep (cs_store cs') (case r of Inr t \<Rightarrow> Paid t | Inl e \<Rightarrow> Pending token)"
  using assms(1,3)
proof (induction es)
  case Nil
  with assms(2) show ?case by auto
next
  case (Cons e es)
  show ?case
  proof (cases e)
    case (TrackStatus s)
    let ?t = "extractPaymentDetails token s"
    obtain cs1 r1 where d: "do_store st cs ?t = (cs1, r1)" by fastforce
    have "storable ?t" using Cons.prems(1) TrackStatus by simp
    from do_store_rep [OF assms(2) this d]
    have "rep (cs_store cs1) (fst (spec_store (Pending token) ?t))" "r1 = snd (spec_store (Pending token) ?t)"
      by simp_all
    then have "rep (cs_store cs1) (case r1 of Inr _ \<Rightarrow> Paid ?t | Inl e \<Rightarrow> Pending token)"
      by (auto split: if_splits)
    with Cons d TrackStatus assms(2) show ?thesis
      by (cases "ps_State s") (auto split: sum.splits)
  qed (use Cons assms(2) in auto)
qed

lemma trackPayment_rep:
  assumes "storable_env env storable" and "storable token"
    and "rep (cs_store cs) (Pending token)" and "trackPayment st env cs token = (cs', r)"
  shows "rep (cs_store cs') (case r of Inr t \<Rightarrow> Paid t | Inl e \<Rightarrow> Pending token)"
proof (cases "ce_TrackPayment env (tok_PaymentHash token)")
  case (Inl e)
  with assms(3,4) show ?thesis by (auto simp: trackPayment_def)
next
  case (Inr es)
  have "\<forall>r. TrackStatus r \<in> set es \<longrightarrow> storable (extractPaymentDetails token r)"
    using assms(1,2) Inr by (auto simp: storable_env_def extractPaymentDetails_def)
  from trackLoop_rep [OF this, of "emit (EvTrack (tok_PaymentHash token)) cs"] assms(3,4) Inr
  show ?thesis by (simp add: trackPayment_def Let_def)
qed

text \<open>The context of a call agrees with the store: its token is the store's.\<close>

lemma newInterceptContext_token:
  assumes "rep (cs_store cs) a" and "newInterceptContext mo lt st i cs opts = Inr c"
  shows "ic_token c = (case a of NoToken \<Rightarrow> None | Pending t \<Rightarrow> Some t | Paid t \<Rightarrow> Some t)"
proof -
  note cur = current_spec [OF assms(1)]
  show ?thesis
    using assms(2) by (cases a)
      (auto simp: newInterceptContext_def cur rbind_eq_Inr addLsatCredentials_def Let_def split: if_splits sum.splits)
qed

lemma obtainToken_rep:
  assumes "storable_env env storable" and "rep (cs_store cs) a"
    and tok: "ic_token c = (case a of NoToken \<Rightarrow> None | Pending t \<Rightarrow> Some t | Paid t \<Rightarrow> Some t)"
    and o: "obtainToken mo lt st env i cs c = (cs', r)"
    and ch: "storable_challenge mo lt env i storable (ic_metadata c)"
  shows "\<exists>a'. rep (cs_store cs') a' \<and> (\<forall>t. r = Inr t \<longrightarrow> a' = Paid t)"
proof (cases a)
  case NoToken
  with tok o have "payLsatToken mo lt st env i cs (ic_metadata c) = (cs', r)" by (simp add: obtainToken_def)
  then show ?thesis by (rule payLsatToken_rep [OF assms(1,2) _ ch])
next
  case (Paid t)
  with tok o assms(2) rep_paid [of "cs_store cs" t] show ?thesis by (auto simp: obtainToken_def)
next
  case (Pending t)
  with assms(2) have p: "rep (cs_store cs) (Pending t)" and t: "storable t" "isPending t"
    using rep_pending by auto
  obtain cs1 r1 where tr: "trackPayment st env cs t = (cs1, r1)" by fastforce
  note rep1 = trackPayment_rep [OF assms(1) t(1) p tr]
  obtain cs2 r2 where rm: "do_remove st cs1 = (cs2, r2)" by fastforce
  show ?thesis
  proof (cases r1)
    case (Inr t')
    with tok Pending t tr o rep1 show ?thesis by (auto simp: obtainToken_def)
  next
    case (Inl e)
    with rep1 have "rep (cs_store cs1) (Pending t)" by simp
    from remove_then_none [OF this do_remove_store [OF rm]] have "r2 = Inr ()" "rep (cs_store cs2) NoToken"
      by simp_all
    with Inl tok Pending t tr rm o rep1
      payLsatToken_rep [OF assms(1), of cs2 NoToken mo lt i "ic_metadata c" cs' r] ch
    show ?thesis by (auto simp: obtainToken_def split: if_splits)
  qed
qed

lemma obtainToken_paid:
  assumes "rep (cs_store cs) (Paid t)" and "ic_token c = Some t"
  shows "obtainToken mo lt st env i cs c = (cs, Inr t)"
  using rep_paid [OF assms(1)] assms(2) by (simp add: obtainToken_def)

lemma UnaryInterceptor_rep:
  assumes "storable_env env storable" and "rep (cs_store cs) a"
    and ch: "\<And>os. storable_challenge mo lt env i storable (snd (ce_Invoke env 0 os))"
    and u: "UnaryInterceptor mo lt st env i cs opts = (cs', r)"
  shows "\<exists>a'. rep (cs_store cs') a' \<and>
     (invokes (cs_trace cs') = invokes (cs_trace cs) + 2 \<longrightarrow>
        (\<exists>t m os. a' = Paid t \<and> PaidMacaroon mo lt t = Inr m \<and>
           cs_trace cs' \<noteq> [] \<and> hd (cs_trace cs') = EvInvoke os \<and>
           last os = PerRPCCredentials (NewMacaroonCredential m (ci_allowInsecure i))))"
proof (cases "newInterceptContext mo lt st i cs opts")
  case (Inl e)
  with u assms(2) show ?thesis by (auto simp: UnaryInterceptor_def)
next
  case (Inr c)
  obtain err md where inv0: "ce_Invoke env 0 (ic_opts c) = (err, md)" by fastforce
  let ?c = "c\<lparr>ic_metadata := md\<rparr>" and ?cs1 = "emit (EvInvoke (ic_opts c)) cs"
  have tok: "ic_token ?c = (case a of NoToken \<Rightarrow> None | Pending t \<Rightarrow> Some t | Paid t \<Rightarrow> Some t)"
    using newInterceptContext_token [OF assms(2) Inr] by simp
  obtain cs2 r2 where o: "obtainToken mo lt st env i ?cs1 ?c = (cs2, r2)" by fastforce
  obtain a' where a': "rep (cs_store cs2) a'" "\<And>t. r2 = Inr t \<Longrightarrow> a' = Paid t"
    using obtainToken_rep [OF assms(1) _ tok o] assms(2) ch [of "ic_opts c"] inv0 by auto
  have n: "invokes (cs_trace cs2) = Suc (invokes (cs_trace cs))" using obtainToken_trace [OF o] by simp
  show ?thesis
  proof (cases "IsPaymentRequired env err")
    case False
    with u Inr inv0 assms(2) show ?thesis by (auto simp: UnaryInterceptor_def)
  next
    case True
    with u Inr inv0 o a' n show ?thesis
      by (cases r2) (auto simp: UnaryInterceptor_def handlePayment_def Let_def addLsatCredentials_def rbind_eq_Inr
          split: sum.splits intro!: exI [of _ a'])
  qed
qed

lemma UnaryInterceptor_paid:
  assumes "rep (cs_store cs) (Paid t)" and u: "UnaryInterceptor mo lt st env i cs opts = (cs', r)"
  shows "cs_store cs' = cs_store cs \<and> pays (cs_trace cs') = pays (cs_trace cs)"
proof (cases "newInterceptContext mo lt st i cs opts")
  case (Inl e)
  with u show ?thesis by (auto simp: UnaryInterceptor_def)
next
  case (Inr c)
  obtain err md where inv0: "ce_Invoke env 0 (ic_opts c) = (err, md)" by fastforce
  let ?c = "c\<lparr>ic_metadata := md\<rparr>" and ?cs1 = "emit (EvInvoke (ic_opts c)) cs"
  have "ic_token ?c = Some t" using newInterceptContext_token [OF assms(1) Inr] by simp
  then have "obtainToken mo lt st env i ?cs1 ?c = (?cs1, Inr t)" using assms(1) by (intro obtainToken_paid) simp_all
  with u Inr inv0 show ?thesis
    by (auto simp: UnaryInterceptor_def handlePayment_def Let_def split: if_splits sum.splits)
qed

end

subsection \<open>The challenge the client reads and the credential the server reads\<close>

lemma lazyGroups_first:
  assumes "c \<notin> set g" and "CHR 0x0A \<notin> set g"
  shows "\<exists>ms. lazyGroups (c # l) (g @ (c # l) @ r) = (g, r) # ms"
  using assms
proof (induction g)
  case Nil
  then show ?case by (simp add: has_prefix_def)
next
  case (Cons x g)
  then show ?case by (auto simp: has_prefix_def)
qed

lemma authHeaderRegex_challenge:
  assumes "CHR 0x22 \<notin> set m" "CHR 0x0A \<notin> set m" "CHR 0x22 \<notin> set p" "CHR 0x0A \<notin> set p"
  shows "authHeaderRegex (challengeStart @ m @ challengeMiddle @ p @ [CHR 0x22]) = Some (m, p)"
proof -
  let ?s = "challengeStart @ m @ challengeMiddle @ p @ [CHR 0x22]"
  obtain ms where 1: "lazyGroups challengeMiddle (m @ challengeMiddle @ p @ [CHR 0x22]) = (m, p @ [CHR 0x22]) # ms"
    using lazyGroups_first [OF assms(1,2), of "'', invoice='' @ [CHR 0x22]"] by (auto simp: challengeMiddle_def)
  obtain ns where 2: "lazyGroups [CHR 0x22] (p @ [CHR 0x22]) = (p, []) # ns"
    using lazyGroups_first [OF assms(3,4), of "[]" "[]"] by auto
  have "authHeaderAt ?s = Some (m, p)" by (simp add: authHeaderAt_def 1 2)
  moreover have "?s = CHR ''L'' # tl ?s" by (simp add: challengeStart_def)
  ultimately show ?thesis by (metis authHeaderRegex.simps(2) option.simps(5))
qed

text \<open>
  C30: what the client sends is what the server reads: the macaroon with the preimage caveat, put
  into the request metadata by the credential and arriving in the header field
  \<^verbatim>\<open>Macaroon\<close>, is parsed by \<^verbatim>\<open>FromHeader\<close> into that macaroon and the token's preimage.
\<close>

theorem credential_read_by_server:
  assumes "macaroon_lib mo" and "lntypes_lib lt" and "PaidMacaroon mo lt t = Inr m" and "length (Preimage t) = 32"
    and "GetRequestMetadata mo (NewMacaroonCredential m insecure) = Inr md"
    and "md ''macaroon'' = Some v" and "v \<noteq> []"
    and "header_Get h HeaderAuthorization = []" and "header_Get h HeaderMacaroonMD = []"
    and "header_Get h HeaderMacaroon = v"
  shows "FromHeader mo lt h = Inr (m, Preimage t)"
proof -
  from assms(5,6) obtain b where b: "mac_MarshalBinary mo m = Inr b" "v = hex_encode b"
    by (auto simp: GetRequestMetadata_def NewMacaroonCredential_def rbind_eq_Inr)
  from PaidMacaroon_preimage [OF assms(1-3)] show ?thesis
    using assms(7-10) b macaroon_lib_Marshal [OF assms(1) b(1)] lntypes_lib_simps(2) [OF assms(2,4)]
    by (simp add: FromHeader_def)
qed

definition sample_paid_macaroon :: "bytes list" where
  "sample_paid_macaroon = [''k'', ''i'', ''preimage='' @ hex_encode (replicate 32 (CHR ''p''))]"

theorem credential_read_by_server_witness:
  "FromHeader sample_macaroon_ops sample_lt
     (header_Set Map.empty HeaderMacaroon
        (hex_encode (join_with (CHR '','') (map hex_encode sample_paid_macaroon))))
     = Inr (sample_paid_macaroon, replicate 32 (CHR ''p''))"
proof -
  have paid: "PaidMacaroon sample_macaroon_ops sample_lt (sample_Token (CHR ''p'')) = Inr sample_paid_macaroon"
    by (simp add: PaidMacaroon_def BaseMacaroon_def sample_Token_def sample_macaroon_ops_def sample_lt_def
        sample_lntypes_ops_def EncodeCaveat_def NewCaveat_def PreimageKey_def sample_paid_macaroon_def)
  have md: "GetRequestMetadata sample_macaroon_ops (NewMacaroonCredential sample_paid_macaroon False)
      = Inr [''macaroon'' \<mapsto> hex_encode (join_with (CHR '','') (map hex_encode sample_paid_macaroon))]"
    by (simp add: GetRequestMetadata_def NewMacaroonCredential_def sample_macaroon_ops_def sample_paid_macaroon_def)
  have "FromHeader sample_macaroon_ops sample_lt
     (header_Set Map.empty HeaderMacaroon
        (hex_encode (join_with (CHR '','') (map hex_encode sample_paid_macaroon))))
     = Inr (sample_paid_macaroon, Preimage (sample_Token (CHR ''p'')))"
    by (rule credential_read_by_server [OF sample_macaroon_lib sample_lt_lib paid _ md])
      (simp_all add: sample_Token_def sample_paid_macaroon_def header_Get_def header_Set_def
        HeaderAuthorization_def HeaderMacaroonMD_def HeaderMacaroon_def canonical_key_def is_token_char_def
        byte_val_def upper_char_def lower_char_def byte_of_def)
  then show ?thesis by (simp add: sample_Token_def)
qed

subsection \<open>The client over the file store\<close>

text \<open>
  C10: in one intercepted call every payment follows the successful storing of a pending token
  for the invoice's payment hash, pays an invoice within the cost limit with the configured
  fee limit; the call makes at most one payment and at most two attempts. This holds for every
  store, every server and every answer of lnd.
\<close>

theorem payments_guarded:
  "let tr = cs_trace (fst (UnaryInterceptor mo lt st env i \<lparr>cs_store = s, cs_trace = []\<rparr> opts))
   in guarded lt env i tr \<and> pays tr \<le> 1 \<and> invokes tr \<le> 2"
  using UnaryInterceptor_trace [of mo lt st env i "\<lparr>cs_store = s, cs_trace = []\<rparr>" opts, OF surjective_pairing]
  by (simp add: Let_def)

text \<open>A history of calls, each with its own clock, file system behaviour and environment.\<close>

definition file_call ::
    "'m macaroon_ops \<Rightarrow> lntypes_ops \<Rightarrow> FileStore \<Rightarrow> ClientInterceptor \<Rightarrow> (file_system, 'm) client_state
       \<Rightarrow> time \<times> file_io \<times> 'm client_env \<times> 'm call_opt list \<Rightarrow> (file_system, 'm) client_state" where
  "file_call mo lt f i cs c = (case c of (now, io, env, opts) \<Rightarrow>
     fst (UnaryInterceptor mo lt (file_store_ops mo lt now io f) env i cs opts))"

text \<open>
  C20: a client whose store holds a paid token never pays again, over any history of calls, and
  its store never changes, even when servers keep demanding payment.
\<close>

theorem paid_client_never_pays:
  assumes "macaroon_lib mo" and "lntypes_lib lt" and "fileName f \<noteq> fileNamePending f"
    and "represents mo f (cs_store cs) (Paid t)"
    and "\<forall>(now, io, env, opts) \<in> set calls. healthy_io io"
  shows "let cs' = foldl (file_call mo lt f i) cs calls
         in cs_store cs' = cs_store cs \<and> pays (cs_trace cs') = pays (cs_trace cs)"
  using assms(4,5)
proof (induction calls arbitrary: cs)
  case (Cons c calls)
  obtain now io env opts where c: "c = (now, io, env, opts)" by (cases c)
  from Cons.prems c assms have "file_rep mo lt io f (cs_store cs) (Paid t)" by (simp add: file_rep_def)
  from file_store.UnaryInterceptor_paid [OF this surjective_pairing, where now = now and env = env
      and i = i and opts = opts and mo = mo and lt = lt]
  have 1: "cs_store (file_call mo lt f i cs c) = cs_store cs"
    "pays (cs_trace (file_call mo lt f i cs c)) = pays (cs_trace cs)" by (simp_all add: file_call_def c)
  with Cons show ?case by (simp add: Let_def)
qed simp

text \<open>
  When a call over the file store makes its second attempt, the store holds a paid token and
  the attempt carries the credential made from exactly that token.
\<close>

lemma second_attempt_uses_stored_token:
  assumes "macaroon_lib mo" and "lntypes_lib lt" and "healthy_io io" and "fileName f \<noteq> fileNamePending f"
    and "represents mo f s a" and "storable_env env (storable_token mo)"
    and "\<And>os. storable_challenge mo lt env i (storable_token mo) (snd (ce_Invoke env 0 os))"
    and "UnaryInterceptor mo lt (file_store_ops mo lt now io f) env i \<lparr>cs_store = s, cs_trace = []\<rparr> opts = (cs', r)"
    and "invokes (cs_trace cs') = 2"
  shows "\<exists>t m os. represents mo f (cs_store cs') (Paid t) \<and> PaidMacaroon mo lt t = Inr m \<and>
     hd (cs_trace cs') = EvInvoke os \<and>
     last os = PerRPCCredentials (NewMacaroonCredential m (ci_allowInsecure i))"
proof -
  have "file_rep mo lt io f (cs_store \<lparr>cs_store = s, cs_trace = []\<rparr>) a" using assms by (simp add: file_rep_def)
  from file_store.UnaryInterceptor_rep [OF assms(6) this assms(7,8)] assms(9)
  show ?thesis by (auto simp: file_rep_def)
qed

definition sample_invoice_text :: string where "sample_invoice_text = ''lnbc1''"

definition sample_challenge :: string where
  "sample_challenge = challengeStart @ b64_encode ''6b,69'' @ challengeMiddle @ sample_invoice_text @ [CHR 0x22]"

definition sample_client_env :: "bytes list client_env" where
  "sample_client_env = \<lparr>
     ce_Decode = (\<lambda>s. Inr \<lparr>inv_MilliSat = Some 5000, inv_PaymentHash = replicate 32 (CHR ''h'')\<rparr>),
     ce_MSat = (\<lambda>x. word_of_int (1000 * x)),
     ce_FromError = (\<lambda>e. Some (13, ''Payment Required'')),
     ce_PayInvoice = (\<lambda>s f. PayDone (replicate 32 (CHR ''p'')) 5 1),
     ce_TrackPayment = (\<lambda>h. Inl (External ''unavailable'')),
     ce_Invoke = (\<lambda>n os. if n = 0 then (Some (External ''rpc''), [sample_challenge]) else (None, [])),
     ce_Now = (unix_to_internal, 7) \<rparr>"

definition sample_interceptor :: ClientInterceptor where
  "sample_interceptor = \<lparr>ci_maxCost = 1000, ci_maxFee = 10, ci_allowInsecure = False\<rparr>"

definition sample_run where
  "sample_run = UnaryInterceptor sample_macaroon_ops sample_lt
     (file_store_ops sample_macaroon_ops sample_lt (0, 0) sample_io sample_FileStore)
     sample_client_env sample_interceptor \<lparr>cs_store = Map.empty, cs_trace = []\<rparr> []"

definition sample_pending :: "bytes list Token" where
  "sample_pending = \<lparr>tok_PaymentHash = replicate 32 (CHR ''h''), Preimage = zeroPreimage, AmountPaid = 0,
     RoutingFeePaid = 0, TimeCreated = (unix_to_internal, 7), baseMac = [''k'', ''i'']\<rparr>"

lemma sample_parse:
  "parseChallenge sample_macaroon_ops sample_lt sample_client_env sample_interceptor [sample_challenge]
     = Inr (sample_invoice_text, sample_pending)"
proof -
  have "authHeaderRegex sample_challenge = Some (b64_encode ''6b,69'', sample_invoice_text)"
    unfolding sample_challenge_def using b64_encode_alphabet [of _ "''6b,69''"]
    by (intro authHeaderRegex_challenge) (auto simp: sample_invoice_text_def simp del: b64_encode.simps)
  moreover have "mac_UnmarshalBinary sample_macaroon_ops ''6b,69'' = Inr [''k'', ''i'']"
    by (simp add: sample_macaroon_ops_def hex_val_def byte_val_def byte_of_def char_of_eq_iff)
  ultimately show ?thesis
    by (simp add: parseChallenge_def sample_client_env_def sample_interceptor_def tokenFromChallenge_def
        sample_lt_def sample_lntypes_ops_def sample_pending_def del: b64_encode.simps)
qed

lemma sample_pending_storable:
  "length p = 32 \<Longrightarrow>
     storable_token sample_macaroon_ops (sample_pending\<lparr>Preimage := p, AmountPaid := a, RoutingFeePaid := f\<rparr>)"
  "storable_token sample_macaroon_ops sample_pending"
  by (auto simp: storable_token_def wf_Token_def sample_pending_def storable_time_def in_int64_def
      unix_to_internal_def sample_macaroon_ops_def is_ok_iff zeroPreimage_def)

lemma sample_storable_env: "storable_env sample_client_env (storable_token sample_macaroon_ops)"
  by (auto simp: storable_env_def sample_client_env_def storable_token_def wf_Token_def)

lemma sample_storable_challenge:
  "storable_challenge sample_macaroon_ops sample_lt sample_client_env sample_interceptor
     (storable_token sample_macaroon_ops) (snd (ce_Invoke sample_client_env 0 os))"
proof -
  have "snd (ce_Invoke sample_client_env 0 os) = [sample_challenge]" by (simp add: sample_client_env_def)
  then show ?thesis by (simp add: storable_challenge_def sample_parse sample_pending_storable)
qed

lemma sample_run_invokes: "invokes (cs_trace (fst sample_run)) = 2"
proof -
  let ?st = "file_store_ops sample_macaroon_ops sample_lt (0, 0) sample_io sample_FileStore"
  let ?cs0 = "emit (EvInvoke [Trailer]) \<lparr>cs_store = Map.empty, cs_trace = []\<rparr>"
  let ?rep = "file_rep sample_macaroon_ops sample_lt sample_io sample_FileStore"
  have rep0: "?rep (cs_store ?cs0) NoToken"
    by (simp add: file_rep_def sample_macaroon_lib sample_lt_lib sample_io_ok sample_names)
  obtain cs1 r1 where d1: "do_store ?st ?cs0 sample_pending = (cs1, r1)" by fastforce
  have 1: "r1 = Inr ()" "?rep (cs_store cs1) (Pending sample_pending)"
    using file_store.do_store_rep [OF rep0 sample_pending_storable(2) d1]
    by (simp_all add: isPending_def sample_pending_def)
  let ?cs2 = "emit (EvPay sample_invoice_text 10) cs1"
  let ?t = "sample_pending\<lparr>Preimage := replicate 32 (CHR ''p''), AmountPaid := ce_MSat sample_client_env 5,
      RoutingFeePaid := ce_MSat sample_client_env 1\<rparr>"
  have rep2: "?rep (cs_store ?cs2) (Pending sample_pending)" and st: "storable_token sample_macaroon_ops ?t"
    using 1 sample_pending_storable(1) by simp_all
  obtain cs3 r3 where d3: "do_store ?st ?cs2 ?t = (cs3, r3)" by fastforce
  have 3: "r3 = Inr ()" using file_store.do_store_rep [OF rep2 st d3]
    by (simp add: isPending_def zeroPreimage_def replicate_eq_replicate sample_pending_def)
  have pay: "payLsatToken sample_macaroon_ops sample_lt ?st sample_client_env sample_interceptor ?cs0 [sample_challenge]
      = (cs3, Inr ?t)"
  proof -
    have "ci_maxFee sample_interceptor = 10"
      "ce_PayInvoice sample_client_env sample_invoice_text 10 = PayDone (replicate 32 (CHR ''p'')) 5 1"
      by (simp_all add: sample_interceptor_def sample_client_env_def)
    with d3 3 show ?thesis by (simp add: payLsatToken_def sample_parse d1 1 Let_def)
  qed
  have "invokes (cs_trace cs3) = 1"
    using do_store_trace [OF d1] do_store_trace [OF d3] by simp
  moreover have "st_CurrentToken ?st Map.empty = Inl (Sentinel ErrNoToken)"
    using file_store.current_spec [OF rep0] by simp
  moreover have "\<exists>m. PaidMacaroon sample_macaroon_ops sample_lt ?t = Inr m"
    by (simp add: PaidMacaroon_def BaseMacaroon_def sample_pending_def sample_macaroon_ops_def)
  moreover have "IsPaymentRequired sample_client_env (Some (External ''rpc''))"
    by (simp add: IsPaymentRequired_def sample_client_env_def GRPCErrMessage_def GRPCErrCode_def to_lower_def
        lower_char_def byte_val_def byte_of_def has_prefix_def char_of_eq_iff)
  moreover have "ce_Invoke sample_client_env 0 os = (Some (External ''rpc''), [sample_challenge])" for os
    by (simp add: sample_client_env_def)
  ultimately show ?thesis using pay
    by (auto simp: sample_run_def UnaryInterceptor_def newInterceptContext_def handlePayment_def obtainToken_def
        addLsatCredentials_def Let_def)
qed

lemma second_attempt_uses_stored_token_example:
  "\<exists>t m os. represents sample_macaroon_ops sample_FileStore (cs_store (fst sample_run)) (Paid t) \<and>
     PaidMacaroon sample_macaroon_ops sample_lt t = Inr m \<and> hd (cs_trace (fst sample_run)) = EvInvoke os \<and>
     last os = PerRPCCredentials (NewMacaroonCredential m False)"
  using second_attempt_uses_stored_token [OF sample_macaroon_lib sample_lt_lib sample_io_ok(1) sample_names _
      sample_storable_env sample_storable_challenge, of Map.empty NoToken "(0, 0)" "[]" "fst sample_run" "snd sample_run"]
    sample_run_invokes
  by (simp add: sample_run_def sample_interceptor_def)

theorem paid_client_never_pays_witness:
  "pays (cs_trace (foldl (file_call sample_macaroon_ops sample_lt sample_FileStore sample_interceptor)
     \<lparr>cs_store = sample_paid_fs, cs_trace = []\<rparr> [((0, 0), sample_io, sample_client_env, [])])) = 0"
  using paid_client_never_pays [OF sample_macaroon_lib sample_lt_lib sample_names, where
      cs = "\<lparr>cs_store = sample_paid_fs, cs_trace = []\<rparr>" and t = "sample_Token (CHR ''p'')"
      and calls = "[((0, 0), sample_io, sample_client_env, [])]" and i = sample_interceptor] sample_paid_fs
  by (simp add: sample_io_ok Let_def)

end
