(* ===== verification/Payment_Flow.thy ===== *)
theory Payment_Flow
  imports Proxy Client_Interceptor Relay
begin

text \<open>
  Properties that span the components: from a challenge through its payment to access
  (authenticator, mint, challenger, client), and the terms on which the relay serves the challenger.
\<close>

subsection \<open>From a challenge to access\<close>

lemma challenge_text_split: "challenge_text b req = challengeStart @ b64_encode b @ challengeMiddle @ req @ [CHR 0x22]"
  by (simp add: challenge_text_def challengeStart_def challengeMiddle_def)

lemma client_reads_challenge:
  assumes "CHR 0x22 \<notin> set req" and "CHR 0x0A \<notin> set req"
  shows "authHeaderRegex (challenge_text b req) = Some (b64_encode b, req)"
  unfolding challenge_text_split
  by (rule authHeaderRegex_challenge) (use assms b64_encode_alphabet in \<open>fastforce\<close>)+

text \<open>What a successful challenge has minted.\<close>

lemma FreshChallengeHeader_mints:
  assumes "FreshChallengeHeader mo (mint_minter mo lt ss lim cenv tokenRnd range_order now) hdr n lud price ch = (ch1, hdr', Inr c)"
  obtains mac req where "MintL402 mo ss lim (challenger_NewChallenge cenv) tokenRnd
      [\<lparr>Name = n, Tier = BaseTier, RecipientLud16 = lud, Price = price\<rparr>] (ch_secrets ch, ()) = ((ch_secrets ch1, ()), Inr (mac, req))"
    and "ch1 = ch\<lparr>ch_secrets := ch_secrets ch1\<rparr>"
    and "\<And>b. mac_MarshalBinary mo mac = Inr b \<Longrightarrow> header_Get c WWW_Authenticate = challenge_text b req"
proof -
  obtain s u r where m: "MintL402 mo ss lim (challenger_NewChallenge cenv) tokenRnd
      [\<lparr>Name = n, Tier = BaseTier, RecipientLud16 = lud, Price = price\<rparr>] (ch_secrets ch, ()) = ((s, u), r)" by (metis prod.collapse)
  with assms obtain mac req where r: "r = Inr (mac, req)" and ch1: "ch1 = ch\<lparr>ch_secrets := s\<rparr>"
    and c: "c = header_Set hdr WWW_Authenticate (challenge_text (case mac_MarshalBinary mo mac of Inl e \<Rightarrow> [] | Inr b \<Rightarrow> b) req)"
    by (auto simp: FreshChallengeHeader_def mint_minter_def Let_def split: sum.splits)
  show ?thesis using that [of mac req] m r ch1 c by simp
qed

text \<open>
  C4: a paid challenge opens the service. When a challenge was issued for a service, its text is
  read by the client into the minted macaroon and the invoice; the name of the service has no
  separators of the services caveat; once the node has reported the
  invoice as settled, a request whose header the client makes of that macaroon and the preimage is
  accepted for the service until an hour after the settlement.
\<close>

theorem paid_challenge_opens_service:
  assumes lib: "macaroon_lib mo" "lntypes_lib lt" "\<forall>k m. baked mo k m \<longrightarrow> is_ok (mac_MarshalBinary mo m)"
    and ok: "auth_ok opts env range_order ch" and names: "clean_name n" "\<forall>c \<in> limiter_caveats l. restricting c"
    and ss: "ss = secrets_store_ops opts env rnd created"
    and fresh: "FreshChallengeHeader mo (mint_minter mo lt ss (static_limiter_ops l) cenv tokenRnd range_order now)
        hdr n lud price ch = (ch1, hdr', Inr c)"
    and nc: "NewChallenge cenv lud price = Inr (req, h)" "0 < price" "length h = 32" "h \<notin> dom (settled_of (ch_secrets ch))"
      "CHR 0x22 \<notin> set req" "CHR 0x0A \<notin> set req"
    and settle: "ch_reader ch = InRecv" "RHash i = Some h" "inv_State i = SETTLED"
      "ch2 = fst (reader_recv lt ss t rdy (RecvInvoice i) ch1)"
    and pre: "length p = 32" "lnt_PreimageHash lt p = h"
    and time: "\<not> time_before (time_add (time_Unix (SettleDate i) 0) (seconds 3600)) later"
      "holds_unless_absent (NewTimeoutSatisfier n now') (cond_list (n @ CondTimeoutSuffix)
         (projr (caveatsForServices (static_limiter_ops l) [\<lparr>Name = n, Tier = BaseTier, RecipientLud16 = lud, Price = price\<rparr>])))"
  shows "\<exists>m64 mb mac hd. authHeaderRegex (header_Get c ''WWW-Authenticate'') = Some (m64, req) \<and> b64_decode m64 = Inr mb \<and>
     mac_UnmarshalBinary mo mb = Inr mac \<and> SetHeader mo Map.empty mac (lnt_PreimageString lt p) = Inr hd \<and>
     snd (Accept mo lt (mint_minter mo lt ss (static_limiter_ops l) cenv tokenRnd range_order now')
            (challenger_checker lt ss later []) hd n ch2)"
proof -
  let ?svc = "\<lparr>Name = n, Tier = BaseTier, RecipientLud16 = lud, Price = price\<rparr>"
  let ?prm = "\<lambda>mac. \<lparr>vp_Macaroon = mac, vp_Preimage = p, vp_TargetService = n\<rparr>"
  have so: "secrets_ok opts env (ch_secrets ch)" and ord: "\<And>ks. set (range_order ks) = set ks" using ok by (auto simp: auth_ok_def)
  have pd: "paymentDetailsForMaxPrice [?svc] = (lud, price)" using nc(2) by (simp add: paymentDetailsForMaxPrice_def)
  obtain mac req' where m: "MintL402 mo ss (static_limiter_ops l) (challenger_NewChallenge cenv) tokenRnd [?svc] (ch_secrets ch, ())
        = ((ch_secrets ch1, ()), Inr (mac, req'))" and ch1: "ch1 = ch\<lparr>ch_secrets := ch_secrets ch1\<rparr>"
    and hd: "\<And>b. mac_MarshalBinary mo mac = Inr b \<Longrightarrow> header_Get c WWW_Authenticate = challenge_text b req'"
    by (rule FreshChallengeHeader_mints [OF fresh]) blast
  obtain h' j k where x: "challenger_NewChallenge cenv lud price () = ((), Inr (req', h'))"
    "ss_NewSecret ss (sha256 j) h' (ch_secrets ch) = (ch_secrets ch1, Inr k)" "baked mo k mac"
    by (rule MintL402_ok [OF lib(1) m [unfolded ss]]) (auto simp: pd ss)
  have req: "req' = req" "h' = h" using x(1) nc(1) by (simp_all add: challenger_NewChallenge_def)
  have s1: "secrets_ok opts env (ch_secrets ch1)" "settled_of (ch_secrets ch1) h = Some None"
    using secrets_db.new_spec [OF so x(2) [unfolded ss]] nc(4) by (auto simp: req)
  have v: "snd (VerifyL402 mo lt ss range_order now' (?prm mac) (ch_secrets ch1)) = Inr ()"
    using db_minter.minted_accepted_iff [OF lib(1) so _ _ _ m [unfolded ss] _ nc(3) ord, of lt now' p n] x(1) req names pre(2) time(2)
    by (simp add: pd ss)
  obtain b2 where rr: "reader_recv lt ss t rdy (RecvInvoice i) ch1 = (ch2, b2)" using settle(4) by (metis prod.collapse)
  have rd: "ch_reader ch1 = InRecv" using arg_cong [OF ch1, of ch_reader] settle(1) by simp
  have s2: "invoiceStates ch2 h = Some SETTLED" "settled_of (ch_secrets ch2) h = Some (Some (time_Unix (SettleDate i) 0))"
    using secrets_db.settled_received [OF lib(2) s1(1) rd nc(3) settle(2,3) rr [unfolded ss]] s1(2) by auto
  have s3: "secrets_ok opts env (ch_secrets ch2)" "secrets_of (ch_secrets ch2) = secrets_of (ch_secrets ch1)"
    using secrets_db.reader_recv_secrets [OF s1(1), of lt rnd created t rdy "RecvInvoice i"] rr by (simp_all add: ss)
  obtain mb where mb: "mac_MarshalBinary mo mac = Inr mb" using lib(3) x(3) by (auto simp: is_ok_iff)
  obtain hd' where hd': "SetHeader mo Map.empty mac (lnt_PreimageString lt p) = Inr hd'" using mb by (simp add: SetHeader_def)
  have ok2: "auth_ok opts env range_order ch2" using s3(1) ord by (simp add: auth_ok_def)
  have chk: "\<exists>i k raws. l402_checks mo lt ss now' (?prm mac) (ch_secrets ch2) i k raws"
    using v [unfolded VerifyL402_ok_iff [OF ord]] unfolding ss l402_checks_secrets [OF s1(1) s3(1,2)] .
  have hour: "L402RightExpiryDuration = seconds 3600" by (simp add: L402RightExpiryDuration_def seconds_def wrap64_def)
  let ?acc = "Accept mo lt (mint_minter mo lt ss (static_limiter_ops l) cenv tokenRnd range_order now')
            (challenger_checker lt ss later []) hd' n ch2"
  have acc: "?acc = (ch2, snd ?acc)" using quiet_accept [OF ok2] unfolding ss by (metis prod.collapse)
  have "l402_entitled mo lt ss now' later hd' n ch2"
    unfolding l402_entitled_def hour using FromHeader_SetHeader [OF lib(1,2) pre(1) hd'] chk s2 time(1) pre(2) by (auto simp del: split_paired_Ex)
  with db_accept [OF ok2 acc [unfolded ss]] have a: "snd ?acc" unfolding ss by blast
  have "authHeaderRegex (header_Get c ''WWW-Authenticate'') = Some (b64_encode mb, req)"
    using hd [OF mb] client_reads_challenge [OF nc(5,6)] by (simp add: WWW_Authenticate_def req)
  then show ?thesis using macaroon_lib_Marshal [OF lib(1) mb] hd' a by (metis b64_decode_encode)
qed

subsection \<open>The challenger and the relay\<close>

text \<open>The challenger's request as the relay decodes it: the two JSON structures have the same fields.\<close>

definition relay_request :: "ProxyParameters \<Rightarrow> relay_ProxyParameters" where
  "relay_request p = \<lparr>px_Invoice = pp_Invoice p, px_RoutingMsat = pp_RoutingMsat p,
     px_Description = pp_Description p, px_DescriptionHash = pp_DescriptionHash p\<rparr>"

lemma relay_fee:
  assumes "0 \<le> price" and "price \<le> 1000000"
  shows "uint (routing_fee_msat NewRelay (word_of_int (1000 * price))) = 1000 + price"
proof -
  define a :: "64 word" where "a = word_of_int (1000 * price) * 1000"
  have "uint a = 1000000 * price" using assms by (simp add: a_def uint_word_ariths uint_word_of_int)
  then have "uint (a div 1000000) = price" by (simp add: uint_div)
  then have "uint (1000 + a div 1000000) = 1000 + price" using assms by (simp add: uint_word_ariths)
  then show ?thesis by (simp add: routing_fee_msat_def NewRelay_def a_def)
qed

text \<open>With the default parameters the relay takes the challenger's budget up to a price of 8000 satoshis.\<close>

lemma relay_takes_budget_iff:
  assumes "0 \<le> price" and "price \<le> 1000000"
  shows "is_ok (wrap_value NewRelay (Some (getRoutingMsat price)) m (word_of_int (1000 * price))) \<longleftrightarrow> price \<le> 8000"
proof -
  define f where "f = routing_fee_msat NewRelay (word_of_int (1000 * price))"
  have "uint (1000 + f) = 2000 + price" using relay_fee [OF assms] assms by (simp add: f_def uint_word_ariths)
  then have "getRoutingMsat price < 1000 + f \<longleftrightarrow> max 10000 (3 * price div 100) < 2000 + price"
    using routing_budget [of price] assms by (simp add: word_less_def)
  also have "\<dots> \<longleftrightarrow> 8000 < price" using assms by auto
  finally have g: "getRoutingMsat price < 1000 + f \<longleftrightarrow> 8000 < price" .
  have "MinFeeBudgetMsat NewRelay = 1000" by (simp add: NewRelay_def)
  with g show ?thesis
    unfolding wrap_value_def f_def [symmetric] by (auto simp: Let_def ensure_def)
qed

lemma relay_refuses_price:
  assumes "8000 < price" and "price < 2 ^ 53" and "px_RoutingMsat x = Some (getRoutingMsat price)"
    and "\<And>p. DecodeInvoice ln (px_Invoice x) = Inr p \<Longrightarrow> NumMsat p = word_of_int (1000 * price)"
  shows "\<not> is_ok (wrap NewRelay ln now1 now2 x)"
proof
  assume "is_ok (wrap NewRelay ln now1 now2 x)"
  then obtain q b where "wrap NewRelay ln now1 now2 x = Inr (q, b)" by (auto simp: is_ok_iff)
  then obtain p m where p: "DecodeInvoice ln (px_Invoice x) = Inr p" "check_amount NewRelay (NumMsat p) = Inr ()"
      "is_ok (wrap_value NewRelay (Some (getRoutingMsat price)) m (NumMsat p))"
    unfolding wrap_ok_iff assms(3) is_ok_iff by blast
  have n: "NumMsat p = word_of_int (1000 * price)" by (rule assms(4) [OF p(1)])
  have "uint (word_of_int (1000 * price) :: 64 word) = 1000 * price"
    using assms(1,2) by (subst uint_word_of_int) simp
  moreover have "uint (NumMsat p) \<le> 1000000000"
    using p(2) by (simp add: check_amount_ok NewRelay_def word_le_def)
  ultimately have "price \<le> 1000000" by (simp add: n)
  with relay_takes_budget_iff [of price m] p(3) assms(1) show False by (simp add: n)
qed

lemma relay_error_answer:
  assumes "wrap rp ln now1 now2 x = Inl e"
  shows "\<exists>j. fst (snd (specApiHandler text_of rp ln now1 now2 (Inr x))) = SpecError j \<and> Status j = ''ERROR''"
  using assms by (cases "errors_is e ClientFacing") (simp_all add: specApiHandler_def OpenCircuit_def makeJsonError_def Let_def)

text \<open>
  C33: no challenge costs more than 8000 satoshis. When the relay that serves the challenger runs with
  its default parameters and the recipient's invoice is over the price, every request for a
  challenge over more than 8000 satoshis fails: the routing budget that the challenger offers, 3\% of
  the satoshis taken as millisatoshis, is below the relay's own fee.
\<close>

theorem challenge_price_limit:
  assumes relay: "\<And>p b u. nc_Marshal env p = Inr b \<Longrightarrow>
        nc_Post env u b = Inr (Inr (encode (fst (snd (specApiHandler text_of NewRelay ln now1 now2 (Inr (relay_request p)))))))"
    and json: "\<And>j. Status j = ''ERROR'' \<Longrightarrow> contains (encode (SpecError j)) ''ERROR''"
    and invoice: "\<And>i p. getCreatorInvoice env recipient price = Inr i \<Longrightarrow> DecodeInvoice ln i = Inr p \<Longrightarrow> NumMsat p = word_of_int (1000 * price)"
    and price: "8000 < price" "price < 2 ^ 53"
  shows "\<not> is_ok (NewChallenge env recipient price)"
proof
  assume "is_ok (NewChallenge env recipient price)"
  then obtain w h i where i: "getCreatorInvoice env recipient price = Inr i"
    and r: "requestWrappedInvoice env \<lparr>pp_Invoice = i, pp_RoutingMsat = Some (getRoutingMsat price), pp_Description = None,
      pp_DescriptionHash = None\<rparr> = Inr w" (is "requestWrappedInvoice env ?p = _")
    by (auto simp: is_ok_iff NewChallenge_ok)
  from r obtain b u raw where b: "nc_Marshal env ?p = Inr b" "nc_Post env u b = Inr (Inr raw)" "\<not> contains raw ''ERROR''"
    by (auto simp: requestWrappedInvoice_ok)
  have "\<not> is_ok (wrap NewRelay ln now1 now2 (relay_request ?p))"
    by (rule relay_refuses_price [OF price]) (simp_all add: relay_request_def invoice [OF i])
  then obtain e where "wrap NewRelay ln now1 now2 (relay_request ?p) = Inl e"
    by (cases "wrap NewRelay ln now1 now2 (relay_request ?p)") auto
  then obtain j where "fst (snd (specApiHandler text_of NewRelay ln now1 now2 (Inr (relay_request ?p)))) = SpecError j" "Status j = ''ERROR''"
    using relay_error_answer by blast
  with relay [OF b(1), of u] b(2,3) json show False by auto
qed

subsection \<open>Concrete runs\<close>

lemma sample_marshals: "baked sample_macaroon_ops k m \<Longrightarrow> is_ok (mac_MarshalBinary sample_macaroon_ops m)"
proof -
  have "m \<noteq> []" if "baked sample_macaroon_ops k m" for m
    using that by (induction rule: baked.induct) (auto simp: sample_macaroon_ops_def split: if_splits)
  then show "baked sample_macaroon_ops k m \<Longrightarrow> is_ok (mac_MarshalBinary sample_macaroon_ops m)" by (simp add: sample_macaroon_ops_def)
qed

theorem paid_challenge_opens_service_witness:
  "\<exists>ch2 hd. snd (Accept sample_macaroon_ops sample_hash_ops
     (mint_minter sample_macaroon_ops sample_hash_ops sample_secrets (static_limiter_ops sample_limiter) sample_challenge_env (Inr ''t'') rev (0, 0))
     (challenger_checker sample_hash_ops sample_secrets (time_Unix 3600 0) []) hd ''svc'' ch2)"
proof -
  let ?mn = "mint_minter sample_macaroon_ops sample_hash_ops sample_secrets (static_limiter_ops sample_limiter) sample_challenge_env (Inr ''t'') rev (0, 0)"
  obtain ch1 hdr' c where f: "FreshChallengeHeader sample_macaroon_ops ?mn Map.empty ''svc'' ''u@d'' 7 sample_open_challenger = (ch1, hdr', Inr c)"
    using sample_mint_env [OF sample_challenge]
    by (simp add: FreshChallengeHeader_def mint_minter_def sample_open_challenger_def sample_l402_service_def Let_def)
  have ok: "auth_ok defaultTxExecutorOptions sample_tx_env rev sample_open_challenger"
    using sample_secrets_ok by (simp add: auth_ok_def sample_open_challenger_def)
  have t: "\<not> time_before (time_add (time_Unix (SettleDate sample_invoice) 0) (seconds 3600)) (time_Unix 3600 0)"
    by (simp add: sample_invoice_def time_Unix_def time_add_def sat_add_def wrap64_def seconds_def time_before_def unix_to_internal_def)
  have lim: "holds_unless_absent (NewTimeoutSatisfier ''svc'' (0, 0)) (cond_list (''svc'' @ CondTimeoutSuffix)
      (projr (caveatsForServices (static_limiter_ops sample_limiter) [sample_l402_service])))"
    using services_not_timeout [of "''svc''"] by (simp add: sample_limits cond_list_def holds_unless_absent_def)
  have s: "length sample_hash = 32" "sample_hash \<notin> dom (settled_of (ch_secrets sample_open_challenger))" "ch_reader sample_open_challenger = InRecv"
    "RHash sample_invoice = Some sample_hash" "inv_State sample_invoice = SETTLED" "lnt_PreimageHash sample_hash_ops q = sample_hash"
    "clean_name ''svc''" for q
    by (simp_all add: sample_hash_def sample_open_challenger_def settled_of_def dom_def sample_invoice_def sample_hash_ops_def
        sample_lntypes_ops_def clean_name_def)
  have marshal: "\<forall>k m. baked sample_macaroon_ops k m \<longrightarrow> is_ok (mac_MarshalBinary sample_macaroon_ops m)" using sample_marshals by blast
  show ?thesis
    using paid_challenge_opens_service [where t = "(0, 0)" and rdy = False, OF sample_macaroon_lib sample_hash_lib marshal ok s(7) sample_limiter_restricting sample_secrets_def f
        sample_challenge _ s(1,2) _ _ s(3-5) refl _ s(6) t lim [unfolded sample_l402_service_def], of "replicate 32 (CHR ''p'')"]
    by auto
qed

definition sample_relay_answer :: "spec_body \<Rightarrow> string" where
  "sample_relay_answer b = (case b of SpecError j \<Rightarrow> Status j | WrappedInvoice w \<Rightarrow> w)"

text \<open>A challenger whose relay is asked over a connection that carries requests with a budget of 10000.\<close>

definition sample_served_env :: challenge_env where
  "sample_served_env = sample_challenge_env
     \<lparr>nc_Marshal := (\<lambda>p. if p = \<lparr>pp_Invoice = pp_Invoice p, pp_RoutingMsat = Some 10000, pp_Description = None, pp_DescriptionHash = None\<rparr>
        then Inr (pp_Invoice p) else Inl (External ''json'')),
      nc_Post := (\<lambda>u b. Inr (Inr (sample_relay_answer (fst (snd (specApiHandler (\<lambda>e. []) NewRelay (sample_node 9000000 ''lnbc1'') 1000300 1000300
        (Inr (relay_request \<lparr>pp_Invoice = b, pp_RoutingMsat = Some 10000, pp_Description = None, pp_DescriptionHash = None\<rparr>))))))))\<rparr>"

theorem challenge_price_limit_witness: "\<not> is_ok (NewChallenge sample_served_env ''u@d'' 9000)"
proof -
  show ?thesis
  proof (rule challenge_price_limit [where encode = sample_relay_answer and text_of = "\<lambda>e. []" and ln = "sample_node 9000000 ''lnbc1''"
        and ?now1.0 = 1000300 and ?now2.0 = 1000300])
    fix p b u assume "nc_Marshal sample_served_env p = Inr b"
    then have "p = \<lparr>pp_Invoice = b, pp_RoutingMsat = Some 10000, pp_Description = None, pp_DescriptionHash = None\<rparr>"
      by (auto simp: sample_served_env_def split: if_splits)
    then show "nc_Post sample_served_env u b = Inr (Inr (sample_relay_answer
        (fst (snd (specApiHandler (\<lambda>e. []) NewRelay (sample_node 9000000 ''lnbc1'') 1000300 1000300 (Inr (relay_request p)))))))"
      by (simp add: sample_served_env_def)
  qed (auto simp: sample_relay_answer_def sample_node_def has_prefix_def)
qed

end
