(* ===== verification/L402_Types.thy ===== *)
theory L402_Types
  imports Mint Lsat_Token
begin

text \<open>
  Go keeps hashes, token ids, secrets and preimages in arrays of fixed width; here they are byte
  lists. This theory shows that the encoding as lists loses nothing by it: whatever bytes the decoders are given, what
  they return has the widths of its Go type, and the table of secrets keeps them through every
  operation, whatever faults and concurrent transactions the database meets.
\<close>

subsection \<open>Transactions preserve what their bodies preserve\<close>

lemma execTx_loop_preserves:
  assumes "\<And>i e. P e \<Longrightarrow> P (te_Concurrent env i e)"
    and "\<And>e e' x. P e \<Longrightarrow> body e = Inr (e', x) \<Longrightarrow> P e' \<and> Q x"
    and "P d" and "execTx_loop opts n i ro env body d = (d', r)"
  shows "P d' \<and> (\<forall>x. r = Inr x \<longrightarrow> Q x)"
  using assms(3,4)
proof (induction n arbitrary: i d)
  case (Suc n)
  have p: "P (te_Concurrent env i d)" using Suc.prems(1) by (rule assms(1))
  have body: "run_body env i body (te_Concurrent env i d) = Inr (e', x) \<Longrightarrow> P e' \<and> Q x" for e' x
    using assms(2) [OF p] by (auto simp: run_body_def split: option.splits)
  show ?case
    using Suc.prems(2) Suc.IH [OF p] p body
    by (auto simp: Let_def randRetryDelay_def split: option.splits sum.splits prod.splits if_splits)
qed auto

lemma ExecTx_preserves:
  assumes "\<And>i e. P e \<Longrightarrow> P (te_Concurrent env i e)"
    and "\<And>e e' x. P e \<Longrightarrow> body e = Inr (e', x) \<Longrightarrow> P e' \<and> Q x"
    and "P d" and "ExecTx opts ro env body d = (d', r)"
  shows "P d' \<and> (\<forall>x. r = Inr x \<longrightarrow> Q x)"
  by (rule execTx_loop_preserves [where P = P and Q = Q, OF assms(1) assms(2) assms(3) assms(4) [unfolded ExecTx_def]])

subsection \<open>The contract of a typed store of secrets\<close>

locale typed_secret_store =
  fixes ss :: "'s secret_ops"
    and typed :: "'s \<Rightarrow> bool"
  assumes new_typed: "typed s \<Longrightarrow> length idHash = HashSize \<Longrightarrow> length paymentHash = HashSize \<Longrightarrow>
      ss_NewSecret ss idHash paymentHash s = (s', r) \<Longrightarrow> typed s' \<and> (\<forall>x. r = Inr x \<longrightarrow> length x = SecretSize)"
    and get_typed: "typed s \<Longrightarrow> ss_GetSecret ss idHash s = (s', r') \<Longrightarrow>
      typed s' \<and> (\<forall>x. r' = Inr x \<longrightarrow> length x = SecretSize)"
    and revoke_typed: "typed s \<Longrightarrow> typed (fst (ss_RevokeSecret ss idHash s))"
    and settle_typed: "typed s \<Longrightarrow> typed (fst (ss_SetSettledAt ss paymentHash t s))"
begin

lemma MintL402_typed:
  assumes "typed s" and "macaroon_lib mo"
    and "\<And>lud16 price c' req h. newChallenge lud16 price c = (c', Inr (req, h)) \<Longrightarrow> length h = HashSize"
    and "MintL402 mo ss lim newChallenge rnd services (s, c) = ((s', c'), r)"
  shows "typed s' \<and> (\<forall>mac req. r = Inr (mac, req) \<longrightarrow>
     (\<exists>i. DecodeIdentifier (mac_Id mo mac) = Inr i \<and> wf_Identifier i))"
proof -
  obtain lud16 price where p: "paymentDetailsForMaxPrice services = (lud16, price)" by force
  show ?thesis
  proof (cases "newChallenge lud16 price c")
    case (Pair c1 ch)
    show ?thesis
    proof (cases "\<exists>req h i. ch = Inr (req, h) \<and> createUniqueIdentifier rnd h = Inr i")
      case False
      with p Pair assms(1,4) show ?thesis by (auto simp: MintL402_def Let_def split: sum.splits prod.splits)
    next
      case True
      then obtain req h i where ch: "ch = Inr (req, h)" and i: "createUniqueIdentifier rnd h = Inr i" by blast
      have h: "length h = HashSize" using assms(3) Pair ch by blast
      obtain s1 rs where ns: "ss_NewSecret ss (sha256 i) h s = (s1, rs)" by force
      have s1: "typed s1" using new_typed [OF assms(1) _ h ns] by simp
      have rev: "typed (fst (ss_RevokeSecret ss (sha256 i) s1))" using s1 by (rule revoke_typed)
      have dec: "\<exists>j. DecodeIdentifier i = Inr j \<and> wf_Identifier j"
        using createUniqueIdentifier_ok [OF i] h DecodeIdentifier_wf by fastforce
      have same: "mac_Id mo mac' = i"
        if "mac_New mo k i ''lsat'' = Inr mac" "AddFirstPartyCaveats mo mac cs = Inr mac'" for k mac cs mac'
        using that macaroon_lib_New [OF assms(2)] AddFirstPartyCaveats_effect [OF assms(2)] by metis
      have "mac_Id mo mac = i" if "mac_New mo k i ''lsat'' = Inr mac" for k mac
        using that macaroon_lib_New [OF assms(2)] by blast
      with assms(4) p Pair ch i ns s1 rev dec same show ?thesis
        by (auto simp: MintL402_def Let_def split: sum.splits if_splits)
    qed
  qed
qed

lemma VerifyL402_typed:
  assumes "typed s" and "VerifyL402 mo lt ss range_order now params s = (s', r)"
  shows "typed s'"
  using assms get_typed [OF assms(1)]
  by (auto simp: VerifyL402_def split: sum.splits prod.splits if_splits)

end

subsection \<open>The table of secrets is typed\<close>

definition typed_row :: "secret_row \<Rightarrow> bool" where
  "typed_row r \<longleftrightarrow> length (sr_macaroon_id_hash r) = HashSize \<and> length (sr_payment_hash r) = HashSize \<and>
     length (sr_secret r) = SecretSize"

definition typed_secrets :: "secrets_table \<Rightarrow> bool" where
  "typed_secrets tbl \<longleftrightarrow> (\<forall>r \<in> set tbl. typed_row r)"

text \<open>Transactions of others run between the attempts, and write typed rows too.\<close>

definition typed_env :: "secrets_table tx_env \<Rightarrow> bool" where
  "typed_env env \<longleftrightarrow> (\<forall>i tbl. typed_secrets tbl \<longrightarrow> typed_secrets (te_Concurrent env i tbl))"

lemma typed_ExecTx:
  assumes "typed_env env" and "typed_secrets tbl" and "ExecTx opts ro env body tbl = (tbl', r)"
    and "\<And>e e' x. typed_secrets e \<Longrightarrow> body e = Inr (e', x) \<Longrightarrow> typed_secrets e' \<and> Q x"
  shows "typed_secrets tbl' \<and> (\<forall>x. r = Inr x \<longrightarrow> Q x)"
proof (rule ExecTx_preserves [where P = typed_secrets and Q = Q, OF _ _ assms(2,3)])
  show "typed_secrets e \<Longrightarrow> typed_secrets (te_Concurrent env i e)" for i e using assms(1) by (simp add: typed_env_def)
qed (rule assms(4))

interpretation typed_db: typed_secret_store "secrets_store_ops opts env rnd now"
  "\<lambda>tbl. typed_env env \<and> typed_secrets tbl"
proof
  fix s idHash paymentHash s' r
  assume t: "typed_env env \<and> typed_secrets s" and l: "length idHash = HashSize" "length paymentHash = HashSize"
    and n: "ss_NewSecret (secrets_store_ops opts env rnd now) idHash paymentHash s = (s', r)"
  show "(typed_env env \<and> typed_secrets s') \<and> (\<forall>x. r = Inr x \<longrightarrow> length x = SecretSize)"
  proof (cases rnd)
    case (Inl e)
    with n t show ?thesis by (auto simp: secrets_store_ops_def NewSecret_def)
  next
    case (Inr random)
    let ?row = "\<lparr>sr_macaroon_id_hash = idHash, sr_payment_hash = paymentHash, sr_secret = to_array SecretSize random,
         sr_settled_at = None, sr_created_at = now\<rparr>"
    obtain tbl' q where e: "ExecTx opts False env (InsertSecret ?row) s = (tbl', q)" by force
    have row: "typed_row ?row" using l by (simp add: typed_row_def)
    have "typed_secrets d' \<and> True" if "typed_secrets d" "InsertSecret ?row d = Inr (d', x)" for d d' x
      using that row unfolding InsertSecret_def typed_secrets_def by (fastforce split: if_split_asm)
    with t have "typed_secrets tbl'" using typed_ExecTx [where Q = "\<lambda>_. True", OF _ _ e] by blast
    with n t Inr e show ?thesis by (auto simp: secrets_store_ops_def NewSecret_def split: sum.splits)
  qed
next
  fix s idHash s' r'
  assume t: "typed_env env \<and> typed_secrets s"
    and g: "ss_GetSecret (secrets_store_ops opts env rnd now) idHash s = (s', r')"
  obtain tbl' q where e: "ExecTx opts True env (get_secret_body idHash) s = (tbl', q)" by force
  have "typed_secrets tbl' \<and> (\<forall>x. q = Inr x \<longrightarrow> length x = SecretSize)"
    using t by (intro typed_ExecTx [OF _ _ e]) (auto simp: get_secret_body_def split: sum.splits if_splits)
  with g t e show "(typed_env env \<and> typed_secrets s') \<and> (\<forall>x. r' = Inr x \<longrightarrow> length x = SecretSize)"
    by (auto simp: secrets_store_ops_def GetSecret_def split: sum.splits)
next
  fix s idHash assume t: "typed_env env \<and> typed_secrets s"
  obtain tbl' q where e: "ExecTx opts False env (\<lambda>t. Inr (fst (DeleteSecretByIdHash idHash t), ())) s = (tbl', q)" by force
  have "typed_secrets (fst (DeleteSecretByIdHash idHash d)) \<and> True" if "typed_secrets d" for d
    using that by (auto simp: DeleteSecretByIdHash_def typed_secrets_def)
  with t have "typed_secrets tbl'" using typed_ExecTx [where Q = "\<lambda>_. True", OF _ _ e] by blast
  with t e show "typed_env env \<and> typed_secrets (fst (ss_RevokeSecret (secrets_store_ops opts env rnd now) idHash s))"
    by (auto simp: secrets_store_ops_def RevokeSecret_def split: sum.splits)
next
  fix s paymentHash u assume t: "typed_env env \<and> typed_secrets s"
  obtain tbl' q where e: "ExecTx opts False env (\<lambda>t. Inr (SetSettledAtByPaymentHash_q paymentHash u t, ())) s = (tbl', q)" by force
  have "typed_secrets (SetSettledAtByPaymentHash_q paymentHash u d) \<and> True" if "typed_secrets d" for d
    using that by (auto simp: SetSettledAtByPaymentHash_q_def typed_secrets_def typed_row_def)
  with t have "typed_secrets tbl'" using typed_ExecTx [where Q = "\<lambda>_. True", OF _ _ e] by blast
  with t e show "typed_env env \<and> typed_secrets (fst (ss_SetSettledAt (secrets_store_ops opts env rnd now) paymentHash u s))"
    by (auto simp: secrets_store_ops_def SetSettledAtByPaymentHash_def split: sum.splits)
qed

subsection \<open>The decoders are typed\<close>

definition typed_Token :: "'m Token \<Rightarrow> bool" where
  "typed_Token t \<longleftrightarrow> length (tok_PaymentHash t) = HashSize \<and> length (Preimage t) = 32 \<and> storable_time (TimeCreated t)"

text \<open>Every 64 bits of nanoseconds are an instant that can be stored again.\<close>

lemma time_Unix_storable:
  assumes "in_int64 n"
  shows "storable_time (time_Unix 0 n)"
proof -
  have "- 9223372037 \<le> n div 1000000000" and "n div 1000000000 \<le> 9223372037"
    using assms by (auto simp: in_int64_def)
  then have s: "in_int64 (n div 1000000000)" "in_int64 (n div 1000000000 + unix_to_internal)"
    by (simp_all add: in_int64_def unix_to_internal_def)
  have "n div 1000000000 * 1000000000 + n mod 1000000000 = n" by simp
  with s assms show ?thesis by (simp add: storable_time_def time_Unix_def wrap64_id)
qed

lemma deserializeToken_typed:
  assumes "lntypes_lib lt" and "deserializeToken mo lt now r = Inr t"
  shows "typed_Token t"
proof -
  have hash: "tokenFromChallenge mo lt now b h = Inr tok \<Longrightarrow> length (tok_PaymentHash tok) = 32" for b h tok
    using assms(1) by (auto simp: tokenFromChallenge_def lntypes_lib_def result_simps split: sum.splits)
  have "length (tok_PaymentHash t) = 32 \<and> length (Preimage t) = 32 \<and> (\<exists>n. TimeCreated t = time_Unix 0 (wrap64 n))"
    using assms(2) hash
    by (auto simp: deserializeToken_def rbind_eq_Inr read_full_ok_iff cong del: rbind_cong)
  then show ?thesis using time_Unix_storable [OF wrap64_range] by (auto simp: typed_Token_def)
qed

subsection \<open>All of it together\<close>

text \<open>
  The widths of Go's arrays are kept. Whatever bytes they read, the identifier of a macaroon,
  the preimage of a credential, a token file and a token id decode to values of the widths of their
  types, or not at all. A table of secrets whose rows have these widths keeps them through minting
  and verification, for every fault of the database and every concurrent transaction that keeps
  them, also when minting fails; and an L402 that was minted has an identifier that decodes.
\<close>

lemma l402_well_typed:
  assumes "lntypes_lib lt" and "macaroon_lib mo" and "typed_env env" and "typed_secrets tbl"
    and "\<forall>lud16 price c' req h. newChallenge lud16 price c = (c', Inr (req, h)) \<longrightarrow> length h = HashSize"
  shows "(\<forall>r i. DecodeIdentifier r = Inr i \<longrightarrow> wf_Identifier i)
     \<and> (\<forall>header mac preimage. FromHeader mo lt header = Inr (mac, preimage) \<longrightarrow> length preimage = 32)
     \<and> (\<forall>now r t. deserializeToken mo lt now r = Inr t \<longrightarrow> typed_Token t)
     \<and> (\<forall>s t. MakeIDFromString s = Inr t \<longrightarrow> length t = TokenIDSize)
     \<and> (\<forall>tbl' c' r. MintL402 mo (secrets_store_ops opts env rnd now) lim newChallenge rnd' services (tbl, c) = ((tbl', c'), r) \<longrightarrow>
          typed_secrets tbl' \<and> (\<forall>mac req. r = Inr (mac, req) \<longrightarrow> (\<exists>i. DecodeIdentifier (mac_Id mo mac) = Inr i \<and> wf_Identifier i)))
     \<and> (\<forall>params now' tbl' r. VerifyL402 mo lt (secrets_store_ops opts env rnd now) range_order now' params tbl = (tbl', r) \<longrightarrow>
          typed_secrets tbl')"
proof -
  have t: "typed_env env \<and> typed_secrets tbl" using assms(3,4) by simp
  have "typed_secrets tbl' \<and> (\<forall>mac req. r = Inr (mac, req) \<longrightarrow> (\<exists>i. DecodeIdentifier (mac_Id mo mac) = Inr i \<and> wf_Identifier i))"
    if m: "MintL402 mo (secrets_store_ops opts env rnd now) lim newChallenge rnd' services (tbl, c) = ((tbl', c'), r)" for tbl' c' r
    using typed_db.MintL402_typed [OF t assms(2) _ m] assms(5) by blast
  moreover have "typed_secrets tbl'"
    if v: "VerifyL402 mo lt (secrets_store_ops opts env rnd now) range_order now' params tbl = (tbl', r)" for params now' tbl' r
    using typed_db.VerifyL402_typed [OF t v] by simp
  ultimately show ?thesis
    using DecodeIdentifier_wf FromHeader_preimage_length [OF assms(1)] deserializeToken_typed [OF assms(1)] MakeIDFromString_length
    by (intro conjI allI impI) simp_all
qed

lemma sample_typed_env: "typed_env sample_tx_env"
  by (simp add: typed_env_def sample_tx_env_def)

lemma l402_well_typed_example:
  "\<exists>i. DecodeIdentifier (mac_Id sample_macaroon_ops sample_mac) = Inr i \<and> wf_Identifier i"
proof -
  have c: "\<forall>lud16 price c' req h. sample_challenger lud16 price 0 = (c', Inr (req, h)) \<longrightarrow> length h = HashSize"
    by (simp add: sample_challenger_def sample_hash_def)
  have e: "typed_secrets []" by (simp add: typed_secrets_def)
  from l402_well_typed [where newChallenge = sample_challenger and c = 0, OF sample_lntypes_lib sample_macaroon_lib sample_typed_env e c] sample_mint_run
  show ?thesis unfolding sample_mint_def sample_secrets_def by blast
qed

end
