(* ===== verification/Marketplace.thy ===== *)
theory Marketplace
  imports Payment_Flow L402_Types
begin

text \<open>
  The proxy, the relay and the node together: requests that are sold a challenge, circuits of the
  relay, the invoice stream of the challenger, restarts of the proxy, in any interleaving. What the
  components are shown to do one by one adds up to the promise of the whole program: whoever gets
  access, the seller was paid before.
\<close>

subsection \<open>The state and its steps\<close>

text \<open>
  A request for a challenge (\<^verbatim>\<open>FreshChallengeHeader\<close>): its header and service, the environment of the
  challenger (the seller's server and the connection to the relay), the random bytes of token id and
  secret, the time, and the faults of the database.
\<close>

record sale =
  sl_header :: http_header
  sl_name :: string
  sl_lud :: string
  sl_price :: int
  sl_env :: challenge_env
  sl_token :: "bytes result"
  sl_secret :: "bytes result"
  sl_now :: time
  sl_order :: "string list \<Rightarrow> string list"
  sl_db :: "secrets_table tx_env"

text \<open>
  \<open>mk_issued\<close> and \<open>mk_sales\<close> are records of what happened: the requests the relay answered with a wrapped
  invoice, that invoice and its payment hash; the sales that got an invoice, and its payment hash.
\<close>

record market =
  mk_relay :: relay_system
  mk_ch :: "secrets_table LnproxyChallenger"
  mk_issued :: "(relay_ProxyParameters \<times> string \<times> bytes) list"
  mk_sales :: "(sale \<times> bytes) list"

datatype market_event =
    MkRelay relay_event
  | MkSell sale
  | MkPoll
  | MkRecv "secrets_table tx_env" time bool recv
  | MkRestart time "lnrpc_Invoice list result" "u64 \<Rightarrow> u64 \<Rightarrow> unit result"

definition issued_by :: "RelayParameters \<Rightarrow> relay_event \<Rightarrow> relay_system \<Rightarrow> (relay_ProxyParameters \<times> string \<times> bytes) list" where
  "issued_by rp ev s =
     (case ev of
        EvRequest ln now1 now2 x \<Rightarrow>
          if \<not> rs_alive s then []
          else (case OpenCircuit rp ln now1 now2 x of (Some (h, _), Inr w) \<Rightarrow> [(x, w, h)] | _ \<Rightarrow> [])
      | EvAnswer i a \<Rightarrow> [])"

definition sale_challenge :: "sale \<Rightarrow> (string \<times> bytes) result" where
  "sale_challenge a =
     (case paymentDetailsForMaxPrice [\<lparr>Name = sl_name a, Tier = BaseTier, RecipientLud16 = sl_lud a, Price = sl_price a\<rparr>] of
        (lud, price) \<Rightarrow> NewChallenge (sl_env a) lud price)"

definition sell :: "'m macaroon_ops \<Rightarrow> lntypes_ops \<Rightarrow> txExecutorOptions \<Rightarrow> limiter_ops \<Rightarrow> sale \<Rightarrow> market \<Rightarrow> market" where
  "sell mo lt opts lim a m =
     m\<lparr>mk_ch := fst (FreshChallengeHeader mo
          (mint_minter mo lt (secrets_store_ops opts (sl_db a) (sl_secret a) (sl_now a)) lim (sl_env a) (sl_token a) (sl_order a) (sl_now a))
          (sl_header a) (sl_name a) (sl_lud a) (sl_price a) (mk_ch m)),
       mk_sales := mk_sales m @ (case sale_challenge a of Inl e \<Rightarrow> [] | Inr (req, h) \<Rightarrow> [(a, h)])\<rparr>"

text \<open>The secret store of the reader makes no secrets, so it needs no random bytes.\<close>

fun market_step :: "RelayParameters \<Rightarrow> 'm macaroon_ops \<Rightarrow> lntypes_ops \<Rightarrow> txExecutorOptions \<Rightarrow> limiter_ops
    \<Rightarrow> market_event \<Rightarrow> market \<Rightarrow> market" where
  "market_step rp mo lt opts lim (MkRelay ev) m =
     m\<lparr>mk_relay := relay_step rp ev (mk_relay m), mk_issued := mk_issued m @ issued_by rp ev (mk_relay m)\<rparr>"
| "market_step rp mo lt opts lim (MkSell a) m = sell mo lt opts lim a m"
| "market_step rp mo lt opts lim MkPoll m = m\<lparr>mk_ch := reader_poll (mk_ch m)\<rparr>"
| "market_step rp mo lt opts lim (MkRecv env now rdy r) m =
     m\<lparr>mk_ch := fst (reader_recv lt (secrets_store_ops opts env (Inr []) now) now rdy r (mk_ch m))\<rparr>"
| "market_step rp mo lt opts lim (MkRestart now listed subscribe) m =
     (case NewLnproxyChallenger True lt now listed subscribe (ch_secrets (mk_ch m)) of
        Inl e \<Rightarrow> m | Inr ch \<Rightarrow> m\<lparr>mk_ch := ch\<rparr>)"

subsection \<open>What the world around promises\<close>

text \<open>The node was told to settle the hold invoice of a circuit, with a preimage of its payment hash.\<close>

definition claimed :: "lntypes_ops \<Rightarrow> relay_system \<Rightarrow> bytes \<Rightarrow> bool" where
  "claimed lt s h \<longleftrightarrow> (\<exists>c \<in> set (rs_circuits s). ci_hash c = h \<and>
     (\<exists>pre. CallSettle pre \<in> set (ci_calls c) \<and> lnt_PreimageHash lt pre = h))"

text \<open>
  The node adds one invoice per payment hash, and reports a hold invoice of the relay as settled only
  after \<^verbatim>\<open>SettleInvoice\<close> with a preimage. Over the connection to the relay the challenger reads what the
  relay answered to its request. An invoice decodes to the payment hash it was added with. The proxy is
  the only writer of its table; faults of the database are not restricted.
\<close>

definition relay_answers :: "market \<Rightarrow> challenge_env \<Rightarrow> bool" where
  "relay_answers m env \<longleftrightarrow>
     (\<forall>p b u raw w. nc_Marshal env p = Inr b \<longrightarrow> nc_Post env u b = Inr (Inr raw) \<longrightarrow> \<not> contains raw ''ERROR'' \<longrightarrow>
        nc_ProxyInvoice env raw = Inr w \<longrightarrow> (\<exists>h. (relay_request p, w, h) \<in> set (mk_issued m))) \<and>
     (\<forall>(x, w, h) \<in> set (mk_issued m). \<forall>h'. nc_Decode env w = Inr (Some h') \<longrightarrow> h' = h)"

definition market_law :: "lntypes_ops \<Rightarrow> market \<Rightarrow> market_event \<Rightarrow> bool" where
  "market_law lt m ev \<longleftrightarrow>
     (case ev of
        MkRelay e \<Rightarrow> node_law (mk_relay m) e
      | MkSell a \<Rightarrow> relay_answers m (sl_env a) \<and> sole_writer (sl_db a)
      | MkPoll \<Rightarrow> True
      | MkRecv env now rdy r \<Rightarrow> sole_writer env \<and>
          (case r of
             RecvInvoice i \<Rightarrow> (\<forall>h. RHash i = Some h \<longrightarrow> inv_State i = SETTLED \<longrightarrow>
                h \<in> ci_hash ` set (rs_circuits (mk_relay m)) \<longrightarrow> claimed lt (mk_relay m) h)
           | _ \<Rightarrow> True)
      | MkRestart now listed subscribe \<Rightarrow> True)"

definition market_start :: "market \<Rightarrow> bool" where
  "market_start m \<longleftrightarrow> mk_relay m = \<lparr>rs_alive = True, rs_circuits = []\<rparr> \<and> ch_secrets (mk_ch m) = [] \<and>
     mk_issued m = [] \<and> mk_sales m = []"

inductive market_reach :: "RelayParameters \<Rightarrow> 'm macaroon_ops \<Rightarrow> lntypes_ops \<Rightarrow> txExecutorOptions \<Rightarrow> limiter_ops \<Rightarrow> market \<Rightarrow> bool"
  for rp mo lt opts lim where
  start: "market_start m \<Longrightarrow> market_reach rp mo lt opts lim m"
| step: "market_reach rp mo lt opts lim m \<Longrightarrow> market_law lt m ev \<Longrightarrow> market_reach rp mo lt opts lim (market_step rp mo lt opts lim ev m)"

subsection \<open>Rows of the table of secrets\<close>

lemma MintL402_rows:
  assumes "sole_writer env" and "\<forall>r \<in> set tbl. P r"
    and "\<And>i k req h. challenge = Inr (req, h) \<Longrightarrow>
      P \<lparr>sr_macaroon_id_hash = i, sr_payment_hash = h, sr_secret = k, sr_settled_at = None, sr_created_at = now\<rparr>"
    and "newChallenge (fst (paymentDetailsForMaxPrice services)) (snd (paymentDetailsForMaxPrice services)) c = (c', challenge)"
  shows "\<forall>r \<in> set (fst (fst (MintL402 mo (secrets_store_ops opts env rnd now) lim newChallenge rnd' services (tbl, c)))). P r"
proof -
  let ?ss = "secrets_store_ops opts env rnd now"
  obtain lud price where pd: "paymentDetailsForMaxPrice services = (lud, price)" by force
  show ?thesis
  proof (cases "\<exists>req h i. challenge = Inr (req, h) \<and> createUniqueIdentifier rnd' h = Inr i")
    case False
    with pd assms(2,4) show ?thesis by (auto simp: MintL402_def Let_def split: sum.splits prod.splits)
  next
    case True
    then obtain req h i where ch: "challenge = Inr (req, h)" and i: "createUniqueIdentifier rnd' h = Inr i" by blast
    obtain s1 rs where ns: "ss_NewSecret ?ss (sha256 i) h tbl = (s1, rs)" by force
    have s1: "\<forall>r \<in> set s1. P r"
      using NewSecret_rows [where P = P and i = "sha256 i" and h = h and opts = opts and rnd = rnd, OF assms(1,2) assms(3) [OF ch]] ns by simp
    have rv: "\<forall>r \<in> set (fst (ss_RevokeSecret ?ss (sha256 i) s1)). P r" by (rule RevokeSecret_rows [OF assms(1) s1])
    from pd assms(4) ch i ns s1 rv show ?thesis by (auto simp: MintL402_def Let_def split: sum.splits)
  qed
qed

subsection \<open>The invariant\<close>

text \<open>Circuits are never forgotten, and keep their arguments and the calls they have made.\<close>

definition goes_on :: "circuit \<Rightarrow> circuit \<Rightarrow> bool" where
  "goes_on c c' \<longleftrightarrow> ci_hash c' = ci_hash c \<and> ci_invoice c' = ci_invoice c \<and> set (ci_calls c) \<subseteq> set (ci_calls c')"

lemma goes_on_refl [simp]: "goes_on c c"
  by (simp add: goes_on_def)

lemma circuit_step_goes_on: "goes_on c (circuit_step rp a c)"
  by (auto simp: goes_on_def circuit_step_def enter_def split: circuit_phase.splits ln_answer.splits sum.splits)

lemma relay_step_goes_on:
  assumes "c \<in> set (rs_circuits s)"
  obtains c' where "c' \<in> set (rs_circuits (relay_step rp ev s))" "goes_on c c'"
proof (cases ev)
  case (EvRequest ln now1 now2 x)
  show ?thesis
    by (rule relay_step_request [of rp ln now1 now2 x s]; rule that [of c]; use assms EvRequest in auto)
next
  case (EvAnswer i a)
  obtain j where j: "j < length (rs_circuits s)" "rs_circuits s ! j = c" using assms by (auto simp: in_set_conv_nth)
  show ?thesis
  proof (cases "rs_alive s \<and> i = j")
    case True
    thus ?thesis using that [of "circuit_step rp a c"] EvAnswer j circuit_step_goes_on by (simp add: Let_def set_update_memI)
  next
    case False
    hence "c \<in> set (rs_circuits (relay_step rp ev s))"
      using EvAnswer j assms by (auto simp: Let_def in_set_conv_nth nth_list_update)
    thus ?thesis using that by simp
  qed
qed

lemma claimed_mono: "claimed lt s h \<Longrightarrow> claimed lt (relay_step rp ev s) h"
proof -
  assume "claimed lt s h"
  then obtain c pre where c: "c \<in> set (rs_circuits s)" "ci_hash c = h" "CallSettle pre \<in> set (ci_calls c)" "lnt_PreimageHash lt pre = h"
    unfolding claimed_def by blast
  obtain c' where "c' \<in> set (rs_circuits (relay_step rp ev s))" "goes_on c c'" using relay_step_goes_on [OF c(1)] .
  thus ?thesis using c unfolding claimed_def goes_on_def by blast
qed

definition opened_for :: "relay_system \<Rightarrow> string \<Rightarrow> bytes \<Rightarrow> bool" where
  "opened_for s invoice h \<longleftrightarrow> (\<exists>c \<in> set (rs_circuits s). ci_hash c = h \<and> ci_invoice c = invoice)"

lemma opened_for_mono: "opened_for s i h \<Longrightarrow> opened_for (relay_step rp ev s) i h"
proof -
  assume "opened_for s i h"
  then obtain c where c: "c \<in> set (rs_circuits s)" "ci_hash c = h" "ci_invoice c = i" unfolding opened_for_def by blast
  obtain c' where "c' \<in> set (rs_circuits (relay_step rp ev s))" "goes_on c c'" using relay_step_goes_on [OF c(1)] .
  thus ?thesis using c unfolding opened_for_def goes_on_def by blast
qed

lemma issued_opened:
  assumes "(x, w, h) \<in> set (issued_by rp ev s)"
  shows "opened_for (relay_step rp ev s) (px_Invoice x) h"
proof (cases ev)
  case (EvRequest ln now1 now2 y)
  then obtain q b where "rs_alive s" "x = y" "OpenCircuit rp ln now1 now2 x = (Some (h, q, b), Inr w)"
    using assms by (auto simp: issued_by_def split: if_splits prod.splits option.splits sum.splits dest: sym)
  moreover from this obtain iq where "wrap rp ln now1 now2 x = Inr (iq, b)" "q = px_Invoice x"
    using OpenCircuit_opens [of rp ln now1 now2 x h q b] by auto
  ultimately show ?thesis using EvRequest by (auto simp: opened_for_def new_circuit_def)
qed (use assms in \<open>simp add: issued_by_def\<close>)

text \<open>Every row belongs to a sale, and is settled only after the relay claimed the payment.\<close>

definition row_ok :: "lntypes_ops \<Rightarrow> relay_system \<Rightarrow> (sale \<times> bytes) set \<Rightarrow> secret_row \<Rightarrow> bool" where
  "row_ok lt s sales r \<longleftrightarrow> (\<exists>a. (a, sr_payment_hash r) \<in> sales) \<and> (sr_settled_at r \<noteq> None \<longrightarrow> claimed lt s (sr_payment_hash r))"

definition sale_ok :: "relay_system \<Rightarrow> sale \<times> bytes \<Rightarrow> bool" where
  "sale_ok s ah \<longleftrightarrow> (case ah of (a, h) \<Rightarrow>
     \<exists>invoice. getCreatorInvoice (sl_env a) (sl_lud a) (sl_price a) = Inr invoice \<and> opened_for s invoice h)"

definition market_inv :: "RelayParameters \<Rightarrow> lntypes_ops \<Rightarrow> market \<Rightarrow> bool" where
  "market_inv rp lt m \<longleftrightarrow> relay_inv rp (mk_relay m) \<and>
     (\<forall>(x, w, h) \<in> set (mk_issued m). opened_for (mk_relay m) (px_Invoice x) h) \<and>
     (\<forall>ah \<in> set (mk_sales m). sale_ok (mk_relay m) ah) \<and>
     (\<forall>r \<in> set (ch_secrets (mk_ch m)). row_ok lt (mk_relay m) (set (mk_sales m)) r)"

text \<open>The terms of a sale that got an invoice are those of the request: a price that is not positive gets none.\<close>

lemma sale_challenge_terms:
  assumes "sale_challenge a = Inr (req, h)"
  shows "NewChallenge (sl_env a) (sl_lud a) (sl_price a) = Inr (req, h)"
proof (cases "0 < sl_price a")
  case False
  hence "NewChallenge (sl_env a) [] 0 = Inr (req, h)"
    using assms by (simp add: sale_challenge_def paymentDetailsForMaxPrice_def)
  hence "is_ok (NewLnurl [])" by (auto simp: NewChallenge_ok getCreatorInvoice_ok is_ok_iff)
  thus ?thesis by (auto simp: is_ok_iff NewLnurl_ok_iff)
qed (use assms in \<open>simp add: sale_challenge_def paymentDetailsForMaxPrice_def\<close>)

lemma relay_answersD:
  assumes "relay_answers m env"
  shows "nc_Marshal env p = Inr b \<Longrightarrow> nc_Post env u b = Inr (Inr raw) \<Longrightarrow> \<not> contains raw ''ERROR'' \<Longrightarrow>
      nc_ProxyInvoice env raw = Inr w \<Longrightarrow> \<exists>h. (relay_request p, w, h) \<in> set (mk_issued m)"
    and "(x, w', h) \<in> set (mk_issued m) \<Longrightarrow> nc_Decode env w' = Inr (Some h') \<Longrightarrow> h' = h"
  using assms unfolding relay_answers_def by fast+

lemma sold_opened:
  assumes "relay_answers m (sl_env a)" and "market_inv rp lt m" and "sale_challenge a = Inr (req, h)"
  shows "sale_ok (mk_relay m) (a, h)"
proof -
  obtain c where c: "getCreatorInvoice (sl_env a) (sl_lud a) (sl_price a) = Inr c"
    and w: "requestWrappedInvoice (sl_env a) \<lparr>pp_Invoice = c, pp_RoutingMsat = Some (getRoutingMsat (sl_price a)),
       pp_Description = None, pp_DescriptionHash = None\<rparr> = Inr req" (is "requestWrappedInvoice _ ?p = _")
    and d: "nc_Decode (sl_env a) req = Inr (Some h)"
    using sale_challenge_terms [OF assms(3)] unfolding NewChallenge_ok by blast
  obtain b u raw where r: "nc_Marshal (sl_env a) ?p = Inr b" "nc_Post (sl_env a) u b = Inr (Inr raw)"
    "\<not> contains raw ''ERROR''" "nc_ProxyInvoice (sl_env a) raw = Inr req"
    using w unfolding requestWrappedInvoice_ok by blast
  obtain h' where i: "(relay_request ?p, req, h') \<in> set (mk_issued m)" using relay_answersD(1) [OF assms(1) r] by blast
  have "h = h'" by (rule relay_answersD(2) [OF assms(1) i d])
  moreover have "opened_for (mk_relay m) (px_Invoice (relay_request ?p)) h'" using assms(2) i unfolding market_inv_def by blast
  ultimately show ?thesis using c by (simp add: sale_ok_def relay_request_def)
qed

lemma market_inv_relay:
  assumes inv: "market_inv rp lt m" and law: "node_law (mk_relay m) ev"
  shows "market_inv rp lt (market_step rp mo lt opts lim (MkRelay ev) m)"
proof -
  let ?s = "relay_step rp ev (mk_relay m)"
  have "relay_inv rp ?s"
    using inv law by (cases ev) (simp_all add: market_inv_def relay_inv_request relay_inv_answer del: relay_step.simps)
  moreover have "opened_for ?s (px_Invoice x) h" if "(x, w, h) \<in> set (mk_issued m @ issued_by rp ev (mk_relay m))" for x w h
    using that inv issued_opened opened_for_mono unfolding market_inv_def by fastforce
  moreover have "sale_ok ?s ah" if "ah \<in> set (mk_sales m)" for ah
    using that inv opened_for_mono unfolding market_inv_def sale_ok_def by fastforce
  moreover have "row_ok lt ?s (set (mk_sales m)) r" if "r \<in> set (ch_secrets (mk_ch m))" for r
    using that inv claimed_mono unfolding market_inv_def row_ok_def by blast
  ultimately show ?thesis unfolding market_inv_def by (simp add: case_prod_beta del: relay_step.simps) fastforce
qed

lemma sell_rows:
  assumes "\<forall>r \<in> set (ch_secrets (mk_ch m)). P r" and "sole_writer (sl_db a)"
    and "\<And>i k req h. sale_challenge a = Inr (req, h) \<Longrightarrow>
      P \<lparr>sr_macaroon_id_hash = i, sr_payment_hash = h, sr_secret = k, sr_settled_at = None, sr_created_at = sl_now a\<rparr>"
  shows "\<forall>r \<in> set (ch_secrets (mk_ch (sell mo lt opts lim a m))). P r"
proof -
  let ?svc = "\<lparr>Name = sl_name a, Tier = BaseTier, RecipientLud16 = sl_lud a, Price = sl_price a\<rparr>"
  let ?mint = "MintL402 mo (secrets_store_ops opts (sl_db a) (sl_secret a) (sl_now a)) lim (challenger_NewChallenge (sl_env a))
    (sl_token a) [?svc] (ch_secrets (mk_ch m), ())"
  have "ch_secrets (mk_ch (sell mo lt opts lim a m)) = fst (fst ?mint)"
    by (simp add: sell_def FreshChallengeHeader_def mint_minter_def Let_def split: prod.split sum.split)
  moreover have nc: "challenger_NewChallenge (sl_env a) (fst (paymentDetailsForMaxPrice [?svc])) (snd (paymentDetailsForMaxPrice [?svc])) ()
      = ((), sale_challenge a)"
    by (simp add: challenger_NewChallenge_def sale_challenge_def case_prod_beta)
  moreover have "\<forall>r \<in> set (fst (fst ?mint)). P r"
    by (rule MintL402_rows [where P = P and challenge = "sale_challenge a" and c' = "()"]) (use assms nc in simp_all)
  ultimately show ?thesis by (simp only:)
qed

lemma market_inv_sell:
  assumes inv: "market_inv rp lt m" and law: "relay_answers m (sl_env a)" "sole_writer (sl_db a)"
  shows "market_inv rp lt (sell mo lt opts lim a m)"
proof -
  let ?m = "sell mo lt opts lim a m"
  let ?new = "case sale_challenge a of Inl e \<Rightarrow> [] | Inr (req, h) \<Rightarrow> [(a, h)]"
  have e: "mk_relay ?m = mk_relay m" "mk_issued ?m = mk_issued m" "mk_sales ?m = mk_sales m @ ?new" by (simp_all add: sell_def)
  have "\<forall>r \<in> set (ch_secrets (mk_ch ?m)). row_ok lt (mk_relay m) (set (mk_sales m @ ?new)) r"
    using inv by (intro sell_rows [OF _ law(2)]) (auto simp: market_inv_def row_ok_def)
  moreover have "sale_ok (mk_relay m) ah" if "ah \<in> set ?new" for ah
    using that sold_opened [OF law(1) inv] by (cases "sale_challenge a") auto
  hence "\<forall>ah \<in> set (mk_sales m @ ?new). sale_ok (mk_relay m) ah"
    using inv unfolding market_inv_def set_append by blast
  ultimately show ?thesis using inv unfolding market_inv_def e by blast
qed

lemma market_inv_recv:
  assumes inv: "market_inv rp lt m" and law: "market_law lt m (MkRecv env now rdy r)" and "lntypes_lib lt"
  shows "market_inv rp lt (market_step rp mo lt opts lim (MkRecv env now rdy r) m)"
proof -
  let ?P = "row_ok lt (mk_relay m) (set (mk_sales m))"
  have "\<forall>row \<in> set (ch_secrets (fst (reader_recv lt (secrets_store_ops opts env (Inr []) now) now rdy r (mk_ch m)))). ?P row"
  proof (rule reader_recv_rows [OF _ _ _ assms(3)])
    fix i h row t
    assume r: "r = RecvInvoice i" "RHash i = Some h" "inv_State i = SETTLED" and row: "?P row" "sr_payment_hash row = h"
    then obtain a where "(a, h) \<in> set (mk_sales m)" by (auto simp: row_ok_def)
    hence "h \<in> ci_hash ` set (rs_circuits (mk_relay m))" using inv by (fastforce simp: market_inv_def sale_ok_def opened_for_def)
    hence "claimed lt (mk_relay m) h" using law r by (simp add: market_law_def)
    thus "?P (row\<lparr>sr_settled_at := t\<rparr>)" using row by (simp add: row_ok_def)
  qed (use inv law in \<open>simp_all add: market_inv_def market_law_def\<close>)
  thus ?thesis using inv by (simp add: market_inv_def)
qed

lemma NewLnproxyChallenger_secrets: "NewLnproxyChallenger g lt now listed sub store = Inr ch \<Longrightarrow> ch_secrets ch = store"
  by (auto simp: NewLnproxyChallenger_def Challenger_Start_def Let_def split: if_splits sum.splits)

lemma market_reach_inv:
  assumes "market_reach rp mo lt opts lim m" and "lntypes_lib lt"
  shows "market_inv rp lt m"
  using assms(1)
proof (induction rule: market_reach.induct)
  case (start m)
  thus ?case by (simp add: market_start_def market_inv_def relay_inv_def)
next
  case (step m ev)
  show ?case
  proof (cases ev)
    case (MkRestart now listed sub)
    thus ?thesis using step.IH
      by (auto simp: market_inv_def split: sum.split dest: NewLnproxyChallenger_secrets)
  next
    case (MkPoll)
    thus ?thesis using step.IH by (simp add: market_inv_def reader_poll_def)
  qed (use step assms(2) market_inv_relay market_inv_sell market_inv_recv in \<open>auto simp: market_law_def simp del: relay_step.simps\<close>)
qed

subsection \<open>No access before the seller is paid\<close>

lemma circuit_hist_paid:
  assumes "circuit_hist rp h i b ph calls answers" and "APay (Inr pre) \<in> set answers"
  shows "\<exists>st. lnc_state st = Accepted \<and> AWatch st None \<in> set answers \<and> CallPay (payment_of rp i b st) \<in> set calls"
  using assms by cases auto

lemma settled_row:
  assumes "settled_of tbl h = Some (Some t)"
  shows "\<exists>r \<in> set tbl. sr_payment_hash r = h \<and> sr_settled_at r \<noteq> None"
  using assms by (auto simp: settled_of_def find_Some_iff)

text \<open>A circuit that claimed the payment of a sale has paid the seller's own invoice.\<close>

lemma claimed_sale_paid:
  assumes inv: "market_inv rp lt m" and row: "row_ok lt (mk_relay m) (set (mk_sales m)) r" "sr_settled_at r \<noteq> None"
  shows "\<exists>a c st pre. (a, sr_payment_hash r) \<in> set (mk_sales m) \<and> c \<in> set (rs_circuits (mk_relay m)) \<and> ci_hash c = sr_payment_hash r \<and>
     getCreatorInvoice (sl_env a) (sl_lud a) (sl_price a) = Inr (ci_invoice c) \<and>
     lnc_state st = Accepted \<and> AWatch st None \<in> set (ci_answers c) \<and>
     CallPay (payment_of rp (ci_invoice c) (ci_budget c) st) \<in> set (ci_calls c) \<and>
     APay (Inr pre) \<in> set (ci_answers c) \<and> lnt_PreimageHash lt pre = sr_payment_hash r"
proof -
  let ?h = "sr_payment_hash r"
  obtain a where a: "(a, ?h) \<in> set (mk_sales m)" using row(1) by (auto simp: row_ok_def)
  obtain c pre where c: "c \<in> set (rs_circuits (mk_relay m))" "ci_hash c = ?h" "CallSettle pre \<in> set (ci_calls c)"
    "lnt_PreimageHash lt pre = ?h" using row by (auto simp: row_ok_def claimed_def)
  obtain invoice c' where i: "getCreatorInvoice (sl_env a) (sl_lud a) (sl_price a) = Inr invoice"
    "c' \<in> set (rs_circuits (mk_relay m))" "ci_hash c' = ?h" "ci_invoice c' = invoice"
    using inv a by (fastforce simp: market_inv_def sale_ok_def opened_for_def)
  have ri: "relay_inv rp (mk_relay m)" using inv by (simp add: market_inv_def)
  hence "inj_on ci_hash (set (rs_circuits (mk_relay m)))" by (simp add: relay_inv_def distinct_map)
  hence "c' = c" using i(2,3) c(1,2) by (metis inj_onD)
  moreover have "circuit_hist_of rp c" using ri c(1) by (auto simp: relay_inv_def list_all_iff circuit_ok_def)
  ultimately have h: "circuit_hist rp ?h (ci_invoice c) (ci_budget c) (ci_phase c) (ci_calls c) (ci_answers c)" and inv_c: "ci_invoice c = invoice"
    using c(2) i(4) by (simp_all add: circuit_hist_of_def)
  have paid: "APay (Inr pre) \<in> set (ci_answers c)" using circuit_hist_settle [OF h] c(3) by blast
  show ?thesis using circuit_hist_paid [OF h paid] paid a c i(1) inv_c by blast
qed

lemma entitled_after_seller_paid:
  assumes "market_inv rp lt m" and "l402_entitled mo lt ss now later header serviceName (mk_ch m)"
  shows "\<exists>mac p i a c st pre. FromHeader mo lt header = Inr (mac, p) \<and> DecodeIdentifier (mac_Id mo mac) = Inr i \<and>
     (a, PaymentHash i) \<in> set (mk_sales m) \<and> c \<in> set (rs_circuits (mk_relay m)) \<and> ci_hash c = PaymentHash i \<and>
     getCreatorInvoice (sl_env a) (sl_lud a) (sl_price a) = Inr (ci_invoice c) \<and>
     lnc_state st = Accepted \<and> AWatch st None \<in> set (ci_answers c) \<and>
     CallPay (payment_of rp (ci_invoice c) (ci_budget c) st) \<in> set (ci_calls c) \<and>
     APay (Inr pre) \<in> set (ci_answers c) \<and> lnt_PreimageHash lt pre = PaymentHash i"
proof -
  from assms(2) obtain mac p i t where e: "FromHeader mo lt header = Inr (mac, p)" "DecodeIdentifier (mac_Id mo mac) = Inr i"
    "PaymentHash i = lnt_PreimageHash lt p" "settled_of (ch_secrets (mk_ch m)) (lnt_PreimageHash lt p) = Some (Some t)"
    by (auto simp: l402_entitled_def l402_checks_def)
  obtain r where r: "r \<in> set (ch_secrets (mk_ch m))" "sr_payment_hash r = PaymentHash i" "sr_settled_at r \<noteq> None"
    using settled_row [OF e(4)] e(3) by auto
  have "row_ok lt (mk_relay m) (set (mk_sales m)) r" using assms(1) r(1) by (simp add: market_inv_def)
  from claimed_sale_paid [OF assms(1) this r(3)] show ?thesis using e(1,2) r(2) by metis
qed

text \<open>
  C2: nobody gets access before the seller is paid. Whenever the proxy forwards a request to a backend that
  is protected and not free of charge, and not as a free request either, in whatever run of proxy, relay
  and node that leads to the state in which the check ends: the payment hash of the request's L402 is that of
  a sale; the relay has a circuit for it whose invoice is the seller's own invoice over the price of that
  sale; the node held the buyer's payment, the relay called for the payment of the seller's invoice, and
  that payment returned a preimage of the payment hash. Restarts of the proxy, faults of the database and
  requests of others to the relay change nothing of it.
\<close>

theorem access_after_seller_paid:
  assumes "market_reach rp mo lt opts lim m" and "lntypes_lib lt" and "auth_ok opts tenv range_order (px_auth p)"
    and "Proxy_ServeHTTP mo lt net env
           (db_auth mo lt opts tenv rnd created (static_limiter_ops l) cenv tokenRnd range_order now later evs)
           range_keys w r p = (p', Forwarded req)" and "px_auth p' = mk_ch m"
    and "matchService env r (px_services p) = Inr (Some k)" and "AuthRequired env (px_services p ! k) r = Inr level"
    and "IsOn level \<or> IsFreebie level" and "\<not> free_of_charge env (px_services p ! k) r"
    and "\<not> (IsFreebie level \<and> has_freebie (px_services p ! k) (NewRemoteIPPrefixLog net (req_RemoteAddr r)))"
  shows "\<exists>mac q i a c st pre. FromHeader mo lt (req_Header r) = Inr (mac, q) \<and> DecodeIdentifier (mac_Id mo mac) = Inr i \<and>
     (a, PaymentHash i) \<in> set (mk_sales m) \<and> c \<in> set (rs_circuits (mk_relay m)) \<and> ci_hash c = PaymentHash i \<and>
     getCreatorInvoice (sl_env a) (sl_lud a) (sl_price a) = Inr (ci_invoice c) \<and>
     lnc_state st = Accepted \<and> AWatch st None \<in> set (ci_answers c) \<and>
     CallPay (payment_of rp (ci_invoice c) (ci_budget c) st) \<in> set (ci_calls c) \<and>
     APay (Inr pre) \<in> set (ci_answers c) \<and> lnt_PreimageHash lt pre = PaymentHash i"
proof (rule entitled_after_seller_paid [OF market_reach_inv [OF assms(1,2)]])
  show "l402_entitled mo lt (secrets_store_ops opts tenv rnd created) now later (req_Header r)
      (ResourceName (px_services p ! k) (req_Path r)) (mk_ch m)"
    by (rule db_authenticator.serve_forwarded [OF assms(3,4)]) (use assms(5-10) in auto)
qed

subsection \<open>A full run\<close>

definition sample_params :: ProxyParameters where
  "sample_params = \<lparr>pp_Invoice = ''lnbc1'', pp_RoutingMsat = Some 10000, pp_Description = None, pp_DescriptionHash = None\<rparr>"

definition sample_market_env :: challenge_env where
  "sample_market_env = sample_challenge_env\<lparr>nc_Marshal := (\<lambda>p. if p = sample_params then Inr ''lnbc1'' else Inl (External ''json''))\<rparr>"

definition sample_sale :: sale where
  "sample_sale = \<lparr>sl_header = Map.empty, sl_name = ''svc'', sl_lud = ''u@d'', sl_price = 7, sl_env = sample_market_env, sl_token = Inr ''t'',
     sl_secret = Inr ''k'', sl_now = (0, 0), sl_order = rev, sl_db = sample_tx_env\<rparr>"

text \<open>A relay that takes small invoices, at a node on which every invoice has the payment hash of the sample.\<close>

definition sample_small_relay :: RelayParameters where
  "sample_small_relay = NewRelay\<lparr>MinAmountMsat := 1\<rparr>"

definition sample_market_node :: LN where
  "sample_market_node = (sample_node 7000 sample_hash)
     \<lparr>DecodeInvoice := (\<lambda>i. Inr \<lparr>NumMsat = 7000, Features = [], inv_PaymentHash = hex_encode sample_hash,
        inv_DescriptionHash = [], inv_Description = ''d'', inv_Timestamp = 1000000, inv_Expiry = 2592000\<rparr>),
      AddInvoice := (\<lambda>q. Inr ''wrapped-lnbc1'')\<rparr>"

abbreviation sample_market_step :: "market_event \<Rightarrow> market \<Rightarrow> market" where
  "sample_market_step \<equiv> market_step sample_small_relay sample_macaroon_ops sample_hash_ops defaultTxExecutorOptions (static_limiter_ops sample_limiter)"

definition sample_market :: market where
  "sample_market = \<lparr>mk_relay = \<lparr>rs_alive = True, rs_circuits = []\<rparr>, mk_ch = sample_open_challenger, mk_issued = [], mk_sales = []\<rparr>"

definition sample_paid_circuit :: circuit where
  "sample_paid_circuit = \<lparr>ci_hash = sample_hash, ci_invoice = ''lnbc1'', ci_budget = 8993,
     ci_wrapped = \<lparr>ip_Hash = sample_hash, ip_Memo = ''d'', ip_DescriptionHash = [], ip_Expiry = 604200, ip_CltvExpiry = 200, ip_ValueMsat = 17000\<rparr>,
     ci_amount = 7000, ci_phase = Settling,
     ci_calls = [CallWatch sample_hash, CallPay \<lparr>pay_Invoice = ''lnbc1'', TimeoutSeconds = 600, FeeLimitMsat = 8993, CltvLimit = 158\<rparr>, CallSettle ''pre''],
     ci_answers = [sample_held, APay (Inr ''pre'')]\<rparr>"

lemma sample_market_wrap:
  "wrap sample_small_relay sample_market_node 1000300 1000300 (sample_ask ''lnbc1'' (Some 10000)) = Inr (ci_wrapped sample_paid_circuit, 8993)"
  by (simp add: wrap_def sample_market_node_def sample_node_def sample_ask_def sample_small_relay_def NewRelay_def check_amount_def
      known_features_def wrap_description_def wrap_expiry_def wrap_cltv_def wrap_value_def routing_fee_msat_def ensure_def
      sample_paid_circuit_def cong del: rbind_cong)

lemma sample_market_opened:
  "sample_market_step (MkRelay (EvRequest sample_market_node 1000300 1000300 (sample_ask ''lnbc1'' (Some 10000)))) sample_market =
     sample_market\<lparr>mk_relay := \<lparr>rs_alive = True, rs_circuits = [new_circuit sample_hash ''lnbc1'' 8993 (ci_wrapped sample_paid_circuit) 7000]\<rparr>,
       mk_issued := [(sample_ask ''lnbc1'' (Some 10000), ''wrapped-lnbc1'', sample_hash)]\<rparr>"
  by (simp add: sample_market_def issued_by_def OpenCircuit_def sample_market_wrap)
    (simp add: sample_market_node_def sample_ask_def amount_of_def sample_paid_circuit_def)

lemma sample_market_challenge: "NewChallenge sample_market_env ''u@d'' 7 = Inr (''wrapped-lnbc1'', sample_hash)"
proof -
  have "getRoutingMsat 7 = 10000" by (simp add: getRoutingMsat_def trunc_div_def wrap64_def)
  thus ?thesis using sample_challenge
    by (auto simp: NewChallenge_ok getCreatorInvoice_ok requestWrappedInvoice_ok sample_market_env_def sample_params_def sample_challenge_env_def)
qed

lemma sample_market_sold:
  assumes "mk_ch m = sample_open_challenger"
  shows "sample_market_step (MkSell sample_sale) m = m\<lparr>mk_ch := sample_open_challenger\<lparr>ch_secrets := sample_tbl\<rparr>, mk_sales := mk_sales m @ [(sample_sale, sample_hash)]\<rparr>"
proof -
  have c: "sale_challenge sample_sale = Inr (''wrapped-lnbc1'', sample_hash)"
    by (simp add: sale_challenge_def sample_sale_def paymentDetailsForMaxPrice_def sample_market_challenge)
  have "fst (FreshChallengeHeader sample_macaroon_ops (mint_minter sample_macaroon_ops sample_hash_ops sample_secrets
      (static_limiter_ops sample_limiter) sample_market_env (Inr ''t'') rev (0, 0)) Map.empty ''svc'' ''u@d'' 7 sample_open_challenger)
      = sample_open_challenger\<lparr>ch_secrets := sample_tbl\<rparr>"
    using sample_mint_env [OF sample_market_challenge]
    by (simp add: FreshChallengeHeader_def mint_minter_def sample_open_challenger_def sample_l402_service_def sample_tbl_def Let_def)
  with c assms show ?thesis by (simp add: sell_def sample_sale_def sample_secrets_def)
qed

definition sample_sold :: market where
  "sample_sold = \<lparr>mk_relay = \<lparr>rs_alive = True, rs_circuits = [new_circuit sample_hash ''lnbc1'' 8993 (ci_wrapped sample_paid_circuit) 7000]\<rparr>,
     mk_ch = sample_open_challenger\<lparr>ch_secrets := sample_tbl\<rparr>,
     mk_issued = [(sample_ask ''lnbc1'' (Some 10000), ''wrapped-lnbc1'', sample_hash)], mk_sales = [(sample_sale, sample_hash)]\<rparr>"

abbreviation sample_market_reach :: "market \<Rightarrow> bool" where
  "sample_market_reach \<equiv> market_reach sample_small_relay sample_macaroon_ops sample_hash_ops defaultTxExecutorOptions (static_limiter_ops sample_limiter)"

lemma sample_sole_writer: "sole_writer sample_tx_env"
  by (simp add: sole_writer_def sample_tx_env_def)

lemma sample_sold_reach: "sample_market_reach sample_sold"
proof -
  let ?req = "MkRelay (EvRequest sample_market_node 1000300 1000300 (sample_ask ''lnbc1'' (Some 10000)))"
  let ?m = "sample_market_step ?req sample_market"
  have "sample_market_reach sample_market"
    by (rule market_reach.start) (simp add: market_start_def sample_market_def sample_open_challenger_def)
  hence r: "sample_market_reach ?m" by (rule market_reach.step) (simp add: market_law_def node_law_def sample_market_def)
  have "relay_answers ?m sample_market_env"
    unfolding sample_market_opened relay_answers_def
    by (auto simp: sample_market_env_def sample_challenge_env_def sample_params_def sample_ask_def relay_request_def split: if_splits)
  hence law: "market_law sample_hash_ops ?m (MkSell sample_sale)"
    by (simp add: market_law_def sample_sale_def sample_sole_writer del: market_step.simps)
  have ch: "mk_ch ?m = sample_open_challenger" by (simp add: sample_market_def)
  have "sample_market_step (MkSell sample_sale) ?m = sample_sold"
    using sample_market_sold [OF ch] unfolding sample_market_opened
    by (simp add: sample_sold_def sample_market_def del: market_step.simps)
  with market_reach.step [OF r law] show ?thesis by (simp only:)
qed

definition sample_paid_market :: market where
  "sample_paid_market = sample_sold\<lparr>mk_relay := \<lparr>rs_alive = True, rs_circuits = [sample_paid_circuit]\<rparr>\<rparr>"

lemma sample_paid_reach: "sample_market_reach sample_paid_market"
proof -
  let ?e1 = "MkRelay (EvAnswer 0 sample_held)" and ?e2 = "MkRelay (EvAnswer 0 (APay (Inr ''pre'')))"
  have "sample_market_reach (sample_market_step ?e2 (sample_market_step ?e1 sample_sold))"
    by (intro market_reach.step sample_sold_reach) (simp_all add: market_law_def node_law_def del: market_step.simps)
  moreover have "sample_market_step ?e2 (sample_market_step ?e1 sample_sold) = sample_paid_market"
    by (simp add: sample_sold_def sample_paid_market_def issued_by_def new_circuit_def circuit_step_def enter_def payment_of_def
        sample_paid_circuit_def sample_small_relay_def NewRelay_def Let_def)
  ultimately show ?thesis by (simp only:)
qed

lemma sample_settled_reach: "sample_market_reach (sample_paid_market\<lparr>mk_ch := sample_paid_state\<rparr>)"
proof -
  let ?e = "MkRecv sample_tx_env (0, 0) False (RecvInvoice sample_invoice)"
  have "claimed sample_hash_ops (mk_relay sample_paid_market) sample_hash"
    by (auto simp: claimed_def sample_paid_market_def sample_paid_circuit_def sample_hash_ops_def sample_lntypes_ops_def)
  hence law: "market_law sample_hash_ops sample_paid_market ?e"
    by (simp add: market_law_def sample_sole_writer sample_invoice_def)
  have ok: "secrets_ok defaultTxExecutorOptions sample_tx_env sample_tbl" by (rule sample_tbl_ok)
  have "fst (ss_SetSettledAt (secrets_store_ops defaultTxExecutorOptions sample_tx_env (Inr []) (0, 0)) sample_hash t sample_tbl)
      = SetSettledAtByPaymentHash_q sample_hash t sample_tbl" for t
    by (simp add: secrets_store_ops_def SetSettledAtByPaymentHash_def write_healthy [OF ok])
  moreover have "lnt_MakeHash sample_hash_ops sample_hash = Inr sample_hash"
    using sample_hash_lib by (simp add: lntypes_lib_def sample_hash_def)
  ultimately have "sample_market_step ?e sample_paid_market = sample_paid_market\<lparr>mk_ch := sample_paid_state\<rparr>"
    by (simp add: sample_paid_market_def sample_sold_def sample_open_challenger_def reader_recv_def sample_invoice_def track_invoice_def
        invoiceIrrelevant_def sample_paid_state_def sample_challenger_state_def Let_def)
  with market_reach.step [OF sample_paid_reach law] show ?thesis by (simp only:)
qed

lemma sample_paid_entitled:
  "l402_entitled sample_macaroon_ops sample_hash_ops (secrets_store_ops defaultTxExecutorOptions sample_tx_env (Inr ''k'') (0, 0)) (0, 0)
     (time_Unix 3600 0) sample_auth_header ''svc'' sample_paid_state"
proof -
  have ord: "\<And>ks :: string list. set (rev ks) = set ks" by simp
  have ok: "secrets_ok defaultTxExecutorOptions sample_tx_env (ch_secrets sample_paid_state)" using sample_paid_ok by (simp add: auth_ok_def)
  have s: "secrets_of (ch_secrets sample_paid_state) = secrets_of sample_tbl" "invoiceStates sample_paid_state sample_hash = Some SETTLED"
    "settled_of (ch_secrets sample_paid_state) sample_hash = Some (Some (time_Unix 7 0))"
    using sample_settled_of
    by (simp_all add: sample_paid_state_def secrets_of_settle settled_of_settle sample_challenger_state_def)
  have h: "lnt_PreimageHash sample_hash_ops p = sample_hash" for p by (simp add: sample_hash_ops_def sample_lntypes_ops_def)
  have t: "\<not> time_before (time_add (time_Unix 7 0) L402RightExpiryDuration) (time_Unix 3600 0)"
    by (simp add: time_Unix_def time_add_def sat_add_def wrap64_def L402RightExpiryDuration_def time_before_def unix_to_internal_def)
  have "\<exists>i k raws. l402_checks sample_macaroon_ops sample_hash_ops (secrets_store_ops defaultTxExecutorOptions sample_tx_env (Inr ''k'') (0, 0)) (0, 0)
      \<lparr>vp_Macaroon = sample_mac, vp_Preimage = replicate 32 (CHR ''p''), vp_TargetService = ''svc''\<rparr> (ch_secrets sample_paid_state) i k raws"
    using sample_paid_checks secrets_db.get_spec [OF ok, of "Inr ''k''" "(0, 0)"]
    unfolding l402_checks_def VerifyCaveats_mint [OF ord] by (auto simp: h s(1))
  thus ?thesis unfolding l402_entitled_def using sample_from_header h s t by (auto simp del: split_paired_Ex)
qed

theorem access_after_seller_paid_witness:
  "\<exists>a c. (a, sample_hash) \<in> set (mk_sales sample_paid_market) \<and> c \<in> set (rs_circuits (mk_relay sample_paid_market)) \<and>
     getCreatorInvoice (sl_env a) (sl_lud a) (sl_price a) = Inr (ci_invoice c) \<and> (\<exists>pre. APay (Inr pre) \<in> set (ci_answers c))"
proof -
  let ?r = "sample_request\<lparr>req_Header := sample_auth_header\<rparr>" and ?p = "sample_proxy sample_prepared"
  let ?au = "sample_lsat_auth (time_Unix 3600 0)"
  have m: "matchService sample_service_env ?r (px_services ?p) = Inr (Some 0)"
    by (simp add: matchService_def MustMatch_def sample_service_env_def sample_prepared_def sample_service_def sample_request_def sample_proxy_def)
  have ar: "AuthRequired sample_service_env (px_services ?p ! 0) ?r = Inr ''on''"
    using sample_on(1) by (simp add: AuthRequired_def sample_proxy_def)
  have name: "ResourceName (px_services ?p ! 0) (req_Path ?r) = ''svc''"
    by (simp add: ResourceName_def sample_proxy_def sample_prepared_def sample_service_def)
  obtain st b where acc: "au_Accept ?au sample_auth_header ''svc'' sample_paid_state = (st, b)" by fastforce
  have "fst (au_Accept ?au sample_auth_header ''svc'' sample_paid_state) = sample_paid_state"
    unfolding sample_lsat_auth_def lsat_auth_ops_def auth_ops.simps by (rule quiet_accept [OF sample_paid_ok])
  with acc have "st = sample_paid_state" by simp
  moreover have "b" using db_authenticator.accept_spec [OF sample_paid_ok acc [unfolded sample_lsat_auth_def]] sample_paid_entitled calculation by blast
  ultimately have "\<exists>req. sample_serve (time_Unix 3600 0) sample_prepared ?r = (?p, Forwarded req)"
    using m ar name sample_on(2) acc
    by (simp add: Proxy_ServeHTTP_def serve_matched_def forward_def director_def Let_def sample_request_def sample_proxy_def)
  then obtain req where f: "sample_serve (time_Unix 3600 0) sample_prepared ?r = (?p, Forwarded req)" by blast
  have free: "\<not> free_of_charge sample_service_env (px_services ?p ! 0) ?r"
    by (simp add: free_of_charge_def sample_proxy_def sample_prepared_def)
  have bie: "\<not> IsFreebie ''on''" by (simp add: IsFreebie_def to_lower_def lower_char_def byte_val_def has_prefix_def)
  have ok: "auth_ok defaultTxExecutorOptions sample_tx_env rev (px_auth ?p)" using sample_paid_ok by (simp add: sample_proxy_def)
  have px: "px_auth ?p = mk_ch (sample_paid_market\<lparr>mk_ch := sample_paid_state\<rparr>)" by (simp add: sample_proxy_def)
  show ?thesis
    using access_after_seller_paid [OF sample_settled_reach sample_hash_lib ok f [unfolded sample_lsat_auth_def] px m ar _ free] sample_on(2) bie
    by (auto simp: sample_paid_market_def sample_sold_def)
qed

end
