(* ===== verification/Spec2Isabelle.thy ===== *)
theory Spec2Isabelle
  imports Server_Interceptor Onion_Store Lnc_Node Aperture_Run Content_App Relay_Main Logging Marketplace
begin

text \<open>
  A model of \<^verbatim>\<open>aperture-lnproxy\<close>: a reverse proxy that sells access to HTTP and gRPC services for
  Lightning payments (\<^verbatim>\<open>src/aperture\<close>), the relay that wraps the sellers' invoices (\<^verbatim>\<open>src/lnproxy\<close>), and a
  content service behind the proxy (\<^verbatim>\<open>src/contents\<close>).

  \<^bold>\<open>The program.\<close> A request reaches \<^verbatim>\<open>Proxy.ServeHTTP\<close>, which matches a configured service and
  asks the authenticator. Without an accepted L402 the client gets a free request if the service
  grants any, or a challenge with a new L402: a macaroon from the mint, bound to the payment hash of an
  invoice. The challenger gets that invoice from the recipient's server (a lightning address) and has
  the relay wrap it, so that the payment runs through a node that aperture watches. The
  challenger follows that node's invoices, records settlements in the database and lets waiting
  requests go on. The client pays, stores the token and repeats its request with macaroon and preimage.
  The mailbox server (hashmail) is a separate service of the same process.

  \<^bold>\<open>Theories and sources.\<close>
  \<^item> \<^verbatim>\<open>Go_Base\<close>, \<^verbatim>\<open>Go_Encoding\<close>, \<^verbatim>\<open>Go_Sha256\<close>, \<^verbatim>\<open>Http_Model\<close>: the prelude. Errors and results, strings, integers,
    hex, base64, time, SHA-256, header maps, requests. \<^verbatim>\<open>Macaroon_Lib\<close>: the macaroon library as a parameter.
  \<^item> \<^verbatim>\<open>Lsat_Caveat\<close>, \<^verbatim>\<open>Lsat_Satisfier\<close>, \<^verbatim>\<open>Lsat_Service\<close>, \<^verbatim>\<open>Lsat_Identifier\<close>, \<^verbatim>\<open>Lsat_Header\<close>, \<^verbatim>\<open>Lsat_Token\<close>, \<^verbatim>\<open>Lsat_Store\<close>,
    \<^verbatim>\<open>Client_Interceptor\<close>, \<^verbatim>\<open>Server_Interceptor\<close>: \<^verbatim>\<open>aperture/lsat\<close>, one theory per file or pair of files.
  \<^item> \<^verbatim>\<open>Aperture_DB\<close>, \<^verbatim>\<open>Secrets_Store\<close>, \<^verbatim>\<open>Onion_Store\<close>, \<^verbatim>\<open>Postgres_Store\<close>, \<^verbatim>\<open>Lnc_Store\<close>, \<^verbatim>\<open>Lnc_Node\<close>:
    \<^verbatim>\<open>aperture/aperturedb\<close> with its queries, \<^verbatim>\<open>aperture/onion_store.go\<close> and \<^verbatim>\<open>aperture/lnc\<close> (the sessions, then the
    connection to the node that uses them). Tables are lists of rows.
  \<^item> \<^verbatim>\<open>Mint\<close>, \<^verbatim>\<open>Service_Limiter\<close>, \<^verbatim>\<open>Lnurl\<close>, \<^verbatim>\<open>Challenger\<close>, \<^verbatim>\<open>Authenticator\<close>: \<^verbatim>\<open>aperture/mint\<close>, \<^verbatim>\<open>aperture/services.go\<close>,
    \<^verbatim>\<open>aperture/lnurl\<close>, \<^verbatim>\<open>aperture/challenger\<close>, \<^verbatim>\<open>aperture/auth\<close>.
  \<^item> \<^verbatim>\<open>Freebie\<close>, \<^verbatim>\<open>Proxy_Service\<close>, \<^verbatim>\<open>Proxy\<close>: \<^verbatim>\<open>aperture/freebie\<close>, \<^verbatim>\<open>aperture/pricer\<close>, \<^verbatim>\<open>aperture/proxy\<close>.
  \<^item> \<^verbatim>\<open>Hashmail_Pipe\<close>, \<^verbatim>\<open>Hashmail\<close>: \<^verbatim>\<open>aperture/hashmail_server.go\<close>, its data path and its server.
  \<^item> \<^verbatim>\<open>Aperture_Config\<close>, \<^verbatim>\<open>Aperture_Main\<close>, \<^verbatim>\<open>Aperture_Run\<close>: \<^verbatim>\<open>aperture/config.go\<close> and \<^verbatim>\<open>aperture/aperture.go\<close>: what is
    opened and closed, then the goroutines of a running process and their end.
  \<^item> \<^verbatim>\<open>Relay\<close>, \<^verbatim>\<open>Relay_Main\<close>: \<^verbatim>\<open>lnproxy/relay.go\<close> and \<^verbatim>\<open>lnproxy/cmd/http-relay/main.go\<close>: circuits and handler, then flags,
    set-up and the shutdown of the process.
  \<^item> \<^verbatim>\<open>Contents\<close>, \<^verbatim>\<open>Content_App\<close>: \<^verbatim>\<open>contents/content.go\<close>, \<^verbatim>\<open>contents/pricer.go\<close>, \<^verbatim>\<open>contents/db/db.go\<close>; the start of the
    service (\<^verbatim>\<open>contents/cmd/app/main.go\<close>), its routes and the command line tool (\<^verbatim>\<open>contents/cmd/appcli/main.go\<close>).
  \<^item> \<^verbatim>\<open>Logging\<close>: \<^verbatim>\<open>aperture/log.go\<close> and the \<^verbatim>\<open>log.go\<close> of the packages: the loggers in use and the shutdown that a
    critical line asks for.
  \<^item> \<^verbatim>\<open>L402_Types\<close>, \<^verbatim>\<open>Payment_Flow\<close>, \<^verbatim>\<open>Marketplace\<close>: properties across the components above: the sizes of all values
    on the way of an L402 through mint and database, the way from the challenge to the service, and proxy, relay
    and node together as one step machine.

  \<^bold>\<open>Conventions.\<close> Go structs are records, state is passed and returned, an error is the left side of a
  sum and a panic one of the errors. \<^verbatim>\<open>int64\<close> values are integers with \<open>wrap64\<close> where they may wrap,
  unsigned ones are words. The order in which Go iterates over a map is an argument. Goroutines
  are step machines: requests waiting on the challenger's condition variable (\<open>wait_step\<close>), the calls
  and timers of the mailbox server (\<open>hm_step\<close>, \<open>hm_reach\<close>), the circuits of the relay (\<open>relay_step\<close>,
  \<open>relay_reach\<close>), its main goroutine, handlers and wait group (\<open>main_step\<close>, \<open>main_reach\<close>), and the goroutines of the
  proxy process (\<open>run_step\<close>, \<open>run_trace\<close>). \<^verbatim>\<open>Marketplace\<close> puts the circuits of the relay, the challenger with its table
  and the node's reports into one machine (\<open>market_step\<close>, \<open>market_reach\<close>); what it needs of node, connection and
  database is \<open>market_law\<close>. Faults of files, database and network are arguments, so that each theorem says for
  which of them it holds.

  \<^bold>\<open>Interfaces.\<close> The Go interfaces are records of operations with a locale for the contract: the token
  store (\<open>token_store\<close>, by the file store), the secret store (\<open>secret_store\<close>, and \<open>typed_secret_store\<close> for
  the sizes of its values, by the database), the limiter (\<open>service_limiter\<close>, by the static one), the minter (\<open>minter\<close>, which extends both), the invoice
  checker (\<open>invoice_checker\<close>, by the challenger), the authenticator (\<open>authenticator\<close>, by the L402
  authenticator and by the mock), the satisfiers (\<open>attenuating\<close>, by the services, capabilities and timeout
  satisfiers), the free requests (\<open>freebie_db\<close>), the onion keys (\<open>onion_keys\<close>, by the database and by etcd),
  the LNC sessions (\<open>session_store\<close>) and the content service (\<open>content_service\<close>, by the handlers over the
  table). Clients are proved against the contract.

  \<^bold>\<open>What is shown.\<close>
  \<^item> The whole: nobody gets access before the relay has paid the seller's own invoice over the price, in every
    interleaving, with restarts of the proxy and under all faults of the database.
  \<^item> Access: which requests reach a backend, what an accepted L402 proves, that a paid challenge opens its
    service for an hour, that caveats only restrict, that an unpaid request is challenged.
  \<^item> Money: the client pays at most once per call and within its limits, never loses a paid token and never
    pays twice; the relay pays only against a held payment and never more than it receives.
  \<^item> Concurrency: no lost wakeup of waiting requests, mailbox sides held once, one circuit per payment hash; the
    relay exits only with no circuit open, and every fair run of the proxy that is told to stop stops, be it by a signal,
    by a server that returned or by a critical error.
  \<^item> Data: transactions take effect once or not at all, the file store and the content table refine their
    abstract machines, encodings round-trip, messages of a mailbox arrive in order.
  \<^item> Types: from the mint's random bytes to the database and back, secrets, token ids, payment hashes and preimages
    have the sizes the Go types fix.
  \<^item> Start: services are prepared as request handling needs them, everything opened is closed.
  \<^item> Limits of the code, each with a concrete instance: see the properties on prices above 8000 satoshis,
    budgets and lifetimes that wrap, ids that are cut, names with separators, static prices, settlements
    missed while the process was down, and the lemmas on full buffers, amounts in limbo and errors of the invoice
    stream that nobody hears.

  \<^bold>\<open>Bounds and fuel.\<close> Retries of transactions are bounded by the configured number, as in the code. The
  wait for an invoice runs over a list of events of other goroutines and ends with the timeout
  event, which the code schedules itself; the theorem holds for every such list. A circuit of the relay
  ends within three answers of the node. Runs of the proxy process are infinite sequences of events; the fairness
  they need is \<open>fair_run\<close>: each goroutine gets its turns, a closed server returns, a cancelled stream returns. All other loops are structural.

  \<^bold>\<open>Not modelled.\<close> Sockets, TLS and gRPC transport, the database driver and the migration library, the regular
  expressions of the configuration, JSON and YAML (parameters with the behaviour the code relies on), SQL
  beyond the queries of the repository, metrics, and the text of log lines. Code that \<^verbatim>\<open>protoc\<close> generated
  (\<^verbatim>\<open>*.pb.go\<close>, \<^verbatim>\<open>*.pb.gw.go\<close>) and the fixtures and mocks of lnd that only tests use are left out; what remains of the
  hand-written files are imports, interface types, constants of the cipher suites, and one-line wrappers.
\<close>

end
